(* ===== verification/Prelude.thy ===== *)
theory Prelude
  imports Main "HOL-Library.Sublist" "HOL-Library.Multiset"
begin

text \<open>
  Shared material of the development: the collections of rewrite rules the component
  theories extend, the types every component uses (points in time, durations), the Go
  integer conversions, the generic lemmas on lists and multisets, and the interface of a
  transition system whose steps keep an invariant.
\<close>

section \<open>Collections\<close>

named_theorems redis_simps \<open>what a Redis command returns and does to the keyspace\<close>
named_theorems queue_simps \<open>the effect of the queue client's scripts on its five keys\<close>
named_theorems pool_simps \<open>the transitions of the worker pool\<close>
named_theorems sql_simps \<open>what a statement does to the tables\<close>

section \<open>Time\<close>

text \<open>
  A \<^verbatim>\<open>time.Time\<close> is a number of nanoseconds since the Unix epoch; the zero value of the type
  (year 1) is a distinguished instant. A \<^verbatim>\<open>time.Duration\<close> is a number of nanoseconds.
\<close>

type_synonym gotime = int
type_synonym duration = int

definition zero_time :: gotime where
  "zero_time = - 62135596800000000000"

definition IsZero :: "gotime \<Rightarrow> bool" where
  "IsZero t \<longleftrightarrow> t = zero_time"

abbreviation (input) Millisecond :: duration where "Millisecond \<equiv> 1000000"
abbreviation (input) Second :: duration where "Second \<equiv> 1000000000"
abbreviation (input) Minute :: duration where "Minute \<equiv> 60000000000"
abbreviation (input) Hour :: duration where "Hour \<equiv> 3600000000000"

text \<open>Go's integer division truncates towards zero.\<close>

definition quot :: "int \<Rightarrow> int \<Rightarrow> int" where
  "quot a b = (if a < 0 then - ((- a) div b) else a div b)"

lemma quot_nonneg [simp]: "0 \<le> a \<Longrightarrow> quot a b = a div b"
  by (simp add: quot_def)

text \<open>\<^verbatim>\<open>t.Unix()\<close>: whole seconds since the epoch.\<close>

definition Unix :: "gotime \<Rightarrow> int" where
  "Unix t = t div Second"

text \<open>Conversion to a signed 32-bit integer keeps the low 32 bits.\<close>

definition int32 :: "int \<Rightarrow> int" where
  "int32 i = (i + 2147483648) mod 4294967296 - 2147483648"

lemma int32_range: "- 2147483648 \<le> int32 i \<and> int32 i \<le> 2147483647"
  unfolding int32_def by (smt (verit) pos_mod_bound pos_mod_sign)

lemma int32_id [simp]: "- 2147483648 \<le> i \<Longrightarrow> i \<le> 2147483647 \<Longrightarrow> int32 i = i"
  unfolding int32_def by simp

lemma int32_idem [simp]: "int32 (int32 i) = int32 i"
  using int32_range [of i] by simp

text \<open>64-bit arithmetic wraps the same way.\<close>

definition int64 :: "int \<Rightarrow> int" where
  "int64 i = (i + 9223372036854775808) mod 18446744073709551616 - 9223372036854775808"

lemma int64_range: "- 9223372036854775808 \<le> int64 i \<and> int64 i \<le> 9223372036854775807"
  unfolding int64_def by (smt (verit) pos_mod_bound pos_mod_sign)

lemma int64_id [simp]: "- 9223372036854775808 \<le> i \<Longrightarrow> i \<le> 9223372036854775807 \<Longrightarrow> int64 i = i"
  unfolding int64_def by simp

section \<open>How a call ends\<close>

text \<open>A call returns, or it panics after the effects it had so far.\<close>

datatype 'a ending = Returned 'a | Panicked 'a

section \<open>Lists and multisets\<close>

lemma remove1_append_last: "x \<notin> set xs \<Longrightarrow> remove1 x (xs @ [x]) = xs"
  by (induction xs) auto

lemma mset_butlast_last: "xs \<noteq> [] \<Longrightarrow> add_mset (last xs) (mset (butlast xs)) = mset xs"
  by (cases xs rule: rev_cases) simp_all

lemma set_butlast_subset: "set (butlast xs) \<subseteq> set xs"
  by (auto dest: in_set_butlastD)

lemma distinct_mset_eq: "mset xs = mset ys \<Longrightarrow> distinct xs \<longleftrightarrow> distinct ys"
  by (metis mset_eq_imp_distinct_iff)

lemma find_Some_iff_ex: "(\<exists>y. find P xs = Some y) \<longleftrightarrow> (\<exists>x \<in> set xs. P x)"
  by (metis find_None_iff not_None_eq)

lemma find_SomeD: "find P xs = Some y \<Longrightarrow> y \<in> set xs \<and> P y"
  by (auto simp: find_Some_iff)

text \<open>How many elements of a list satisfy a predicate.\<close>

definition tally :: "('a \<Rightarrow> bool) \<Rightarrow> 'a list \<Rightarrow> int" where
  "tally P xs = int (length (filter P xs))"

lemma tally_simps [simp]:
  "tally P [] = 0" "tally P (x # xs) = (if P x then 1 else 0) + tally P xs"
  "tally P (xs @ ys) = tally P xs + tally P ys"
  by (simp_all add: tally_def)

lemma tally_nonneg [simp]: "0 \<le> tally P xs"
  by (simp add: tally_def)

lemma tally_zero_iff: "tally P xs = 0 \<longleftrightarrow> (\<forall>x \<in> set xs. \<not> P x)"
  by (simp add: tally_def filter_empty_conv)

lemma tally_update [simp]:
  "i < length xs \<Longrightarrow>
   tally P (xs[i := y]) = tally P xs - (if P (xs ! i) then 1 else 0) + (if P y then 1 else 0)"
proof (induction xs arbitrary: i)
  case (Cons x xs)
  then show ?case by (cases i) simp_all
qed simp

lemma tally_replicate [simp]: "tally P (replicate n x) = (if P x then int n else 0)"
  by (induction n) auto

lemma tally_mono: "(\<And>x. P x \<Longrightarrow> Q x) \<Longrightarrow> tally P xs \<le> tally Q xs"
  by (induction xs) auto

lemma tally_le_length: "tally P xs \<le> int (length xs)"
  by (simp add: tally_def)

lemma tally_pos: "i < length xs \<Longrightarrow> P (xs ! i) \<Longrightarrow> 0 < tally P xs"
  using tally_zero_iff [of P xs] tally_nonneg [of P xs] by (metis nth_mem order_le_less)

lemma sum_list_less:
  "i < length xs \<Longrightarrow> f y < f (xs ! i) \<Longrightarrow> sum_list (map f (xs[i := y])) < sum_list (map f xs)" for f :: "'a \<Rightarrow> nat"
proof (induction xs arbitrary: i)
  case (Cons x xs)
  then show ?case by (cases i) simp_all
qed simp

definition drop_nth :: "nat \<Rightarrow> 'a list \<Rightarrow> 'a list" where
  "drop_nth k xs = take k xs @ drop (Suc k) xs"

lemma tally_drop_nth [simp]:
  "k < length xs \<Longrightarrow> tally P (drop_nth k xs) = tally P xs - (if P (xs ! k) then 1 else 0)"
  using arg_cong [OF id_take_nth_drop [of k xs], of "tally P"] by (simp add: drop_nth_def)

lemma length_drop_nth: "i < length xs \<Longrightarrow> length (drop_nth i xs) = length xs - 1"
  by (simp add: drop_nth_def)

section \<open>Transition systems with an invariant\<close>

text \<open>
  The contract several components share: a set of start states, a step relation and a
  predicate that holds at the start and that every step keeps. What the contract gives is
  that the predicate holds after any number of steps, in any order.
\<close>

locale invariant_system =
  fixes start :: "'s \<Rightarrow> bool"
    and step :: "'s \<Rightarrow> 's \<Rightarrow> bool"
    and invar :: "'s \<Rightarrow> bool"
  assumes start_invar: "start s \<Longrightarrow> invar s"
    and step_invar: "invar s \<Longrightarrow> step s t \<Longrightarrow> invar t"
begin

lemma steps_invar:
  assumes "step\<^sup>*\<^sup>* s t" and "invar s"
  shows "invar t"
  using assms by (induction rule: rtranclp_induct) (auto intro: step_invar)

lemma reachable_invar:
  assumes "start s" and "step\<^sup>*\<^sup>* s t"
  shows "invar t"
  using assms start_invar steps_invar by blast

end

section \<open>First in, first out\<close>

text \<open>
  The contract of a queue: what is put is taken later, in the same order. \<open>fits\<close> says when a
  put is accepted.
\<close>

locale fifo =
  fixes put :: "'a \<Rightarrow> 's \<Rightarrow> 's"
    and take_one :: "'s \<Rightarrow> 'a option \<times> 's"
    and contents :: "'s \<Rightarrow> 'a list"
    and fits :: "'a \<Rightarrow> 's \<Rightarrow> bool"
    and sound :: "'s \<Rightarrow> bool"
  assumes put_contents: "sound s \<Longrightarrow> fits x s \<Longrightarrow> contents (put x s) = contents s @ [x]"
    and put_sound: "sound s \<Longrightarrow> fits x s \<Longrightarrow> sound (put x s)"
    and take_contents: "sound s \<Longrightarrow> contents s = x # xs \<Longrightarrow>
          fst (take_one s) = Some x \<and> contents (snd (take_one s)) = xs \<and> sound (snd (take_one s))"
begin

fun puts :: "'a list \<Rightarrow> 's \<Rightarrow> 's" where
  "puts [] s = s"
| "puts (x # xs) s = puts xs (put x s)"

fun all_fit :: "'a list \<Rightarrow> 's \<Rightarrow> bool" where
  "all_fit [] s = True"
| "all_fit (x # xs) s = (fits x s \<and> all_fit xs (put x s))"

fun takes :: "nat \<Rightarrow> 's \<Rightarrow> 'a option list" where
  "takes 0 s = []"
| "takes (Suc n) s = fst (take_one s) # takes n (snd (take_one s))"

lemma puts_contents:
  "sound s \<Longrightarrow> all_fit xs s \<Longrightarrow> contents (puts xs s) = contents s @ xs \<and> sound (puts xs s)"
  by (induction xs arbitrary: s) (auto simp: put_contents put_sound)

lemma takes_contents: "sound s \<Longrightarrow> takes (length (contents s)) s = map Some (contents s)"
proof (induction "contents s" arbitrary: s)
  case (Cons x xs)
  from take_contents [OF Cons.prems Cons.hyps(2) [symmetric]]
  have step: "fst (take_one s) = Some x" "contents (snd (take_one s)) = xs" "sound (snd (take_one s))"
    by auto
  with Cons.hyps(1) have "takes (length xs) (snd (take_one s)) = map Some xs" by metis
  with step Cons.hyps(2) [symmetric] show ?case by simp
qed simp

theorem first_in_first_out:
  assumes "sound s" and "contents s = []" and "all_fit xs s"
  shows "takes (length xs) (puts xs s) = map Some xs"
  using assms puts_contents takes_contents [of "puts xs s"] by simp

end

end
