(* ===== verification/GoStd.thy ===== *)
theory GoStd
  imports Prelude "HOL-Library.Char_ord" "HOL-Library.List_Lexorder"
begin

text \<open>
  What the program uses of Go's standard library, on Go's own view of a string: a sequence
  of bytes (\<^typ>\<open>string\<close> is a list of 8-bit characters). \<^verbatim>\<open>strings\<close>: trimming, lower case,
  containment, prefixes and splitting. \<^verbatim>\<open>strconv\<close>: decimal formatting and parsing with the
  two error kinds and the values Go returns beside an error. The round trips and injectivity facts the
  components rely on are proved here once.
\<close>

section \<open>Bytes\<close>

definition byte :: "char \<Rightarrow> nat" where
  "byte c = of_char c"

definition is_digit :: "char \<Rightarrow> bool" where
  "is_digit c \<longleftrightarrow> 48 \<le> byte c \<and> byte c \<le> 57"

definition digit_val :: "char \<Rightarrow> nat" where
  "digit_val c = byte c - 48"

definition digit_char :: "nat \<Rightarrow> char" where
  "digit_char d = char_of (48 + d)"

lemma byte_less_256: "byte c < 256"
  unfolding byte_def by (rule nat_of_char_less_256)

lemma byte_char_of [simp]: "n < 256 \<Longrightarrow> byte (char_of n) = n"
  by (simp add: byte_def)

lemma byte_inject [simp]: "byte c = byte c' \<longleftrightarrow> c = c'"
  by (simp add: byte_def)

lemma is_digit_digit_char [simp]: "d < 10 \<Longrightarrow> is_digit (digit_char d)"
  by (simp add: is_digit_def digit_char_def)

lemma digit_val_digit_char [simp]: "d < 10 \<Longrightarrow> digit_val (digit_char d) = d"
  by (simp add: digit_val_def digit_char_def)

lemma digit_char_digit_val [simp]: "is_digit c \<Longrightarrow> digit_char (digit_val c) = c"
  by (simp add: is_digit_def digit_char_def digit_val_def byte_def)

text \<open>A literal beyond ASCII, by its UTF-8 bytes.\<close>

definition bytes :: "nat list \<Rightarrow> string" where
  "bytes bs = map char_of bs"

lemma bytes_simps [simp]: "bytes [] = []" "bytes (b # bs) = char_of b # bytes bs"
  by (simp_all add: bytes_def)

section \<open>strings\<close>

definition is_ascii :: "string \<Rightarrow> bool" where
  "is_ascii s \<longleftrightarrow> (\<forall>c \<in> set s. byte c < 128)"

definition ascii_lower :: "char \<Rightarrow> char" where
  "ascii_lower c = (if 65 \<le> byte c \<and> byte c \<le> 90 then char_of (byte c + 32) else c)"

text \<open>
  \<^verbatim>\<open>strings.ToLower\<close> maps an ASCII string byte by byte; any other string goes through the
  Unicode case tables, which are the argument \<open>ul\<close>. Nothing is assumed of it.
\<close>

definition ToLower :: "(string \<Rightarrow> string) \<Rightarrow> string \<Rightarrow> string" where
  "ToLower ul s = (if is_ascii s then map ascii_lower s else ul s)"

lemma ToLower_lower: "\<forall>c \<in> set s. byte c < 128 \<and> \<not> (65 \<le> byte c \<and> byte c \<le> 90) \<Longrightarrow> ToLower ul s = s"
  by (auto simp: ToLower_def is_ascii_def ascii_lower_def intro!: map_idI)

text \<open>
  \<^verbatim>\<open>strings.TrimSpace\<close> removes leading and trailing white space as Unicode defines it. The
  encodings of the space characters, as bytes:
\<close>

definition space_runes :: "string list" where
  "space_runes =
     map (map char_of)
       [[9], [10], [11], [12], [13], [32 :: nat],
        [194, 133], [194, 160], [225, 154, 128],
        [226, 128, 128], [226, 128, 129], [226, 128, 130], [226, 128, 131], [226, 128, 132],
        [226, 128, 133], [226, 128, 134], [226, 128, 135], [226, 128, 136], [226, 128, 137],
        [226, 128, 138], [226, 128, 168], [226, 128, 169], [226, 128, 175],
        [226, 129, 159], [227, 128, 128]]"

definition leading_space :: "string \<Rightarrow> nat" where
  "leading_space s = (case find (\<lambda>r. prefix r s) space_runes of None \<Rightarrow> 0 | Some r \<Rightarrow> length r)"

definition trailing_space :: "string \<Rightarrow> nat" where
  "trailing_space s = (case find (\<lambda>r. suffix r s) space_runes of None \<Rightarrow> 0 | Some r \<Rightarrow> length r)"

function TrimLeftSpace :: "string \<Rightarrow> string" where
  "TrimLeftSpace s =
     (if s = [] \<or> leading_space s = 0 then s else TrimLeftSpace (drop (leading_space s) s))"
  by pat_completeness auto
termination
  by (relation "measure length") auto

function TrimRightSpace :: "string \<Rightarrow> string" where
  "TrimRightSpace s =
     (if s = [] \<or> trailing_space s = 0 then s
      else TrimRightSpace (take (length s - trailing_space s) s))"
  by pat_completeness auto
termination
  by (relation "measure length") auto

declare TrimLeftSpace.simps [simp del] TrimRightSpace.simps [simp del]

definition TrimSpace :: "string \<Rightarrow> string" where
  "TrimSpace s = TrimRightSpace (TrimLeftSpace s)"

definition Contains :: "string \<Rightarrow> string \<Rightarrow> bool" where
  "Contains s sub \<longleftrightarrow> sublist sub s"

definition HasPrefix :: "string \<Rightarrow> string \<Rightarrow> bool" where
  "HasPrefix s p \<longleftrightarrow> prefix p s"

definition TrimSuffix :: "string \<Rightarrow> string \<Rightarrow> string" where
  "TrimSuffix s p = (if suffix p s then take (length s - length p) s else s)"

text \<open>\<^verbatim>\<open>strings.Split\<close> with a separator of one byte.\<close>

fun Split :: "char \<Rightarrow> string \<Rightarrow> string list" where
  "Split sep [] = [[]]"
| "Split sep (c # s) =
     (if c = sep then [] # Split sep s
      else (case Split sep s of [] \<Rightarrow> [[c]] | w # ws \<Rightarrow> (c # w) # ws))"

lemma Split_not_Nil [simp]: "Split sep s \<noteq> []"
  by (induction s) (auto split: list.splits)

lemma Split_no_sep: "sep \<notin> set s \<Longrightarrow> Split sep s = [s]"
  by (induction s) auto

lemma Split_append: "sep \<notin> set a \<Longrightarrow> Split sep (a @ sep # b) = a # Split sep b"
  by (induction a) auto

text \<open>\<^verbatim>\<open>strings.SplitN\<close> with limit 2: the parts around the first separator, or one part.\<close>

definition split_once :: "char \<Rightarrow> string \<Rightarrow> string list" where
  "split_once sep s =
     (let a = takeWhile (\<lambda>c. c \<noteq> sep) s
      in if length a = length s then [s] else [a, drop (Suc (length a)) s])"

lemma split_once_append: "sep \<notin> set a \<Longrightarrow> split_once sep (a @ sep # b) = [a, b]"
proof -
  assume "sep \<notin> set a"
  then have "takeWhile (\<lambda>c. c \<noteq> sep) (a @ sep # b) = a" by (subst takeWhile_append2) auto
  then show ?thesis by (simp add: split_once_def Let_def)
qed

text \<open>\<^verbatim>\<open>strings.ReplaceAll\<close> of one byte by a string.\<close>

definition ReplaceByte :: "string \<Rightarrow> char \<Rightarrow> string \<Rightarrow> string" where
  "ReplaceByte s c r = concat (map (\<lambda>x. if x = c then r else [x]) s)"

lemma ReplaceByte_simps [simp]:
  "ReplaceByte [] c r = []"
  "ReplaceByte (x # s) c r = (if x = c then r else [x]) @ ReplaceByte s c r"
  "ReplaceByte (s @ t) c r = ReplaceByte s c r @ ReplaceByte t c r"
  by (simp_all add: ReplaceByte_def)

lemma set_ReplaceByte: "set (ReplaceByte s c r) \<subseteq> (set s - {c}) \<union> set r"
  by (induction s) auto

lemma TrimRightSpace_length: "length (TrimRightSpace s) \<le> length s"
proof (induction s rule: TrimRightSpace.induct)
  case (1 s)
  show ?case
  proof (cases "s = [] \<or> trailing_space s = 0")
    case True
    then show ?thesis by (simp add: TrimRightSpace.simps [of s])
  next
    case False
    with 1 have "length (TrimRightSpace (take (length s - trailing_space s) s)) \<le>
        length (take (length s - trailing_space s) s)" by simp
    also have "\<dots> \<le> length s" by simp
    finally show ?thesis using False by (simp add: TrimRightSpace.simps [of s])
  qed
qed

lemma trailing_space_TrimRightSpace:
  "TrimRightSpace s = [] \<or> trailing_space (TrimRightSpace s) = 0"
  by (induction s rule: TrimRightSpace.induct) (subst (1 2) TrimRightSpace.simps, auto)

lemma TrimSpace_id: "leading_space s = 0 \<Longrightarrow> trailing_space s = 0 \<Longrightarrow> TrimSpace s = s"
  by (simp add: TrimSpace_def TrimLeftSpace.simps [of s] TrimRightSpace.simps [of s])

lemma space_rune_hd:
  "r \<in> set space_runes \<Longrightarrow> r \<noteq> [] \<and> byte (hd r) \<in> {9, 10, 11, 12, 13, 32, 194, 225, 226, 227}"
  by (auto simp: space_runes_def)

lemma space_rune_last: "r \<in> set space_runes \<Longrightarrow> r \<noteq> [] \<and> \<not> (33 \<le> byte (last r) \<and> byte (last r) < 127)"
  by (auto simp: space_runes_def)

text \<open>A string that begins and ends with a printable ASCII character is already trimmed.\<close>

definition printable :: "char \<Rightarrow> bool" where
  "printable c \<longleftrightarrow> 33 \<le> byte c \<and> byte c < 127"

lemma leading_space_printable:
  assumes "s = [] \<or> printable (hd s)"
  shows "leading_space s = 0"
proof -
  have "\<not> prefix r s" if "r \<in> set space_runes" for r
    using space_rune_hd [OF that] assms by (auto simp: prefix_def hd_append2 printable_def)
  then have "find (\<lambda>r. prefix r s) space_runes = None" by (auto simp: find_None_iff)
  then show ?thesis by (simp add: leading_space_def)
qed

lemma trailing_space_printable:
  assumes "s = [] \<or> printable (last s)"
  shows "trailing_space s = 0"
proof -
  have "\<not> suffix r s" if "r \<in> set space_runes" for r
    using space_rune_last [OF that] assms by (auto simp: suffix_def printable_def)
  then have "find (\<lambda>r. suffix r s) space_runes = None" by (auto simp: find_None_iff)
  then show ?thesis by (simp add: trailing_space_def)
qed

lemma TrimSpace_printable: "s = [] \<or> printable (hd s) \<and> printable (last s) \<Longrightarrow> TrimSpace s = s"
  using leading_space_printable trailing_space_printable TrimSpace_id by blast

lemma printable_digit [simp]: "is_digit c \<Longrightarrow> printable c"
  by (simp add: is_digit_def printable_def)

section \<open>strconv: formatting\<close>

fun FormatUint :: "nat \<Rightarrow> string" where
  "FormatUint n =
     (if n < 10 then [digit_char n] else FormatUint (n div 10) @ [digit_char (n mod 10)])"

declare FormatUint.simps [simp del]

definition FormatInt :: "int \<Rightarrow> string" where
  "FormatInt i = (if i < 0 then CHR ''-'' # FormatUint (nat (- i)) else FormatUint (nat i))"

lemma FormatUint_not_Nil [simp]: "FormatUint n \<noteq> []"
  by (subst FormatUint.simps) simp

lemma FormatUint_digits: "c \<in> set (FormatUint n) \<Longrightarrow> is_digit c"
proof (induction n rule: FormatUint.induct)
  case (1 n)
  then show ?case
    by (cases "n < 10") (auto simp: FormatUint.simps [of n])
qed

section \<open>strconv: parsing\<close>

datatype num_err = ErrSyntax | ErrRange

text \<open>
  \<^verbatim>\<open>ParseUint(s, 10, bits)\<close>: left to right, the first bad byte or the first overflow decides.
  Beside a syntax error the value is 0, beside a range error it is the largest value.
\<close>

fun parse_digits :: "nat \<Rightarrow> nat \<Rightarrow> string \<Rightarrow> nat \<times> num_err option" where
  "parse_digits maxv n [] = (n, None)"
| "parse_digits maxv n (c # cs) =
     (if \<not> is_digit c then (0, Some ErrSyntax)
      else let n1 = 10 * n + digit_val c
           in if maxv < n1 then (maxv, Some ErrRange) else parse_digits maxv n1 cs)"

definition ParseUint :: "nat \<Rightarrow> string \<Rightarrow> nat \<times> num_err option" where
  "ParseUint bits s = (if s = [] then (0, Some ErrSyntax) else parse_digits (2 ^ bits - 1) 0 s)"

text \<open>\<^verbatim>\<open>ParseInt(s, 10, 64)\<close>, which is also what \<^verbatim>\<open>Atoi\<close> computes on a 64-bit platform.\<close>

definition ParseInt64 :: "string \<Rightarrow> int \<times> num_err option" where
  "ParseInt64 s =
     (if s = [] then (0, Some ErrSyntax)
      else let neg = (hd s = CHR ''-'');
               body = (if hd s = CHR ''-'' \<or> hd s = CHR ''+'' then tl s else s)
           in case ParseUint 64 body of
                (un, err) \<Rightarrow>
                  if err = Some ErrSyntax then (0, Some ErrSyntax)
                  else if \<not> neg \<and> 9223372036854775808 \<le> un then (9223372036854775807, Some ErrRange)
                  else if neg \<and> 9223372036854775808 < un then (- 9223372036854775808, Some ErrRange)
                  else ((if neg then - int un else int un), None))"

definition Atoi :: "string \<Rightarrow> int \<times> num_err option" where
  "Atoi s = ParseInt64 s"

subsection \<open>Parsing what was formatted\<close>

fun dec_val :: "nat \<Rightarrow> string \<Rightarrow> nat" where
  "dec_val n [] = n"
| "dec_val n (c # cs) = dec_val (10 * n + digit_val c) cs"

lemma dec_val_append: "dec_val n (xs @ ys) = dec_val (dec_val n xs) ys"
  by (induction xs arbitrary: n) auto

lemma dec_val_mono: "n \<le> dec_val n s"
proof (induction s arbitrary: n)
  case (Cons c s)
  have "n \<le> 10 * n + digit_val c" by simp
  also have "\<dots> \<le> dec_val (10 * n + digit_val c) s" by (rule Cons.IH)
  finally show ?case by simp
qed simp

lemma dec_val_FormatUint [simp]: "dec_val 0 (FormatUint n) = n"
proof (induction n rule: FormatUint.induct)
  case (1 n)
  then show ?case
    by (cases "n < 10") (simp_all add: FormatUint.simps [of n] dec_val_append)
qed

lemma parse_digits_exact:
  "\<forall>c \<in> set s. is_digit c \<Longrightarrow> dec_val n s \<le> maxv \<Longrightarrow> parse_digits maxv n s = (dec_val n s, None)"
proof (induction s arbitrary: n)
  case (Cons c s)
  have "10 * n + digit_val c \<le> dec_val (10 * n + digit_val c) s" by (rule dec_val_mono)
  with Cons.prems have "\<not> maxv < 10 * n + digit_val c" by simp
  with Cons show ?case by simp
qed simp

lemma ParseUint_FormatUint [simp]:
  assumes "n < 2 ^ bits"
  shows "ParseUint bits (FormatUint n) = (n, None)"
proof -
  have "parse_digits (2 ^ bits - 1) 0 (FormatUint n) = (dec_val 0 (FormatUint n), None)"
    using assms by (intro parse_digits_exact) (auto simp: FormatUint_digits)
  then show ?thesis by (simp add: ParseUint_def)
qed

lemma FormatUint_inject [simp]: "FormatUint m = FormatUint n \<longleftrightarrow> m = n"
  by (metis dec_val_FormatUint)

lemma parse_digits_bound: "parse_digits maxv n s = (v, err) \<Longrightarrow> n \<le> maxv \<Longrightarrow> v \<le> maxv"
  by (induction s arbitrary: n) (auto simp: Let_def split: if_splits)

lemma ParseUint_bound: "fst (ParseUint bits s) < 2 ^ bits"
proof (cases "ParseUint bits s")
  case (Pair v err)
  then have "v \<le> 2 ^ bits - 1"
    by (auto simp: ParseUint_def split: if_splits dest: parse_digits_bound)
  moreover have "0 < (2 :: nat) ^ bits" by simp
  ultimately have "v < 2 ^ bits" by linarith
  with Pair show ?thesis by simp
qed

lemma hd_FormatUint_digit: "is_digit (hd (FormatUint n))"
  by (meson FormatUint_digits FormatUint_not_Nil hd_in_set)

lemma not_digit_sign [simp]: "\<not> is_digit (CHR ''-'')" "\<not> is_digit (CHR ''+'')"
  by (simp_all add: is_digit_def byte_def)

lemma hd_FormatUint_sign [simp]: "hd (FormatUint n) \<noteq> CHR ''-''" "hd (FormatUint n) \<noteq> CHR ''+''"
  using hd_FormatUint_digit [of n] by auto

lemma ParseInt64_FormatInt [simp]:
  assumes "- 9223372036854775808 \<le> i" and "i \<le> 9223372036854775807"
  shows "ParseInt64 (FormatInt i) = (i, None)"
proof (cases "i < 0")
  case True
  with assms have "nat (- i) < 2 ^ 64" and "nat (- i) \<le> 9223372036854775808" by simp_all
  with True show ?thesis by (simp add: ParseInt64_def FormatInt_def)
next
  case False
  with assms have "nat i < 2 ^ 64" and "nat i < 9223372036854775808" by simp_all
  with False show ?thesis by (simp add: ParseInt64_def FormatInt_def)
qed

lemma FormatInt_not_Nil [simp]: "FormatInt i \<noteq> []"
  by (simp add: FormatInt_def)

lemma FormatInt_inject [simp]: "FormatInt i = FormatInt j \<longleftrightarrow> i = j"
proof
  assume eq: "FormatInt i = FormatInt j"
  have hd_iff: "hd (FormatInt k) = CHR ''-'' \<longleftrightarrow> k < 0" for k
    by (simp add: FormatInt_def)
  from eq hd_iff [of i] hd_iff [of j] have "i < 0 \<longleftrightarrow> j < 0" by simp
  with eq show "i = j" by (auto simp: FormatInt_def split: if_splits)
qed simp

end
