(* ===== verification/Proto.thy ===== *)
theory Proto
  imports Prelude
begin

text \<open>
  The messages the API and the crawlers exchange, as \<^verbatim>\<open>proto/crawler.proto\<close> declares them.
  The enums are open in proto3, so an enum field is a 32-bit integer; the declared values
  have names here. Fields that are absent on the wire read as the zero value.
\<close>

record FetchRequest =
  FR_TaskId :: string
  FR_Platform :: int
  FR_Keyword :: string
  FR_MinPrice :: int
  FR_MaxPrice :: int
  FR_ExcludeKeywords :: "string list"
  FR_OnlyOnSale :: bool
  FR_Limit :: int
  FR_Sort :: int
  FR_Order :: int
  FR_CreatedAt :: int

record pb_Item =
  PI_SourceId :: string
  PI_Title :: string
  PI_Price :: int
  PI_ImageUrl :: string
  PI_ItemUrl :: string
  PI_Platform :: int
  PI_Status :: string
  PI_Currency :: string

record FetchResponse =
  FP_Items :: "pb_Item list"
  FP_TotalFound :: int
  FP_ErrorMessage :: string
  FP_TaskId :: string

abbreviation (input) PLATFORM_MERCARI :: int where "PLATFORM_MERCARI \<equiv> 1"

abbreviation (input) SORT_BY_CREATED_TIME :: int where "SORT_BY_CREATED_TIME \<equiv> 0"
abbreviation (input) SORT_BY_PRICE :: int where "SORT_BY_PRICE \<equiv> 1"
abbreviation (input) SORT_BY_SCORE :: int where "SORT_BY_SCORE \<equiv> 2"
abbreviation (input) SORT_BY_NUM_LIKES :: int where "SORT_BY_NUM_LIKES \<equiv> 3"

abbreviation (input) SORT_ORDER_DESC :: int where "SORT_ORDER_DESC \<equiv> 0"
abbreviation (input) SORT_ORDER_ASC :: int where "SORT_ORDER_ASC \<equiv> 1"

definition empty_FetchRequest :: FetchRequest where
  "empty_FetchRequest =
     \<lparr>FR_TaskId = [], FR_Platform = 0, FR_Keyword = [], FR_MinPrice = 0, FR_MaxPrice = 0,
      FR_ExcludeKeywords = [], FR_OnlyOnSale = False, FR_Limit = 0, FR_Sort = 0, FR_Order = 0,
      FR_CreatedAt = 0\<rparr>"

end
