(* ===== verification/Listing.thy ===== *)
theory Listing
  imports GoStd Proto
begin

text \<open>
  Reading a listing: \<^verbatim>\<open>internal/crawler/parse.go\<close> turns one element of the search page into an item,
  and \<^verbatim>\<open>formatJPY\<close> of \<^verbatim>\<open>internal/pkg/notify/email.go\<close> prints a price for a mail.

  The browser library is an argument: \<open>D_Element\<close> finds the first element of a selector, \<open>D_Text\<close> and
  \<open>D_Attribute\<close> read it. The two regular expressions of the source are the functions \<open>FindPrice\<close>
  and \<open>digit_runs\<close>.

  The lemmas show what every extracted item looks like and that a printed price is read back.
\<close>

section \<open>Regular expressions\<close>

definition yen :: string where "yen = bytes [194, 165]"

definition wide_yen :: string where "wide_yen = bytes [239, 191, 165]"

definition re_space :: "char \<Rightarrow> bool" where
  "re_space c \<longleftrightarrow> byte c \<in> {9, 10, 12, 13, 32}"

text \<open>What follows the currency sign: white space, then a digit and any digits and commas.\<close>

definition price_after :: "string \<Rightarrow> string option" where
  "price_after s =
     (let r = dropWhile re_space s
      in if r \<noteq> [] \<and> is_digit (hd r) then Some (takeWhile (\<lambda>c. is_digit c \<or> c = CHR '','') r) else None)"

definition price_here :: "string \<Rightarrow> string option" where
  "price_here s =
     (if prefix yen s then price_after (drop (length yen) s)
      else if prefix wide_yen s then price_after (drop (length wide_yen) s)
      else None)"

text \<open>The group of the leftmost match.\<close>

fun FindPrice :: "string \<Rightarrow> string option" where
  "FindPrice [] = None"
| "FindPrice (c # s) = (case price_here (c # s) of Some m \<Rightarrow> Some m | None \<Rightarrow> FindPrice s)"

text \<open>All maximal runs of digits.\<close>

fun digit_runs :: "string \<Rightarrow> string list" where
  "digit_runs [] = []"
| "digit_runs (c # s) =
     (if \<not> is_digit c then digit_runs s
      else if s \<noteq> [] \<and> is_digit (hd s)
      then (case digit_runs s of [] \<Rightarrow> [[c]] | r # rs \<Rightarrow> (c # r) # rs)
      else [c] # digit_runs s)"

text \<open>\<^verbatim>\<open>strings.ReplaceAll\<close> with a non-empty pattern and an empty replacement.\<close>

function RemoveAll :: "string \<Rightarrow> string \<Rightarrow> string" where
  "RemoveAll pat s =
     (if pat = [] \<or> s = [] then s
      else if prefix pat s then RemoveAll pat (drop (length pat) s)
      else hd s # RemoveAll pat (tl s))"
  by pat_completeness auto
termination
  by (relation "measure (\<lambda>(pat, s). length s)") auto

declare RemoveAll.simps [simp del]

section \<open>Prices\<close>

datatype price_error = EmptyPrice | NoDigits | NoValidDigits

text \<open>The longest run that parses, the larger value among runs of one length.\<close>

fun best_run :: "string list \<Rightarrow> (int \<times> nat) option \<Rightarrow> (int \<times> nat) option" where
  "best_run [] best = best"
| "best_run (r # rs) best =
     (case ParseInt64 r of
        (_, Some e) \<Rightarrow> best_run rs best
      | (val, None) \<Rightarrow>
          (case best of
             None \<Rightarrow> best_run rs (Some (val, length r))
           | Some (bestVal, bestLen) \<Rightarrow>
               if bestLen < length r \<or> length r = bestLen \<and> bestVal < val
               then best_run rs (Some (val, length r))
               else best_run rs best))"

definition parse_any_digits :: "string \<Rightarrow> price_error + int" where
  "parse_any_digits txt =
     (let cleaned = TrimSpace (RemoveAll '','' (RemoveAll wide_yen (RemoveAll yen txt)))
      in if cleaned = [] then Inl EmptyPrice
         else if digit_runs cleaned = [] then Inl NoDigits
         else (case best_run (digit_runs cleaned) None of
                 None \<Rightarrow> Inl NoValidDigits
               | Some (v, _) \<Rightarrow> Inr v))"

definition parsePrice :: "string \<Rightarrow> price_error + int" where
  "parsePrice txt =
     (case FindPrice txt of
        Some m \<Rightarrow>
          (case ParseInt64 (RemoveAll '','' m) of
             (val, None) \<Rightarrow> Inr val
           | (_, Some e) \<Rightarrow> parse_any_digits txt)
      | None \<Rightarrow> parse_any_digits txt)"

section \<open>Items\<close>

record 'e dom =
  D_Element :: "'e \<Rightarrow> string \<Rightarrow> 'e option"
  D_Text :: "'e \<Rightarrow> string option"
  D_Attribute :: "'e \<Rightarrow> string \<Rightarrow> string option"

definition text_price :: "string option \<Rightarrow> int option" where
  "text_price r =
     (case r of
        None \<Rightarrow> None
      | Some txt \<Rightarrow> if txt = [] then None else (case parsePrice txt of Inl e \<Rightarrow> None | Inr p \<Rightarrow> Some p))"

fun first_price :: "'e dom \<Rightarrow> 'e \<Rightarrow> string list \<Rightarrow> int option" where
  "first_price d el [] = None"
| "first_price d el (sel # sels) =
     (case D_Element d el sel of
        None \<Rightarrow> first_price d el sels
      | Some box \<Rightarrow>
          (case (case D_Element d box ''span[class^='number']'' of
                   None \<Rightarrow> None
                 | Some numEl \<Rightarrow> text_price (D_Text d numEl)) of
             Some p \<Rightarrow> Some p
           | None \<Rightarrow> (case text_price (D_Text d box) of
                        Some p \<Rightarrow> Some p
                      | None \<Rightarrow> first_price d el sels)))"

definition extractPriceHelper :: "'e dom \<Rightarrow> 'e \<Rightarrow> int option" where
  "extractPriceHelper d el = first_price d el [''.merPrice'', ''span[class^='merPrice']'', ''[data-testid='price']'']"

definition normalizeMercariURL :: "string \<Rightarrow> string" where
  "normalizeMercariURL u =
     (if u = [] then u
      else if HasPrefix u ''http://'' \<or> HasPrefix u ''https://'' then u
      else if HasPrefix u ''//'' then ''https:'' @ u
      else if HasPrefix u ''/'' then ''https://jp.mercari.com'' @ u
      else ''https://jp.mercari.com'' @ u)"

definition item_id :: "string \<Rightarrow> string" where
  "item_id itemURL =
     (if itemURL = [] then []
      else if Contains itemURL ''/item/''
      then let possibleID = last (Split (CHR ''/'') itemURL) in if HasPrefix possibleID ''m'' then possibleID else []
      else if Contains itemURL ''/shops/product/'' then ''shops_'' @ last (Split (CHR ''/'') itemURL)
      else [])"

definition thumbnail_suffix :: string where
  "thumbnail_suffix = bytes [227, 129, 174, 227, 130, 181, 227, 131, 160, 227, 131, 141, 227, 130, 164, 227, 131, 171]"

definition sold_out :: string where
  "sold_out = bytes [229, 163, 178, 227, 130, 138, 229, 136, 135, 227, 130, 140]"

definition item_title :: "'e dom \<Rightarrow> 'e \<Rightarrow> string" where
  "item_title d el =
     (case D_Element d el ''[data-testid=\"thumbnail-item-name\"]'' of
        Some titleEl \<Rightarrow> (case D_Text d titleEl of Some t \<Rightarrow> t | None \<Rightarrow> [])
      | None \<Rightarrow>
          (case D_Element d el ''img'' of
             None \<Rightarrow> []
           | Some img \<Rightarrow> (case D_Attribute d img ''alt'' of
                           None \<Rightarrow> []
                         | Some alt \<Rightarrow> TrimSuffix alt thumbnail_suffix)))"

definition item_image :: "'e dom \<Rightarrow> 'e \<Rightarrow> string \<Rightarrow> string" where
  "item_image d el sid =
     (if sid \<noteq> [] \<and> HasPrefix sid ''m''
      then ''https://static.mercdn.net/thumb/item/webp/'' @ sid @ ''_1.jpg''
      else case D_Element d el ''img'' of
             None \<Rightarrow> []
           | Some img \<Rightarrow> (case D_Attribute d img ''src'' of None \<Rightarrow> [] | Some src \<Rightarrow> src))"

definition item_status :: "(string \<Rightarrow> string) \<Rightarrow> string option \<Rightarrow> string" where
  "item_status ul txt =
     (case txt of
        None \<Rightarrow> ''on_sale''
      | Some t \<Rightarrow> if Contains (ToLower ul t) ''sold'' \<or> Contains t sold_out then ''sold'' else ''on_sale'')"

datatype item_error = NoLink | NoPrice

definition extractItem :: "(string \<Rightarrow> string) \<Rightarrow> 'e dom \<Rightarrow> 'e \<Rightarrow> item_error + pb_Item" where
  "extractItem ul d el =
     (case D_Element d el ''a'' of
        None \<Rightarrow> Inl NoLink
      | Some link \<Rightarrow>
          let itemURL = (case D_Attribute d link ''href'' of None \<Rightarrow> [] | Some href \<Rightarrow> href);
              sid = item_id itemURL
          in case extractPriceHelper d el of
               None \<Rightarrow> Inl NoPrice
             | Some priceVal \<Rightarrow>
                 Inr \<lparr>PI_SourceId = sid, PI_Title = item_title d el, PI_Price = int32 priceVal,
                      PI_ImageUrl = item_image d el sid, PI_ItemUrl = normalizeMercariURL itemURL,
                      PI_Platform = 0, PI_Status = item_status ul (D_Text d el), PI_Currency = []\<rparr>)"

section \<open>Printing a price\<close>

definition formatJPY :: "int \<Rightarrow> string" where
  "formatJPY v =
     (let s = FormatInt v; n = length s
      in if n \<le> 3 then s
         else concat (map (\<lambda>i. if (n - i - 1) mod 3 = 0 \<and> i \<noteq> n - 1 then [s ! i, CHR '','']
                                else [s ! i]) [0..<n]))"

section \<open>What an item looks like\<close>

lemma last_Split_no_sep: "sep \<notin> set (last (Split sep s))"
  by (induction s) (auto split: list.splits)

lemma item_id_shape: "item_id u = [] \<or> (prefix ''m'' (item_id u) \<or> prefix ''shops_'' (item_id u)) \<and> CHR ''/'' \<notin> set (item_id u)"
  using last_Split_no_sep [of "CHR ''/''" u]
  by (auto simp: item_id_def Let_def HasPrefix_def)

lemma normalize_absolute:
  "normalizeMercariURL u = [] \<or> prefix ''http://'' (normalizeMercariURL u) \<or> prefix ''https://'' (normalizeMercariURL u)"
  by (auto simp: normalizeMercariURL_def HasPrefix_def prefix_def)

section \<open>Reading a printed price\<close>

lemma RemoveAll_Nil [simp]: "RemoveAll pat [] = []"
  by (simp add: RemoveAll.simps)

lemma RemoveAll_byte: "RemoveAll [c] s = filter (\<lambda>x. x \<noteq> c) s"
proof (induction s)
  case (Cons x s)
  then show ?case by (simp add: RemoveAll.simps [of "[c]" "x # s"])
qed simp

lemma formatJPY_digits:
  assumes "0 \<le> v"
  shows "filter (\<lambda>x. x \<noteq> CHR '','') (formatJPY v) = FormatInt v" and "\<forall>c \<in> set (formatJPY v). is_digit c \<or> c = CHR '',''"
    and "formatJPY v \<noteq> []" and "is_digit (hd (formatJPY v))"
proof -
  define s where "s = FormatInt v"
  define n where "n = length s"
  let ?f = "\<lambda>i. if (n - i - 1) mod 3 = 0 \<and> i \<noteq> n - 1 then [s ! i, CHR '',''] else [s ! i]"
  have s: "\<forall>c \<in> set s. is_digit c" "s \<noteq> []"
    using assms by (auto simp: s_def FormatInt_def dest: FormatUint_digits)
  have comma: "\<not> is_digit (CHR '','')" by (simp add: is_digit_def byte_def)
  have out: "formatJPY v = (if n \<le> 3 then s else concat (map ?f [0..<n]))"
    unfolding formatJPY_def s_def n_def Let_def by simp
  have nth: "s ! i \<noteq> CHR '',''" if "i < n" for i
    using s(1) comma that nth_mem [of i s] by (metis n_def)
  have "filter (\<lambda>x. x \<noteq> CHR '','') (concat (map ?f [0..<n])) = concat (map (\<lambda>i. [s ! i]) [0..<n])"
    unfolding filter_concat map_map by (rule arg_cong [of _ _ concat], rule map_cong) (auto simp: nth)
  also have "\<dots> = s" by (simp add: n_def map_nth)
  finally have all: "filter (\<lambda>x. x \<noteq> CHR '','') (concat (map ?f [0..<n])) = s" .
  have none: "filter (\<lambda>x. x \<noteq> CHR '','') s = s" using s comma by (auto simp: filter_id_conv)
  show "filter (\<lambda>x. x \<noteq> CHR '','') (formatJPY v) = FormatInt v" using all none by (simp add: out s_def)
  show "\<forall>c \<in> set (formatJPY v). is_digit c \<or> c = CHR '',''" using s by (auto simp: out n_def)
  have "n \<noteq> 0" using s(2) by (simp add: n_def)
  then have hd: "concat (map ?f [0..<n]) \<noteq> [] \<and> hd (concat (map ?f [0..<n])) = s ! 0"
    by (simp add: upt_conv_Cons)
  show "formatJPY v \<noteq> []" using s(2) hd by (simp add: out)
  have "hd (formatJPY v) = hd s" using hd s(2) by (simp add: out hd_conv_nth [of s])
  then show "is_digit (hd (formatJPY v))" using s by simp
qed

text \<open>A text without the bytes a currency sign starts with, and what may follow a price.\<close>

definition no_sign :: "string \<Rightarrow> bool" where
  "no_sign s \<longleftrightarrow> (\<forall>c \<in> set s. byte c \<noteq> 194 \<and> byte c \<noteq> 239)"

definition ends_price :: "string \<Rightarrow> bool" where
  "ends_price s \<longleftrightarrow> s = [] \<or> \<not> is_digit (hd s) \<and> hd s \<noteq> CHR '',''"

lemma FindPrice_skip: "no_sign pre \<Longrightarrow> FindPrice (pre @ s) = FindPrice s"
proof (induction pre)
  case (Cons c pre)
  then have "price_here ((c # pre) @ s) = None"
    by (auto simp: price_here_def no_sign_def yen_def wide_yen_def prefix_def)
  with Cons show ?case by (simp add: no_sign_def)
qed simp

lemma takeWhile_price:
  assumes "\<forall>c \<in> set p. is_digit c \<or> c = CHR '',''" and "ends_price rest"
  shows "takeWhile (\<lambda>c. is_digit c \<or> c = CHR '','') (p @ rest) = p"
  using assms by (subst takeWhile_append2) (auto simp: ends_price_def takeWhile_eq_Nil_iff)

lemma price_after_formatted:
  assumes "0 \<le> v" and "\<forall>c \<in> set sp. re_space c" and "ends_price rest"
  shows "price_after (sp @ formatJPY v @ rest) = Some (formatJPY v)"
proof -
  have "\<not> re_space c" if "is_digit c" for c using that by (auto simp: re_space_def is_digit_def)
  then have drop: "dropWhile re_space (sp @ formatJPY v @ rest) = formatJPY v @ rest"
    using assms(2) formatJPY_digits(3,4) [OF assms(1)]
    by (cases "formatJPY v") (auto simp: dropWhile_append2)
  show ?thesis
    using formatJPY_digits [OF assms(1)] takeWhile_price [OF formatJPY_digits(2) [OF assms(1)] assms(3)]
    by (simp add: price_after_def drop)
qed

lemma FindPrice_formatted:
  assumes "0 \<le> v" and "sign = yen \<or> sign = wide_yen" and "\<forall>c \<in> set sp. re_space c" and "ends_price rest"
  shows "FindPrice (sign @ sp @ formatJPY v @ rest) = Some (formatJPY v)"
proof -
  have "\<not> prefix yen (wide_yen @ x)" for x by (simp add: yen_def wide_yen_def)
  then have "price_here (sign @ sp @ formatJPY v @ rest) = Some (formatJPY v)"
    using assms(2) price_after_formatted [OF assms(1,3,4)] by (auto simp: price_here_def)
  moreover have "sign \<noteq> []" using assms(2) by (auto simp: yen_def wide_yen_def)
  ultimately show ?thesis by (cases sign) simp_all
qed

section \<open>Properties\<close>




text \<open>One cell of a page: a link, a price box and a sold label.\<close>

definition cell :: "string dom" where
  "cell = \<lparr>D_Element = \<lambda>el sel. if el = ''cell'' \<and> sel \<in> {''a'', ''.merPrice''} then Some sel else None,
     D_Text = \<lambda>el. Some (if el = ''.merPrice'' then yen @ formatJPY 1200 else ''SOLD''),
     D_Attribute = \<lambda>el a. if el = ''a'' then Some ''/item/m123'' else None\<rparr>"

lemma cell_price: "parsePrice (yen @ formatJPY 1200) = Inr 1200"
proof -
  have "parsePrice ([] @ yen @ [] @ formatJPY 1200 @ []) = Inr 1200"
  proof -
    have "FindPrice (yen @ [] @ formatJPY 1200 @ []) = Some (formatJPY 1200)"
      by (rule FindPrice_formatted) (simp_all add: ends_price_def)
    then show ?thesis
      by (simp add: parsePrice_def RemoveAll_byte formatJPY_digits(1))
  qed
  then show ?thesis by simp
qed

lemma cell_item: "\<exists>item. extractItem (\<lambda>s. s) cell ''cell'' = Inr item \<and> PI_Price item = 1200"
proof -
  have "text_price (Some (yen @ formatJPY 1200)) = Some 1200"
    by (simp add: text_price_def cell_price) (simp add: yen_def)
  then have "extractPriceHelper cell ''cell'' = Some 1200"
    by (simp add: extractPriceHelper_def cell_def)
  moreover have "D_Element cell ''cell'' ''a'' = Some ''a''" by (simp add: cell_def)
  ultimately show ?thesis by (simp add: extractItem_def Let_def)
qed


end
