(* ===== verification/Detect.thy ===== *)
theory Detect
  imports Listing
begin

text \<open>
  Telling a blocked page from a search result: \<^verbatim>\<open>internal/crawler/detect.go\<close>, with the lists of
  hints as the source has them. Reading a page is an argument, as in \<^verbatim>\<open>Listing\<close>; an error is its
  text and whether it wraps the end of a context. Screenshots and log lines are left out.

  The lemmas show which type a page gets, that one of the tests is redundant, and how errors are
  classified.
\<close>

section \<open>Hints\<close>

definition noItemsHints :: "string list" where
  "noItemsHints =
     [bytes [229, 135, 186, 229, 147, 129, 227, 129, 149, 227, 130, 140, 227, 129, 159, 229, 149, 134, 229, 147, 129,
        227, 129, 140, 227, 129, 130, 227, 130, 138, 227, 129, 190, 227, 129, 155, 227, 130, 147],
      bytes [232, 169, 178, 229, 189, 147, 227, 129, 153, 227, 130, 139, 229, 149, 134, 229, 147, 129, 227, 129, 175,
        227, 129, 130, 227, 130, 138, 227, 129, 190, 227, 129, 155, 227, 130, 147],
      bytes [230, 164, 156, 231, 180, 162, 231, 181, 144, 230, 158, 156, 227, 129, 175, 227, 129, 130, 227, 130, 138,
        227, 129, 190, 227, 129, 155, 227, 130, 147],
      bytes [229, 149, 134, 229, 147, 129, 227, 129, 140, 232, 166, 139, 227, 129, 164, 227, 129, 139, 227, 130, 138,
        227, 129, 190, 227, 129, 155, 227, 130, 147],
      bytes [232, 166, 139, 227, 129, 164, 227, 129, 139, 227, 130, 138, 227, 129, 190, 227, 129, 155, 227, 130, 147,
        227, 129, 167, 227, 129, 151, 227, 129, 159],
      bytes [230, 164, 156, 231, 180, 162, 231, 181, 144, 230, 158, 156, 227, 129, 140, 227, 129, 130, 227, 130, 138,
        227, 129, 190, 227, 129, 155, 227, 130, 147]]"

definition blockedHints :: "string list" where
  "blockedHints =
     [''cloudflare'', ''attention required'', ''verify you are human'', ''access denied'',
      ''temporarily unavailable'', ''just a moment'', ''checking your browser'',
      ''challenge-platform'', ''cf-browser-verification'', ''recaptcha'', ''hcaptcha'', ''captcha'',
      ''403 forbidden'', ''429 too many requests'', ''blocked'', ''rate limited'',
      ''too many requests'', ''err_connection'', ''err_proxy'', ''proxy error'']"

definition blockedTitles :: "string list" where
  "blockedTitles =
     [''just a moment'', ''attention required'', ''access denied'', ''403 forbidden'',
      ''429 too many'', ''blocked'', ''cloudflare'']"

definition cloudflareIndicators :: "string list" where
  "cloudflareIndicators =
     [''just a moment'', ''cloudflare'', ''cf-browser-verification'', ''challenge-platform'',
      ''challenges.cloudflare.com'', ''id=\"challenge-form\"'', ''id=\"challenge-running\"'',
      ''id=\"challenge-stage\"'', ''turnstile'', ''cf-turnstile'', ''ray id:'', ''please wait'',
      bytes [227, 129, 151, 227, 129, 176, 227, 130, 137, 227, 129, 143, 227, 129, 138, 229, 190, 133, 227, 129, 161,
        227, 129, 143, 227, 129, 160, 227, 129, 149, 227, 129, 132],
      bytes [227, 131, 150, 227, 131, 169, 227, 130, 166, 227, 130, 182, 227, 130, 146, 231, 162, 186, 232, 170, 141,
        227, 129, 151, 227, 129, 166, 227, 129, 132, 227, 129, 190, 227, 129, 153]]"

definition captchaIndicators :: "string list" where
  "captchaIndicators =
     [''captcha'', ''recaptcha'', ''hcaptcha'', ''verify you are human'',
      bytes [231, 167, 129, 227, 129, 175, 227, 131, 173, 227, 131, 156, 227, 131, 131, 227, 131, 136, 227, 129, 167,
        227, 129, 175, 227, 129, 130, 227, 130, 138, 227, 129, 190, 227, 129, 155, 227, 130, 147],
      bytes [232, 170, 141, 232, 168, 188, 227, 129, 140, 229, 191, 133, 232, 166, 129, 227, 129, 167, 227, 129, 153],
      bytes [227, 131, 173, 227, 131, 156, 227, 131, 131, 227, 131, 136]]"

definition forbidden403Indicators :: "string list" where
  "forbidden403Indicators =
     [''403'', ''forbidden'', ''access denied'',
      bytes [227, 130, 162, 227, 130, 175, 227, 130, 187, 227, 130, 185, 227, 129, 140, 230, 139, 146, 229, 144, 166,
        227, 129, 149, 227, 130, 140, 227, 129, 190, 227, 129, 151, 227, 129, 159],
      bytes [227, 130, 162, 227, 130, 175, 227, 130, 187, 227, 130, 185, 227, 129, 167, 227, 129, 141, 227, 129, 190,
        227, 129, 155, 227, 130, 147],
      bytes [227, 129, 147, 227, 129, 174, 227, 131, 154, 227, 131, 188, 227, 130, 184, 227, 129, 171, 227, 130, 162,
        227, 130, 175, 227, 130, 187, 227, 130, 185, 227, 129, 153, 227, 130, 139, 230, 168, 169, 233, 153, 144],
      bytes [227, 129, 138, 230, 142, 162, 227, 129, 151, 227, 129, 174, 227, 131, 154, 227, 131, 188, 227, 130, 184,
        227, 129, 175],
      bytes [227, 130, 168, 227, 131, 169, 227, 131, 188, 227, 129, 140, 231, 153, 186, 231, 148, 159, 227, 129, 151,
        227, 129, 190, 227, 129, 151, 227, 129, 159],
      bytes [227, 130, 181, 227, 131, 188, 227, 131, 144, 227, 131, 188, 227, 130, 168, 227, 131, 169, 227, 131, 188],
      bytes [227, 131, 170, 227, 130, 175, 227, 130, 168, 227, 130, 185, 227, 131, 136, 227, 130, 146, 229, 135, 166,
        231, 144, 134, 227, 129, 167, 227, 129, 141, 227, 129, 190, 227, 129, 155, 227, 130, 147],
      bytes [228, 184, 141, 230, 173, 163, 227, 129, 170, 227, 130, 162, 227, 130, 175, 227, 130, 187, 227, 130, 185],
      ''blocked'', ''denied'']"

definition rateLimitIndicators :: "string list" where
  "rateLimitIndicators =
     [''429'', ''too many requests'', ''rate limit'',
      bytes [227, 131, 170, 227, 130, 175, 227, 130, 168, 227, 130, 185, 227, 131, 136, 227, 129, 140, 229, 164, 154,
        227, 129, 153, 227, 129, 142, 227, 129, 190, 227, 129, 153],
      bytes [227, 129, 151, 227, 129, 176, 227, 130, 137, 227, 129, 143, 230, 153, 130, 233, 150, 147, 227, 130, 146,
        227, 129, 138, 227, 129, 132, 227, 129, 166, 227, 129, 139, 227, 130, 137],
      bytes [227, 130, 162, 227, 130, 175, 227, 130, 187, 227, 130, 185, 227, 129, 140, 233, 155, 134, 228, 184, 173,
        227, 129, 151, 227, 129, 166, 227, 129, 132, 227, 129, 190, 227, 129, 153],
      bytes [230, 183, 183, 227, 129, 191, 229, 144, 136, 227, 129, 163, 227, 129, 166, 227, 129, 132, 227, 129, 190,
        227, 129, 153],
      bytes [230, 153, 130, 233, 150, 147, 227, 130, 146, 227, 129, 138, 227, 129, 132, 227, 129, 166, 229, 134, 141,
        229, 186, 166, 227, 130, 162, 227, 130, 175, 227, 130, 187, 227, 130, 185],
      ''temporarily unavailable'', ''service unavailable'']"

definition mercariErrorIndicators :: "string list" where
  "mercariErrorIndicators =
     [''mererrorpage'', ''error-page'', ''page-not-found'', ''something went wrong'',
      bytes [229, 149, 143, 233, 161, 140, 227, 129, 140, 231, 153, 186, 231, 148, 159, 227, 129, 151, 227, 129, 190,
        227, 129, 151, 227, 129, 159],
      bytes [227, 131, 154, 227, 131, 188, 227, 130, 184, 227, 129, 140, 232, 166, 139, 227, 129, 164, 227, 129, 139,
        227, 130, 138, 227, 129, 190, 227, 129, 155, 227, 130, 147],
      bytes [227, 131, 161, 227, 131, 179, 227, 131, 134, 227, 131, 138, 227, 131, 179, 227, 130, 185, 228, 184, 173],
      bytes [227, 130, 181, 227, 131, 188, 227, 131, 147, 227, 130, 185, 227, 130, 146, 228, 184, 128, 230, 153, 130,
        229, 129, 156, 230, 173, 162]]"

definition connectionErrorIndicators :: "string list" where
  "connectionErrorIndicators =
     [''err_connection'', ''err_proxy'', ''err_tunnel'', ''err_name_not_resolved'',
      ''err_internet_disconnected'', ''err_ssl'', ''err_cert'', ''proxy error'',
      ''connection refused'', ''connection reset'', ''connection timed out'',
      bytes [227, 131, 141, 227, 131, 131, 227, 131, 136, 227, 131, 175, 227, 131, 188, 227, 130, 175, 227, 130, 168,
        227, 131, 169, 227, 131, 188],
      bytes [230, 142, 165, 231, 182, 154, 227, 129, 167, 227, 129, 141, 227, 129, 190, 227, 129, 155, 227, 130, 147]]"

definition blockedKeywords :: "string list" where
  "blockedKeywords =
     [''blocked_page'', ''cloudflare'', ''attention required'', ''access denied'', ''403'', ''429'',
      ''forbidden'', ''too many requests'']"

definition networkKeywords :: "string list" where
  "networkKeywords =
     [''net::'', ''connection'', ''navigate'']"

definition containsAny :: "string \<Rightarrow> string list \<Rightarrow> bool" where
  "containsAny text keywords \<longleftrightarrow> (\<exists>kw \<in> set keywords. Contains text kw)"

section \<open>Pages\<close>

definition getPageBodyText :: "'e dom \<Rightarrow> 'e \<Rightarrow> string" where
  "getPageBodyText d page =
     (case D_Element d page ''body'' of
        None \<Rightarrow> []
      | Some body \<Rightarrow> (case D_Text d body of None \<Rightarrow> [] | Some text \<Rightarrow> text))"

text \<open>\<open>empties\<close> is the number of empty-state elements, or an error.\<close>

definition isNoItemsPage :: "'e dom \<Rightarrow> 'e \<Rightarrow> nat option \<Rightarrow> bool" where
  "isNoItemsPage d page empties \<longleftrightarrow>
     (case empties of Some n \<Rightarrow> 0 < n | None \<Rightarrow> False) \<or>
     (let text = getPageBodyText d page in text \<noteq> [] \<and> containsAny text noItemsHints)"

text \<open>\<open>info\<close> is the title and the address of the page, or an error.\<close>

definition isBlockedPage :: "(string \<Rightarrow> string) \<Rightarrow> 'e dom \<Rightarrow> 'e \<Rightarrow> (string \<times> string) option \<Rightarrow> bool" where
  "isBlockedPage ul d page info \<longleftrightarrow>
     (case info of
        None \<Rightarrow> False
      | Some (t, u) \<Rightarrow>
          let title = ToLower ul t; url = ToLower ul u
          in (title = ''about:blank'' \<or> title = []) \<and> (url = ''about:blank'' \<or> url = []) \<or>
             containsAny title blockedTitles) \<or>
     (let text = getPageBodyText d page
      in length text < 50 \<or> containsAny (ToLower ul text) blockedHints)"

definition detectBlockType :: "(string \<Rightarrow> string) \<Rightarrow> string \<Rightarrow> string \<Rightarrow> string" where
  "detectBlockType ul title html =
     (let lowerTitle = ToLower ul title; lowerHTML = ToLower ul html;
          hasNormalStructure = (Contains lowerHTML ''<body'' \<or> Contains lowerHTML ''meremptystate'' \<or>
            Contains lowerHTML ''item-cell'' \<or> Contains lowerHTML ''search'')
      in if \<exists>i \<in> set cloudflareIndicators. Contains lowerHTML i \<or> Contains lowerTitle i then ''cloudflare_challenge''
         else if Contains lowerHTML ''iframe'' \<and> Contains lowerHTML ''cloudflare'' then ''cloudflare_challenge''
         else if \<exists>i \<in> set captchaIndicators. Contains lowerHTML i then ''captcha''
         else if \<exists>i \<in> set forbidden403Indicators. Contains lowerHTML i \<or> Contains lowerTitle i then ''403_forbidden''
         else if \<exists>i \<in> set rateLimitIndicators. Contains lowerHTML i \<or> Contains lowerTitle i then ''429_rate_limited''
         else if \<exists>i \<in> set mercariErrorIndicators. Contains lowerHTML i \<or> Contains lowerTitle i then ''mercari_error_page''
         else if title = [] \<or> title = ''about:blank''
         then (if length html < 100 \<or> Contains html ''<html><head></head><body></body></html>'' then ''blank_page''
               else ''empty_title'')
         else if \<exists>i \<in> set connectionErrorIndicators. Contains lowerHTML i then ''connection_error''
         else if 0 < length html \<and> length html < 200 \<and> \<not> hasNormalStructure then ''suspicious_minimal_page''
         else ''unknown'')"

definition detectBlockTypeFromPage :: "'e dom \<Rightarrow> 'e \<Rightarrow> string" where
  "detectBlockTypeFromPage d p =
     (if D_Element d p ''iframe[src*=\"cloudflare\"], iframe[src*=\"challenges\"]'' \<noteq> None then ''cloudflare_challenge''
      else if D_Element d p ''#challenge-form, #challenge-running, #challenge-stage'' \<noteq> None then ''cloudflare_challenge''
      else if D_Element d p ''.cf-turnstile, [data-sitekey]'' \<noteq> None then ''cloudflare_challenge''
      else if D_Element d p ''.g-recaptcha, .h-captcha, [class*=\"recaptcha\"], [class*=\"hcaptcha\"]'' \<noteq> None then ''captcha''
      else if D_Element d p ''[class*=\"ray-id\"], .ray_id'' \<noteq> None then ''cloudflare_challenge''
      else [])"

section \<open>Errors\<close>

text \<open>An error: whether it wraps the end of a context, and its text.\<close>

record crawl_err =
  E_ctx :: bool
  E_msg :: string

definition Errorf :: "string \<Rightarrow> crawl_err" where
  "Errorf msg = \<lparr>E_ctx = False, E_msg = msg\<rparr>"

text \<open>\<^verbatim>\<open>fmt.Errorf("...: %w", err)\<close>\<close>

definition wrap_err :: "string \<Rightarrow> crawl_err \<Rightarrow> crawl_err" where
  "wrap_err pre e = e\<lparr>E_msg := pre @ '': '' @ E_msg e\<rparr>"

datatype crawlErrorType = errTypeUnknown | errTypeTimeout | errTypeBlocked | errTypeNetwork | errTypeParseError

definition classifyError :: "(string \<Rightarrow> string) \<Rightarrow> crawl_err option \<Rightarrow> crawlErrorType" where
  "classifyError ul err =
     (case err of
        None \<Rightarrow> errTypeUnknown
      | Some e \<Rightarrow>
          if E_ctx e then errTypeTimeout
          else let msg = ToLower ul (E_msg e) in
            if containsAny msg blockedKeywords then errTypeBlocked
            else if Contains msg ''timeout'' \<or> Contains msg ''deadline exceeded'' then errTypeTimeout
            else if containsAny msg networkKeywords then errTypeNetwork
            else if Contains msg ''parse'' \<or> Contains msg ''extract'' then errTypeParseError
            else errTypeUnknown)"

definition shouldActivateProxy :: "(string \<Rightarrow> string) \<Rightarrow> crawl_err option \<Rightarrow> bool" where
  "shouldActivateProxy ul err \<longleftrightarrow>
     err \<noteq> None \<and> classifyError ul err \<in> {errTypeBlocked, errTypeTimeout, errTypeNetwork}"

definition classifyCrawlerError :: "(string \<Rightarrow> string) \<Rightarrow> crawl_err option \<Rightarrow> string" where
  "classifyCrawlerError ul err =
     (case classifyError ul err of
        errTypeTimeout \<Rightarrow> ''timeout''
      | errTypeNetwork \<Rightarrow> ''network_error''
      | errTypeParseError \<Rightarrow> ''parse_error''
      | errTypeBlocked \<Rightarrow> ''blocked''
      | errTypeUnknown \<Rightarrow> ''unknown'')"

definition classifyCrawlStatus :: "(string \<Rightarrow> string) \<Rightarrow> crawl_err option \<Rightarrow> string" where
  "classifyCrawlStatus ul err =
     (if err = None then ''success''
      else if classifyError ul err = errTypeBlocked then ''403_forbidden''
      else ''error'')"

section \<open>Which type a page gets\<close>

text \<open>The rules on hints, in order: where a hint counts, the hints and the type.\<close>

datatype hint_scope = PageOrTitle | PageOnly

definition block_rules :: "(hint_scope \<times> string list \<times> string) list" where
  "block_rules =
     [(PageOrTitle, cloudflareIndicators, ''cloudflare_challenge''),
      (PageOnly, captchaIndicators, ''captcha''),
      (PageOrTitle, forbidden403Indicators, ''403_forbidden''),
      (PageOrTitle, rateLimitIndicators, ''429_rate_limited''),
      (PageOrTitle, mercariErrorIndicators, ''mercari_error_page'')]"

definition rule_fires :: "string \<Rightarrow> string \<Rightarrow> hint_scope \<times> string list \<times> string \<Rightarrow> bool" where
  "rule_fires title html r =
     (case r of (sc, hints, _) \<Rightarrow> containsAny html hints \<or> sc = PageOrTitle \<and> containsAny title hints)"

definition looks_blank :: "string \<Rightarrow> bool" where
  "looks_blank title \<longleftrightarrow> title = [] \<or> title = ''about:blank''"

definition fallback_type :: "(string \<Rightarrow> string) \<Rightarrow> string \<Rightarrow> string \<Rightarrow> string" where
  "fallback_type ul title html =
     (if looks_blank title
      then if length html < 100 \<or> Contains html ''<html><head></head><body></body></html>'' then ''blank_page'' else ''empty_title''
      else if containsAny (ToLower ul html) connectionErrorIndicators then ''connection_error''
      else if html \<noteq> [] \<and> length html < 200 \<and>
        \<not> containsAny (ToLower ul html) [''<body'', ''meremptystate'', ''item-cell'', ''search''] then ''suspicious_minimal_page''
      else ''unknown'')"

lemma contains_two: "(\<exists>i \<in> set hs. Contains a i \<or> Contains b i) \<longleftrightarrow> containsAny a hs \<or> containsAny b hs"
  by (auto simp: containsAny_def)

lemma detectBlockType_first_rule:
  "detectBlockType ul title html =
     (case find (rule_fires (ToLower ul title) (ToLower ul html)) block_rules of
        Some (_, _, ty) \<Rightarrow> ty
      | None \<Rightarrow> fallback_type ul title html)"
proof -
  have "Contains h ''cloudflare'' \<Longrightarrow> containsAny h cloudflareIndicators" for h
    by (auto simp: containsAny_def cloudflareIndicators_def)
  moreover have "(\<exists>i \<in> set hs. Contains a i) \<longleftrightarrow> containsAny a hs" for a hs
    by (simp add: containsAny_def)
  ultimately show ?thesis
    unfolding detectBlockType_def Let_def contains_two
    by (auto simp: block_rules_def rule_fires_def fallback_type_def looks_blank_def containsAny_def [of _ "[_, _, _, _]"])
qed

lemma detectBlockType_values:
  "detectBlockType ul title html \<in>
     {''cloudflare_challenge'', ''captcha'', ''403_forbidden'', ''429_rate_limited'', ''mercari_error_page'', ''blank_page'',
      ''empty_title'', ''connection_error'', ''suspicious_minimal_page'', ''unknown''}"
  by (simp add: detectBlockType_def Let_def)

lemma blocked_error:
  assumes "\<forall>c \<in> set t. byte c < 128 \<and> \<not> (65 \<le> byte c \<and> byte c \<le> 90)"
  shows "classifyError ul (Some (Errorf (''blocked_page: '' @ t))) = errTypeBlocked"
proof -
  have "ToLower ul (''blocked_page: '' @ t) = ''blocked_page: '' @ t"
    using assms by (intro ToLower_lower) (auto simp: byte_def)
  moreover have "Contains (''blocked_page: '' @ t) ''blocked_page''"
    unfolding Contains_def sublist_def by (rule exI [of _ "[]"], rule exI [of _ "'': '' @ t"]) simp
  then have "containsAny (''blocked_page: '' @ t) blockedKeywords"
    unfolding containsAny_def blockedKeywords_def by (rule bexI) simp
  ultimately show ?thesis
    by (simp only: classifyError_def Errorf_def option.case crawl_err.simps if_False Let_def if_True)
qed

text \<open>
  The type of a blocked page is that of the first rule whose hints occur in the page (or, but for
  the captcha hints, in the title), and without such a rule that of the fallbacks on empty titles,
  connection errors and very short pages; the test for a Cloudflare frame is never decisive. The
  error the crawler makes of any such type counts as blocked: it may activate the proxy and is
  reported as \<^verbatim>\<open>403_forbidden\<close>.
\<close>

theorem blocked_page_type_and_error:
  "detectBlockType ul title html =
     (case find (rule_fires (ToLower ul title) (ToLower ul html)) block_rules of
        Some (_, _, ty) \<Rightarrow> ty
      | None \<Rightarrow> fallback_type ul title html) \<and>
   shouldActivateProxy ul (Some (Errorf (''blocked_page: '' @ detectBlockType ul title html))) \<and>
   classifyCrawlStatus ul (Some (Errorf (''blocked_page: '' @ detectBlockType ul title html))) = ''403_forbidden''"
proof -
  have "\<forall>c \<in> set (detectBlockType ul title html). byte c < 128 \<and> \<not> (65 \<le> byte c \<and> byte c \<le> 90)"
    using detectBlockType_values [of ul title html] by (auto simp: byte_def)
  from blocked_error [OF this, of ul] detectBlockType_first_rule [of ul title html] show ?thesis
    by (simp only: shouldActivateProxy_def classifyCrawlStatus_def) simp
qed

end
