(* ===== verification/Redis.thy ===== *)
theory Redis
  imports GoStd "HOL-Library.AList"
begin

text \<open>
  The Redis server is a service the program only talks to, so it is an argument of every
  definition that uses it: a function from the server's state and a command to the reply
  and the next state. What the program relies on is the documented meaning of the commands
  it sends; \<open>redis_doc\<close> writes that meaning down over a keyspace, and the interface
  \<open>redis_server\<close> says that a server answers and changes its keyspace as documented. This
  theory covers the commands on lists, sets and hashes that never expire; keys with a time
  to live are in \<^verbatim>\<open>RedisTTL\<close>.

  Lua scripts run atomically on the server (\<open>redis_call\<close> sequences their commands and stops
  at an error reply). A client's call crosses a network: it is delivered, or the request is
  lost, or only the reply is lost (\<open>client_call\<close>).
\<close>

section \<open>Values, commands, replies\<close>

datatype rvalue =
    RNone
  | RStr string
  | RList "string list"
  | RSet "string set"
  | RHash "(string \<times> string) list"

type_synonym keyspace = "string \<Rightarrow> rvalue"

datatype redis_cmd =
    LPUSH string string
  | BRPOPLPUSH string string
  | BRPOP string
  | LREM string string \<comment> \<open>with count 1\<close>
  | LRANGE string \<comment> \<open>the whole list\<close>
  | LLEN string
  | SADD string string
  | SREM string string
  | SCARD string
  | HSET string string string
  | HDEL string string
  | HGET string string
  | HGETALL string
  | DEL string

datatype redis_reply =
    RInt int
  | RBulk "string option"
  | RMulti "string list"
  | RPairs "(string \<times> string) list"
  | RError string

fun is_error :: "redis_reply \<Rightarrow> bool" where
  "is_error (RError e) = True"
| "is_error r = False"

section \<open>The documented meaning of the commands\<close>

definition as_list :: "rvalue \<Rightarrow> string list option" where
  "as_list v = (case v of RNone \<Rightarrow> Some [] | RList xs \<Rightarrow> Some xs | _ \<Rightarrow> None)"

definition as_set :: "rvalue \<Rightarrow> string set option" where
  "as_set v = (case v of RNone \<Rightarrow> Some {} | RSet S \<Rightarrow> Some S | _ \<Rightarrow> None)"

definition as_hash :: "rvalue \<Rightarrow> (string \<times> string) list option" where
  "as_hash v = (case v of RNone \<Rightarrow> Some [] | RHash h \<Rightarrow> Some h | _ \<Rightarrow> None)"

text \<open>A list, set or hash that becomes empty is removed.\<close>

definition mk_list :: "string list \<Rightarrow> rvalue" where
  "mk_list xs = (if xs = [] then RNone else RList xs)"

definition mk_set :: "string set \<Rightarrow> rvalue" where
  "mk_set S = (if S = {} then RNone else RSet S)"

definition mk_hash :: "(string \<times> string) list \<Rightarrow> rvalue" where
  "mk_hash h = (if h = [] then RNone else RHash h)"

lemma as_mk [simp]:
  "as_list (mk_list xs) = Some xs"
  "as_set (mk_set S) = Some S"
  "as_hash (mk_hash h) = Some h"
  "as_list RNone = Some []" "as_set RNone = Some {}" "as_hash RNone = Some []"
  "as_list (RList xs) = Some xs" "as_set (RSet S) = Some S" "as_hash (RHash h) = Some h"
  by (simp_all add: as_list_def mk_list_def as_set_def mk_set_def as_hash_def mk_hash_def)

definition wrongtype :: redis_reply where
  "wrongtype = RError ''WRONGTYPE''"

fun redis_doc :: "redis_cmd \<Rightarrow> keyspace \<Rightarrow> redis_reply \<times> keyspace" where
  "redis_doc (LPUSH k v) ks =
     (case as_list (ks k) of
        None \<Rightarrow> (wrongtype, ks)
      | Some xs \<Rightarrow> (RInt (int (Suc (length xs))), ks(k := mk_list (v # xs))))"
| "redis_doc (BRPOPLPUSH src dst) ks =
     (case as_list (ks src) of
        None \<Rightarrow> (wrongtype, ks)
      | Some xs \<Rightarrow>
          if xs = [] then (RBulk None, ks)
          else let ks1 = ks(src := mk_list (butlast xs))
               in (case as_list (ks1 dst) of
                     None \<Rightarrow> (wrongtype, ks)
                   | Some ys \<Rightarrow> (RBulk (Some (last xs)), ks1(dst := mk_list (last xs # ys)))))"
| "redis_doc (BRPOP k) ks =
     (case as_list (ks k) of
        None \<Rightarrow> (wrongtype, ks)
      | Some xs \<Rightarrow>
          if xs = [] then (RBulk None, ks)
          else (RMulti [k, last xs], ks(k := mk_list (butlast xs))))"
| "redis_doc (LREM k v) ks =
     (case as_list (ks k) of
        None \<Rightarrow> (wrongtype, ks)
      | Some xs \<Rightarrow>
          (RInt (if v \<in> set xs then 1 else 0), ks(k := mk_list (remove1 v xs))))"
| "redis_doc (LRANGE k) ks =
     (case as_list (ks k) of None \<Rightarrow> (wrongtype, ks) | Some xs \<Rightarrow> (RMulti xs, ks))"
| "redis_doc (LLEN k) ks =
     (case as_list (ks k) of None \<Rightarrow> (wrongtype, ks) | Some xs \<Rightarrow> (RInt (int (length xs)), ks))"
| "redis_doc (SADD k v) ks =
     (case as_set (ks k) of
        None \<Rightarrow> (wrongtype, ks)
      | Some S \<Rightarrow> (RInt (if v \<in> S then 0 else 1), ks(k := mk_set (insert v S))))"
| "redis_doc (SREM k v) ks =
     (case as_set (ks k) of
        None \<Rightarrow> (wrongtype, ks)
      | Some S \<Rightarrow> (RInt (if v \<in> S then 1 else 0), ks(k := mk_set (S - {v}))))"
| "redis_doc (SCARD k) ks =
     (case as_set (ks k) of None \<Rightarrow> (wrongtype, ks) | Some S \<Rightarrow> (RInt (int (card S)), ks))"
| "redis_doc (HSET k f v) ks =
     (case as_hash (ks k) of
        None \<Rightarrow> (wrongtype, ks)
      | Some h \<Rightarrow>
          (RInt (if map_of h f = None then 1 else 0), ks(k := mk_hash (AList.update f v h))))"
| "redis_doc (HDEL k f) ks =
     (case as_hash (ks k) of
        None \<Rightarrow> (wrongtype, ks)
      | Some h \<Rightarrow>
          (RInt (if map_of h f = None then 0 else 1), ks(k := mk_hash (AList.delete f h))))"
| "redis_doc (HGET k f) ks =
     (case as_hash (ks k) of None \<Rightarrow> (wrongtype, ks) | Some h \<Rightarrow> (RBulk (map_of h f), ks))"
| "redis_doc (HGETALL k) ks =
     (case as_hash (ks k) of None \<Rightarrow> (wrongtype, ks) | Some h \<Rightarrow> (RPairs h, ks))"
| "redis_doc (DEL k) ks = (RInt (if ks k = RNone then 0 else 1), ks(k := RNone))"

section \<open>The server as an argument\<close>

type_synonym 'd server = "'d \<Rightarrow> redis_cmd \<Rightarrow> redis_reply \<times> 'd"

locale redis_server =
  fixes S :: "'d server"
    and view :: "'d \<Rightarrow> keyspace"
  assumes command_doc: "fst (S d c) = fst (redis_doc c (view d))"
    and state_doc: "view (snd (S d c)) = snd (redis_doc c (view d))"
begin

lemmas server_doc [redis_simps] = command_doc state_doc

end

text \<open>A server that keeps nothing but the keyspace, as the in-memory one of the tests does.\<close>

definition memory_server :: "keyspace server" where
  "memory_server ks c = redis_doc c ks"

interpretation memory: redis_server memory_server "\<lambda>ks. ks"
  by unfold_locales (simp_all add: memory_server_def)

definition empty_keyspace :: keyspace where
  "empty_keyspace = (\<lambda>_. RNone)"

lemma empty_keyspace_apply [simp]: "empty_keyspace k = RNone"
  by (simp add: empty_keyspace_def)

section \<open>Scripts and calls over the network\<close>

definition redis_call ::
  "'d server \<Rightarrow> redis_cmd \<Rightarrow> (redis_reply \<Rightarrow> 'd \<Rightarrow> redis_reply \<times> 'd) \<Rightarrow> 'd \<Rightarrow> redis_reply \<times> 'd"
where
  "redis_call S c cont d =
     (case S d c of (r, d') \<Rightarrow> (case r of RError e \<Rightarrow> (RError e, d') | _ \<Rightarrow> cont r d'))"

lemma redis_call_alt:
  "redis_call S c cont d =
     (if is_error (fst (S d c)) then S d c else cont (fst (S d c)) (snd (S d c)))"
  by (auto simp: redis_call_def split: prod.splits redis_reply.splits)

context redis_server
begin

lemma redis_call_doc [redis_simps]:
  "redis_call S c cont d =
     (if is_error (fst (redis_doc c (view d))) then S d c
      else cont (fst (redis_doc c (view d))) (snd (S d c)))"
  by (simp add: redis_call_alt command_doc)

end

datatype outcome = Delivered | RequestLost | ReplyLost

definition client_call :: "outcome \<Rightarrow> ('d \<Rightarrow> redis_reply \<times> 'd) \<Rightarrow> 'd \<Rightarrow> redis_reply option \<times> 'd" where
  "client_call net f d =
     (case net of
        Delivered \<Rightarrow> (Some (fst (f d)), snd (f d))
      | RequestLost \<Rightarrow> (None, d)
      | ReplyLost \<Rightarrow> (None, snd (f d)))"

lemma client_call_simps [simp]:
  "client_call Delivered f d = (Some (fst (f d)), snd (f d))"
  "client_call RequestLost f d = (None, d)"
  "client_call ReplyLost f d = (None, snd (f d))"
  by (simp_all add: client_call_def)

lemma client_call_state: "snd (client_call net f d) = d \<or> snd (client_call net f d) = snd (f d)"
  by (cases net) simp_all

end
