(* ===== verification/RedisTTL.thy ===== *)
theory RedisTTL
  imports Redis
begin

text \<open>
  Redis keys with a time to live. A stored value carries the instant at which it expires; a
  command runs at an instant of the server's clock and does not see a value whose instant has
  come. As in \<^verbatim>\<open>Redis\<close>, the server is an argument and its documented behaviour an interface.
\<close>

section \<open>Commands and their meaning\<close>

type_synonym tkeyspace = "string \<Rightarrow> rvalue \<times> gotime option"

datatype ttl_cmd =
    SET string string duration
  | SETNX string string duration
  | GET string
  | TDEL string
  | EXISTS string
  | INCR string
  | EXPIRE string duration
  | HMGET string "string list"
  | HMSET string "(string \<times> string) list"
  | HGETF string string
  | HSETF string string string

definition live :: "gotime \<Rightarrow> tkeyspace \<Rightarrow> string \<Rightarrow> rvalue" where
  "live t ks k =
     (case snd (ks k) of
        None \<Rightarrow> fst (ks k)
      | Some e \<Rightarrow> if e \<le> t then RNone else fst (ks k))"

text \<open>The expiry of a value that is kept: none for a value that is gone.\<close>

definition expiry :: "gotime \<Rightarrow> tkeyspace \<Rightarrow> string \<Rightarrow> gotime option" where
  "expiry t ks k = (if live t ks k = RNone then None else snd (ks k))"

text \<open>
  The client sends a time to live in milliseconds: anything below one is one, the rest is cut
  off; no time to live for a duration of zero.
\<close>

definition expire_at :: "gotime \<Rightarrow> duration \<Rightarrow> gotime option" where
  "expire_at t d =
     (if d \<le> 0 then None
      else if d < Millisecond then Some (t + Millisecond)
      else Some (t + d div Millisecond * Millisecond))"

fun as_string :: "rvalue \<Rightarrow> string option option" where
  "as_string RNone = Some None"
| "as_string (RStr s) = Some (Some s)"
| "as_string _ = None"

fun ttl_doc :: "gotime \<Rightarrow> ttl_cmd \<Rightarrow> tkeyspace \<Rightarrow> redis_reply \<times> tkeyspace" where
  "ttl_doc t (SET k v d) ks = (RBulk (Some ''OK''), ks(k := (RStr v, expire_at t d)))"
| "ttl_doc t (SETNX k v d) ks =
     (if live t ks k = RNone then (RInt 1, ks(k := (RStr v, expire_at t d))) else (RInt 0, ks))"
| "ttl_doc t (GET k) ks =
     (case as_string (live t ks k) of None \<Rightarrow> (wrongtype, ks) | Some v \<Rightarrow> (RBulk v, ks))"
| "ttl_doc t (TDEL k) ks = (RInt (if live t ks k = RNone then 0 else 1), ks(k := (RNone, None)))"
| "ttl_doc t (EXISTS k) ks = (RInt (if live t ks k = RNone then 0 else 1), ks)"
| "ttl_doc t (INCR k) ks =
     (case as_string (live t ks k) of
        None \<Rightarrow> (wrongtype, ks)
      | Some v \<Rightarrow>
          (case (case v of None \<Rightarrow> (0, None) | Some s \<Rightarrow> ParseInt64 s) of
             (n, None) \<Rightarrow> if n = 9223372036854775807 then (RError ''ERR'', ks)
                          else (RInt (n + 1), ks(k := (RStr (FormatInt (n + 1)), expiry t ks k)))
           | _ \<Rightarrow> (RError ''ERR'', ks)))"
| "ttl_doc t (EXPIRE k d) ks =
     (if live t ks k = RNone then (RInt 0, ks)
      else if d \<le> 0 then (RInt 1, ks(k := (RNone, None)))
      else (RInt 1, ks(k := (fst (ks k), expire_at t d))))"
| "ttl_doc t (HMGET k fs) ks =
     (case as_hash (live t ks k) of
        None \<Rightarrow> (wrongtype, ks)
      | Some h \<Rightarrow> (RPairs (concat (map (\<lambda>f. case map_of h f of None \<Rightarrow> [] | Some v \<Rightarrow> [(f, v)]) fs)), ks))"
| "ttl_doc t (HMSET k fvs) ks =
     (case as_hash (live t ks k) of
        None \<Rightarrow> (wrongtype, ks)
      | Some h \<Rightarrow> (RBulk (Some ''OK''),
                   ks(k := (mk_hash (fold (\<lambda>(f, v). AList.update f v) fvs h), expiry t ks k))))"
| "ttl_doc t (HGETF k f) ks =
     (case as_hash (live t ks k) of None \<Rightarrow> (wrongtype, ks) | Some h \<Rightarrow> (RBulk (map_of h f), ks))"
| "ttl_doc t (HSETF k f v) ks =
     (case as_hash (live t ks k) of
        None \<Rightarrow> (wrongtype, ks)
      | Some h \<Rightarrow>
          (RInt (if map_of h f = None then 1 else 0), ks(k := (mk_hash (AList.update f v h), expiry t ks k))))"

section \<open>The server as an argument\<close>

type_synonym 'd ttl_server = "gotime \<Rightarrow> 'd \<Rightarrow> ttl_cmd \<Rightarrow> redis_reply \<times> 'd"

locale ttl_redis =
  fixes T :: "'d ttl_server"
    and tview :: "'d \<Rightarrow> tkeyspace"
  assumes reply_doc: "fst (T t d c) = fst (ttl_doc t c (tview d))"
    and effect_doc: "tview (snd (T t d c)) = snd (ttl_doc t c (tview d))"
begin

lemmas ttl_server_doc [redis_simps] = reply_doc effect_doc

end

definition memory_ttl :: "tkeyspace ttl_server" where
  "memory_ttl t ks c = ttl_doc t c ks"

interpretation ttl_memory: ttl_redis memory_ttl "\<lambda>ks. ks"
  by unfold_locales (simp_all add: memory_ttl_def)

definition empty_tks :: tkeyspace where
  "empty_tks = (\<lambda>_. (RNone, None))"

lemma live_simps [simp]:
  "live t (ks(k := (v, None))) k = v"
  "live t (ks(k := (v, Some e))) k = (if e \<le> t then RNone else v)"
  "k \<noteq> k' \<Longrightarrow> live t (ks(k := x)) k' = live t ks k'"
  "live t empty_tks k = RNone"
  by (auto simp: live_def empty_tks_def split: option.split)

lemma live_expires: "live t ks k = RNone \<Longrightarrow> t \<le> t' \<Longrightarrow> live t' ks k = RNone"
  by (auto simp: live_def split: option.splits if_splits)

lemma live_same: "ks k = ks' k \<Longrightarrow> live t ks k = live t ks' k"
  by (simp only: live_def)

section \<open>Scripts\<close>

definition ttl_call ::
  "'d ttl_server \<Rightarrow> gotime \<Rightarrow> ttl_cmd \<Rightarrow> (redis_reply \<Rightarrow> 'd \<Rightarrow> redis_reply \<times> 'd) \<Rightarrow> 'd \<Rightarrow> redis_reply \<times> 'd"
where
  "ttl_call T t c cont d =
     (case T t d c of (r, d') \<Rightarrow> (case r of RError e \<Rightarrow> (RError e, d') | _ \<Rightarrow> cont r d'))"

lemma ttl_call_alt:
  "ttl_call T t c cont d =
     (if is_error (fst (T t d c)) then T t d c else cont (fst (T t d c)) (snd (T t d c)))"
  by (auto simp: ttl_call_def split: prod.splits redis_reply.splits)

context ttl_redis
begin

lemma ttl_call_doc [redis_simps]:
  "ttl_call T t c cont d =
     (if is_error (fst (ttl_doc t c (tview d))) then T t d c
      else cont (fst (ttl_doc t c (tview d))) (snd (T t d c)))"
  by (simp add: ttl_call_alt reply_doc)

end

end
