(* ===== verification/Database.thy ===== *)
theory Database
  imports RedisTTL
begin

text \<open>
  The relational schema of \<^verbatim>\<open>internal/model\<close> and the statements the program runs on it. MySQL and
  the mapping library are services: a statement is a value of \<open>sql\<close> whose conditions and
  assignments are the ones of the call, \<open>sql_doc\<close> is what a statement that succeeds means, and
  the database is an argument of every definition that uses it.

  Rows are kept in the order of their insertion, which is the order of the primary key; string
  comparison is equality of bytes. The interface \<open>services\<close> bundles the three services a request
  handler talks to (database, Redis keys with a time to live, outgoing mail): each call answers
  as documented and leaves what the other services keep alone.
\<close>

section \<open>Rows\<close>

record User =
  U_ID :: nat
  U_Email :: string
  U_Password :: string
  U_Role :: string
  U_IsVerified :: bool
  U_VerifyCode :: string
  U_VerifyCodeExpiresAt :: "gotime option"
  U_VerifyCodeSentAt :: "gotime option"
  U_CreatedAt :: gotime

record Task =
  T_ID :: nat
  T_CreatedAt :: gotime
  T_UpdatedAt :: gotime
  T_UserID :: nat
  T_Keyword :: string
  T_MinPrice :: int
  T_MaxPrice :: int
  T_Platform :: int
  T_SortBy :: int
  T_SortOrder :: int
  T_Type :: string
  T_Status :: string
  T_LastRunAt :: "gotime option"
  T_NotifyEnabled :: bool
  T_BaselineAt :: "gotime option"

definition TaskTypeMonitor :: string where "TaskTypeMonitor = ''monitor''"

definition TaskTypeOneShot :: string where "TaskTypeOneShot = ''oneshot''"

record Item =
  I_ID :: nat
  I_CreatedAt :: gotime
  I_UpdatedAt :: gotime
  I_SourceID :: string
  I_Title :: string
  I_Price :: int
  I_ImageURL :: string
  I_ItemURL :: string

record TaskItem =
  TI_TaskID :: nat
  TI_ItemID :: nat
  TI_CreatedAt :: gotime
  TI_Rank :: int

record tables =
  users :: "User list"
  tasks :: "Task list"
  items :: "Item list"
  task_items :: "TaskItem list"
  next_user :: nat
  next_task :: nat
  next_item :: nat

definition empty_tables :: tables where
  "empty_tables = \<lparr>users = [], tasks = [], items = [], task_items = [],
     next_user = 1, next_task = 1, next_item = 1\<rparr>"

section \<open>Statements\<close>

datatype sql =
    FindUsers "User \<Rightarrow> bool"
  | InsertUser User
  | UpdateUsers "User \<Rightarrow> bool" "User \<Rightarrow> User"
  | DeleteUsers "User \<Rightarrow> bool"
  | FindTasks "Task \<Rightarrow> bool"
  | InsertTask Task
  | UpdateTasks "Task \<Rightarrow> bool" "Task \<Rightarrow> Task"
  | DeleteTasks "Task \<Rightarrow> bool"
  | FindItems "Item \<Rightarrow> bool"
  | UpsertItem Item \<comment> \<open>conflict on the source id updates title, price and links\<close>
  | FindTaskItems "TaskItem \<Rightarrow> bool"
  | UpsertTaskItem TaskItem \<comment> \<open>conflict on the key updates the rank\<close>
  | UpdateTaskItems "TaskItem \<Rightarrow> bool" "TaskItem \<Rightarrow> TaskItem"
  | DeleteTaskItems "TaskItem \<Rightarrow> bool"
  | DeleteItems "Item \<Rightarrow> bool"
  | SelectIds "tables \<Rightarrow> nat list" \<comment> \<open>a query over several tables\<close>
  | SelectTimeline "tables \<Rightarrow> (Item \<times> TaskItem \<times> Task) list"
  | DeleteTaskItemsIn "tables \<Rightarrow> TaskItem \<Rightarrow> bool" \<comment> \<open>with a subquery\<close>

datatype sql_reply =
    RUsers "User list"
  | RTasks "Task list"
  | RItems "Item list"
  | RTaskItems "TaskItem list"
  | RIds "nat list"
  | RTimeline "(Item \<times> TaskItem \<times> Task) list"
  | RAffected nat
  | RId nat
  | RSqlError \<comment> \<open>a violated constraint\<close>

definition update_where :: "('a \<Rightarrow> bool) \<Rightarrow> ('a \<Rightarrow> 'a) \<Rightarrow> 'a list \<Rightarrow> 'a list" where
  "update_where P f xs = map (\<lambda>x. if P x then f x else x) xs"

text \<open>
  The id an upsert reports: that of the row it inserted or changed, and none when the row was
  already as requested.
\<close>

definition upserted :: "Item \<Rightarrow> Item \<Rightarrow> Item" where
  "upserted new old = old\<lparr>I_Title := I_Title new, I_Price := I_Price new,
     I_ImageURL := I_ImageURL new, I_ItemURL := I_ItemURL new\<rparr>"

definition same_link :: "TaskItem \<Rightarrow> TaskItem \<Rightarrow> bool" where
  "same_link a b \<longleftrightarrow> TI_TaskID a = TI_TaskID b \<and> TI_ItemID a = TI_ItemID b"

fun sql_doc :: "sql \<Rightarrow> tables \<Rightarrow> sql_reply \<times> tables" where
  "sql_doc (FindUsers P) db = (RUsers (filter P (users db)), db)"
| "sql_doc (InsertUser u) db =
     (if \<exists>x \<in> set (users db). U_Email x = U_Email u then (RSqlError, db)
      else (RId (next_user db),
            db\<lparr>users := users db @ [u\<lparr>U_ID := next_user db\<rparr>], next_user := Suc (next_user db)\<rparr>))"
| "sql_doc (UpdateUsers P f) db =
     (RAffected (length (filter P (users db))), db\<lparr>users := update_where P f (users db)\<rparr>)"
| "sql_doc (DeleteUsers P) db =
     (RAffected (length (filter P (users db))), db\<lparr>users := filter (\<lambda>u. \<not> P u) (users db)\<rparr>)"
| "sql_doc (FindTasks P) db = (RTasks (filter P (tasks db)), db)"
| "sql_doc (InsertTask t) db =
     (RId (next_task db),
      db\<lparr>tasks := tasks db @ [t\<lparr>T_ID := next_task db\<rparr>], next_task := Suc (next_task db)\<rparr>)"
| "sql_doc (UpdateTasks P f) db =
     (RAffected (length (filter P (tasks db))), db\<lparr>tasks := update_where P f (tasks db)\<rparr>)"
| "sql_doc (DeleteTasks P) db =
     (RAffected (length (filter P (tasks db))), db\<lparr>tasks := filter (\<lambda>t. \<not> P t) (tasks db)\<rparr>)"
| "sql_doc (FindItems P) db = (RItems (filter P (items db)), db)"
| "sql_doc (UpsertItem it) db =
     (case find (\<lambda>i. I_SourceID i = I_SourceID it) (items db) of
        None \<Rightarrow>
          (RId (next_item db),
           db\<lparr>items := items db @ [it\<lparr>I_ID := next_item db\<rparr>], next_item := Suc (next_item db)\<rparr>)
      | Some old \<Rightarrow>
          (RId (if upserted it old = old then 0 else I_ID old),
           db\<lparr>items := update_where (\<lambda>i. I_SourceID i = I_SourceID it) (upserted it) (items db)\<rparr>))"
| "sql_doc (FindTaskItems P) db = (RTaskItems (filter P (task_items db)), db)"
| "sql_doc (UpsertTaskItem ti) db =
     (if \<exists>x \<in> set (task_items db). same_link ti x
      then (RAffected 1,
            db\<lparr>task_items := update_where (same_link ti) (\<lambda>x. x\<lparr>TI_Rank := TI_Rank ti\<rparr>) (task_items db)\<rparr>)
      else (RAffected 1, db\<lparr>task_items := task_items db @ [ti]\<rparr>))"
| "sql_doc (UpdateTaskItems P f) db =
     (RAffected (length (filter P (task_items db))), db\<lparr>task_items := update_where P f (task_items db)\<rparr>)"
| "sql_doc (DeleteTaskItems P) db =
     (RAffected (length (filter P (task_items db))), db\<lparr>task_items := filter (\<lambda>x. \<not> P x) (task_items db)\<rparr>)"
| "sql_doc (DeleteItems P) db =
     (RAffected (length (filter P (items db))), db\<lparr>items := filter (\<lambda>i. \<not> P i) (items db)\<rparr>)"
| "sql_doc (SelectIds e) db = (RIds (e db), db)"
| "sql_doc (SelectTimeline e) db = (RTimeline (e db), db)"
| "sql_doc (DeleteTaskItemsIn P) db =
     (RAffected (length (filter (P db) (task_items db))),
      db\<lparr>task_items := filter (\<lambda>x. \<not> P db x) (task_items db)\<rparr>)"

section \<open>The order of a timeline\<close>

text \<open>
  \<^verbatim>\<open>ORDER BY created_at DESC, rank ASC\<close> as a linear order on the two columns: the most recent
  link first, and the better rank first among links of the same time.
\<close>

datatype recency = Recency gotime int

instantiation recency :: linorder
begin

fun less_eq_recency :: "recency \<Rightarrow> recency \<Rightarrow> bool" where
  "less_eq_recency (Recency t r) (Recency t' r') \<longleftrightarrow> t' < t \<or> t = t' \<and> r \<le> r'"

fun less_recency :: "recency \<Rightarrow> recency \<Rightarrow> bool" where
  "less_recency (Recency t r) (Recency t' r') \<longleftrightarrow> t' < t \<or> t = t' \<and> r < r'"

instance
proof
  fix x y z :: recency
  show "(x < y) = (x \<le> y \<and> \<not> y \<le> x)" by (cases x; cases y) auto
  show "x \<le> x" by (cases x) auto
  show "x \<le> y \<Longrightarrow> y \<le> z \<Longrightarrow> x \<le> z" by (cases x; cases y; cases z) auto
  show "x \<le> y \<Longrightarrow> y \<le> x \<Longrightarrow> x = y" by (cases x; cases y) auto
  show "x \<le> y \<or> y \<le> x" by (cases x; cases y) auto
qed

end

definition link_recency :: "TaskItem \<Rightarrow> recency" where
  "link_recency x = Recency (TI_CreatedAt x) (TI_Rank x)"

section \<open>The services as arguments\<close>

text \<open>
  A call to a service changes the world and answers; \<open>None\<close> is an error (the statement failed,
  the connection broke, the context ended).
\<close>

type_synonym 'w database = "'w \<Rightarrow> sql \<Rightarrow> sql_reply option \<times> 'w"
type_synonym 'w redis_conn = "gotime \<Rightarrow> 'w \<Rightarrow> ttl_cmd \<Rightarrow> redis_reply option \<times> 'w"

record mail =
  M_To :: string
  M_Reason :: string
  M_Keyword :: string
  M_SourceID :: string
  M_Price :: int
  M_OldPrice :: int

type_synonym 'w mailer = "'w \<Rightarrow> mail \<Rightarrow> bool \<times> 'w"

locale services =
  fixes D :: "'w database"
    and R :: "'w redis_conn"
    and N :: "'w mailer"
    and dbv :: "'w \<Rightarrow> tables"
    and rv :: "'w \<Rightarrow> tkeyspace"
    and outbox :: "'w \<Rightarrow> mail list"
  assumes db_reply: "fst (D w q) = Some (fst (sql_doc q (dbv w)))"
    and db_effect: "dbv (snd (D w q)) = snd (sql_doc q (dbv w))"
    and db_frame: "rv (snd (D w q)) = rv w" "outbox (snd (D w q)) = outbox w"
    and redis_reply: "fst (R t w c) = Some (fst (ttl_doc t c (rv w)))"
    and redis_effect: "rv (snd (R t w c)) = snd (ttl_doc t c (rv w))"
    and redis_frame: "dbv (snd (R t w c)) = dbv w" "outbox (snd (R t w c)) = outbox w"
    and mail_effect: "outbox (snd (N w m)) = outbox w @ [m]"
    and mail_frame: "dbv (snd (N w m)) = dbv w" "rv (snd (N w m)) = rv w"
begin

lemmas service_simps [sql_simps] = db_reply db_effect db_frame redis_reply redis_effect redis_frame
  mail_effect mail_frame

end

text \<open>A world that holds nothing but the three services' data.\<close>

record world =
  w_db :: tables
  w_redis :: tkeyspace
  w_mail :: "mail list"

definition world_db :: "world database" where
  "world_db w q = (Some (fst (sql_doc q (w_db w))), w\<lparr>w_db := snd (sql_doc q (w_db w))\<rparr>)"

definition world_redis :: "world redis_conn" where
  "world_redis t w c = (Some (fst (ttl_doc t c (w_redis w))), w\<lparr>w_redis := snd (ttl_doc t c (w_redis w))\<rparr>)"

definition world_mail :: "world mailer" where
  "world_mail w m = (True, w\<lparr>w_mail := w_mail w @ [m]\<rparr>)"

interpretation plain: services world_db world_redis world_mail w_db w_redis w_mail
  by unfold_locales (simp_all add: world_db_def world_redis_def world_mail_def)

section \<open>Reading replies\<close>

text \<open>\<^verbatim>\<open>First\<close> is the first row in the order of the key, or the not-found error.\<close>

definition first_user :: "sql_reply option \<Rightarrow> User option" where
  "first_user r = (case r of Some (RUsers (u # us)) \<Rightarrow> Some u | _ \<Rightarrow> None)"

definition first_task :: "sql_reply option \<Rightarrow> Task option" where
  "first_task r = (case r of Some (RTasks (t # ts)) \<Rightarrow> Some t | _ \<Rightarrow> None)"

definition first_item :: "sql_reply option \<Rightarrow> Item option" where
  "first_item r = (case r of Some (RItems (i # rest)) \<Rightarrow> Some i | _ \<Rightarrow> None)"

definition first_link :: "sql_reply option \<Rightarrow> TaskItem option" where
  "first_link r = (case r of Some (RTaskItems (x # xs)) \<Rightarrow> Some x | _ \<Rightarrow> None)"

lemma first_simps [simp]:
  "first_user None = None" "first_user (Some (RUsers us)) = (if us = [] then None else Some (hd us))"
  "first_task None = None" "first_task (Some (RTasks ts)) = (if ts = [] then None else Some (hd ts))"
  "first_item None = None" "first_item (Some (RItems xs)) = (if xs = [] then None else Some (hd xs))"
  "first_link None = None" "first_link (Some (RTaskItems ls)) = (if ls = [] then None else Some (hd ls))"
  by (auto simp: first_user_def first_task_def first_item_def first_link_def split: list.split)

lemma case_nil_reply:
  "(case x of (Some (RBulk None), w) \<Rightarrow> A w | (_, w) \<Rightarrow> B w) =
     (if fst x = Some (RBulk None) then A (snd x) else B (snd x))"
  by (cases x) (auto split: option.split redis_reply.split)

section \<open>The keys of the tables\<close>

definition tables_inv :: "tables \<Rightarrow> bool" where
  "tables_inv db \<longleftrightarrow>
     distinct (map T_ID (tasks db)) \<and> (\<forall>t \<in> set (tasks db). 0 < T_ID t \<and> T_ID t < next_task db) \<and>
     distinct (map I_ID (items db)) \<and> (\<forall>i \<in> set (items db). 0 < I_ID i \<and> I_ID i < next_item db) \<and>
     distinct (map I_SourceID (items db)) \<and>
     distinct (map (\<lambda>x. (TI_TaskID x, TI_ItemID x)) (task_items db)) \<and>
     0 < next_task db \<and> 0 < next_item db"

lemma tables_inv_empty: "tables_inv empty_tables"
  by (simp add: tables_inv_def empty_tables_def)

lemma map_update_where:
  "(\<And>x. g (f x) = g x) \<Longrightarrow> map g (update_where P f xs) = map g xs"
  by (simp add: update_where_def)

lemma set_update_where: "set (update_where P f xs) = (\<lambda>x. if P x then f x else x) ` set xs"
  by (simp add: update_where_def)

end
