(* ===== verification/Throttle.thy ===== *)
theory Throttle
  imports Database
begin

text \<open>
  Reacting to blocks: \<^verbatim>\<open>internal/crawler/adaptive.go\<close> keeps the cookies of successful requests for
  the next ones, and counts blocks in a row, locally and in Redis, to send the crawler to sleep.

  The Redis connection is an argument (\<open>None\<close> when there is no client), a reply \<open>None\<close> is a failed
  call. Random choices are arguments: \<open>skip\<close> for the refresh of the cookies and \<open>rnd\<close> for the
  length of a sleep. The mutex makes every operation one step.
\<close>

section \<open>Cookies\<close>

definition cookieCacheKey :: string where "cookieCacheKey = ''goodshunter:cookies:mercari''"

abbreviation (input) cookieCacheTTL :: duration where "cookieCacheTTL \<equiv> 30 * Minute"
abbreviation (input) cookieMaxAge :: duration where "cookieMaxAge \<equiv> 2 * Hour"

text \<open>The cookies of the browser; the expiry is in whole seconds.\<close>

record cookie =
  K_Name :: string
  K_Value :: string
  K_Domain :: string
  K_Path :: string
  K_Expires :: int
  K_Secure :: bool
  K_HTTPOnly :: bool
  K_SameSite :: string

record CookieManager =
  cm_cached :: "cookie list"
  cm_cacheTime :: gotime
  cm_cacheTTL :: duration
  cm_createdAt :: gotime

definition NewCookieManager :: CookieManager where
  "NewCookieManager =
     \<lparr>cm_cached = [], cm_cacheTime = zero_time, cm_cacheTTL = 5 * Minute, cm_createdAt = zero_time\<rparr>"

definition valid_cookies :: "gotime \<Rightarrow> cookie list \<Rightarrow> cookie list" where
  "valid_cookies now cookies =
     filter (\<lambda>c. (K_Domain c = ''.mercari.com'' \<or> K_Domain c = ''jp.mercari.com'') \<and>
                 \<not> (0 < K_Expires c \<and> K_Expires c * Second < now)) cookies"

datatype cookie_error = GetCookies | MarshalCookies | SaveRedis | GetRedis | UnmarshalCookies | SetCookies

definition SaveCookies ::
  "(cookie list \<Rightarrow> string option) \<Rightarrow> 'w redis_conn option \<Rightarrow> gotime \<Rightarrow> cookie list option \<Rightarrow> CookieManager \<Rightarrow> 'w \<Rightarrow>
   cookie_error option \<times> CookieManager \<times> 'w"
where
  "SaveCookies marshal rdb now page cm w =
     (case rdb of
        None \<Rightarrow> (None, cm, w)
      | Some R \<Rightarrow>
          (case page of
             None \<Rightarrow> (Some GetCookies, cm, w)
           | Some cookies \<Rightarrow>
               if cookies = [] then (None, cm, w)
               else let valid = valid_cookies now cookies in
                 if valid = [] then (None, cm, w)
                 else (case marshal valid of
                         None \<Rightarrow> (Some MarshalCookies, cm, w)
                       | Some data \<Rightarrow>
                           (case R now w (SET cookieCacheKey data cookieCacheTTL) of
                              (Some (RBulk v), w1) \<Rightarrow>
                                (None,
                                 cm\<lparr>cm_cached := valid, cm_cacheTime := now,
                                    cm_createdAt := (if IsZero (cm_createdAt cm) then now else cm_createdAt cm)\<rparr>, w1)
                            | (_, w1) \<Rightarrow> (Some SaveRedis, cm, w1)))))"

text \<open>The cookies the browser is given, and whether it took them (\<open>apply_ok\<close>).\<close>

definition applyCookies :: "bool \<Rightarrow> cookie list \<Rightarrow> cookie_error option \<times> cookie list" where
  "applyCookies apply_ok cookies =
     (if cookies = [] then (None, [])
      else if \<not> apply_ok then (Some SetCookies, [])
      else (None, cookies))"

definition ClearCookies :: "'w redis_conn option \<Rightarrow> gotime \<Rightarrow> CookieManager \<Rightarrow> 'w \<Rightarrow> CookieManager \<times> 'w" where
  "ClearCookies rdb now cm w =
     (cm\<lparr>cm_cached := [], cm_cacheTime := zero_time, cm_createdAt := zero_time\<rparr>,
      case rdb of None \<Rightarrow> w | Some R \<Rightarrow> snd (R now w (TDEL cookieCacheKey)))"

definition LoadCookies ::
  "(string \<Rightarrow> cookie list option) \<Rightarrow> 'w redis_conn option \<Rightarrow> gotime \<Rightarrow> bool \<Rightarrow> bool \<Rightarrow> CookieManager \<Rightarrow> 'w \<Rightarrow>
   (cookie_error option \<times> cookie list) \<times> CookieManager \<times> 'w"
where
  "LoadCookies unmarshal rdb now skip apply_ok cm w =
     (case rdb of
        None \<Rightarrow> ((None, []), cm, w)
      | Some R \<Rightarrow>
          if skip then ((None, []), cm, w)
          else if \<not> IsZero (cm_createdAt cm) \<and> cookieMaxAge < now - cm_createdAt cm
          then (case ClearCookies rdb now cm w of (cm1, w1) \<Rightarrow> ((None, []), cm1, w1))
          else if cm_cached cm \<noteq> [] \<and> now - cm_cacheTime cm < cm_cacheTTL cm
          then (applyCookies apply_ok (cm_cached cm), cm, w)
          else (case R now w (GET cookieCacheKey) of
                  (Some (RBulk None), w1) \<Rightarrow> ((None, []), cm, w1)
                | (Some (RBulk (Some data)), w1) \<Rightarrow>
                    (case unmarshal data of
                       None \<Rightarrow> ((Some UnmarshalCookies, []), cm, w1)
                     | Some cookies \<Rightarrow>
                         (applyCookies apply_ok cookies,
                          cm\<lparr>cm_cached := cookies, cm_cacheTime := now,
                             cm_createdAt := (if IsZero (cm_createdAt cm) then now else cm_createdAt cm)\<rparr>, w1))
                | (_, w1) \<Rightarrow> ((Some GetRedis, []), cm, w1)))"

section \<open>The throttler\<close>

definition consecutiveBlockKey :: string where "consecutiveBlockKey = ''goodshunter:crawler:consecutive_blocks''"

abbreviation (input) consecutiveBlockTTL :: duration where "consecutiveBlockTTL \<equiv> 10 * Minute"
abbreviation (input) blockThresholdForSleep :: int where "blockThresholdForSleep \<equiv> 3"
abbreviation (input) minSleepDuration :: duration where "minSleepDuration \<equiv> 30 * Second"
abbreviation (input) maxSleepDuration :: duration where "maxSleepDuration \<equiv> 60 * Second"

record AdaptiveThrottler =
  at_blocks :: int
  at_inCooldown :: bool

definition NewAdaptiveThrottler :: AdaptiveThrottler where
  "NewAdaptiveThrottler = \<lparr>at_blocks = 0, at_inCooldown = False\<rparr>"

text \<open>The pipeline: both commands are sent, and an error of either is the error of the pipeline.\<close>

fun failed :: "redis_reply option \<Rightarrow> bool" where
  "failed None = True"
| "failed (Some (RError e)) = True"
| "failed _ = False"

definition shared_count :: "'w redis_conn option \<Rightarrow> gotime \<Rightarrow> int \<Rightarrow> 'w \<Rightarrow> int \<times> 'w" where
  "shared_count rdb now cnt w =
     (case rdb of
        None \<Rightarrow> (cnt, w)
      | Some R \<Rightarrow>
          (case R now w (INCR consecutiveBlockKey) of
             (r1, w1) \<Rightarrow>
               (case R now w1 (EXPIRE consecutiveBlockKey consecutiveBlockTTL) of
                  (r2, w2) \<Rightarrow>
                    (if failed r1 \<or> failed r2 then cnt
                     else case r1 of
                            Some (RInt redisCount) \<Rightarrow> if cnt < redisCount then int32 redisCount else cnt
                          | _ \<Rightarrow> cnt,
                     w2))))"

text \<open>\<open>rnd\<close> is the random part of a sleep; the result is the sleep, if there is to be one.\<close>

definition RecordBlock ::
  "'w redis_conn option \<Rightarrow> gotime \<Rightarrow> duration \<Rightarrow> AdaptiveThrottler \<Rightarrow> 'w \<Rightarrow> duration option \<times> AdaptiveThrottler \<times> 'w"
where
  "RecordBlock rdb now rnd th w =
     (let cnt = int32 (at_blocks th + 1); at1 = th\<lparr>at_blocks := cnt\<rparr> in
      case shared_count rdb now cnt w of
        (c, w1) \<Rightarrow>
          if blockThresholdForSleep \<le> c \<and> \<not> at_inCooldown at1
          then (Some (minSleepDuration + rnd), at1\<lparr>at_inCooldown := True\<rparr>, w1)
          else (None, at1, w1))"

definition RecordSuccess :: "'w redis_conn option \<Rightarrow> gotime \<Rightarrow> AdaptiveThrottler \<Rightarrow> 'w \<Rightarrow> AdaptiveThrottler \<times> 'w" where
  "RecordSuccess rdb now th w =
     (th\<lparr>at_blocks := 0, at_inCooldown := False\<rparr>,
      case rdb of
        None \<Rightarrow> w
      | Some R \<Rightarrow> if 0 < at_blocks th then snd (R now w (TDEL consecutiveBlockKey)) else w)"

definition ExitCooldown :: "AdaptiveThrottler \<Rightarrow> AdaptiveThrottler" where
  "ExitCooldown th = th\<lparr>at_inCooldown := False\<rparr>"

definition GetConsecutiveBlocks :: "AdaptiveThrottler \<Rightarrow> int" where
  "GetConsecutiveBlocks th = at_blocks th"

definition ShouldReduceConcurrency :: "AdaptiveThrottler \<Rightarrow> bool" where
  "ShouldReduceConcurrency th \<longleftrightarrow> blockThresholdForSleep \<le> at_blocks th"

section \<open>Blocks in a row\<close>

text \<open>
  Block after block with nothing but sleeps in between, as \<^verbatim>\<open>handleBlockEvent\<close> does them: the sleep,
  then the end of the cooldown.
\<close>

fun blocks :: "'w redis_conn option \<Rightarrow> (gotime \<times> duration) list \<Rightarrow> AdaptiveThrottler \<Rightarrow> 'w \<Rightarrow> duration option list" where
  "blocks rdb [] th w = []"
| "blocks rdb ((now, rnd) # es) th w =
     (case RecordBlock rdb now rnd th w of
        (None, at1, w1) \<Rightarrow> None # blocks rdb es at1 w1
      | (Some d, at1, w1) \<Rightarrow> Some d # blocks rdb es (ExitCooldown at1) w1)"

lemma int32_small: "0 \<le> n \<Longrightarrow> n < 2147483647 \<Longrightarrow> int32 (n + 1) = n + 1"
  by simp

lemma blocks_local:
  assumes "\<not> at_inCooldown th" and "0 \<le> at_blocks th" and "at_blocks th + int (length es) < 2147483647"
    and "\<forall>(t, r) \<in> set es. 0 \<le> r \<and> r < maxSleepDuration - minSleepDuration" and "i < length es"
  shows "case blocks None es th w ! i of
           None \<Rightarrow> at_blocks th + int i + 1 < blockThresholdForSleep
         | Some d \<Rightarrow> blockThresholdForSleep \<le> at_blocks th + int i + 1 \<and> minSleepDuration \<le> d \<and> d < maxSleepDuration"
  using assms
proof (induction es arbitrary: th w i)
  case (Cons e es)
  obtain now rnd where e: "e = (now, rnd)" by fastforce
  have cnt: "int32 (at_blocks th + 1) = at_blocks th + 1" using Cons.prems by (intro int32_small) auto
  have rnd: "0 \<le> rnd" "rnd < maxSleepDuration - minSleepDuration" using Cons.prems(4) by (simp_all add: e)
  show ?case
  proof (cases i)
    case 0
    then show ?thesis using Cons.prems(1) cnt rnd
      by (simp add: e RecordBlock_def shared_count_def Let_def)
  next
    case (Suc j)
    let ?th = "th\<lparr>at_blocks := at_blocks th + 1\<rparr>"
    have same: "ExitCooldown (?th\<lparr>at_inCooldown := True\<rparr>) = ?th"
      using Cons.prems(1) by (simp add: ExitCooldown_def)
    have later: "blocks None (e # es) th w ! i = blocks None es ?th w ! j"
      using Cons.prems(1) cnt same Suc
      by (simp add: e RecordBlock_def shared_count_def Let_def)
    have "case blocks None es ?th w ! j of
           None \<Rightarrow> at_blocks ?th + int j + 1 < blockThresholdForSleep
         | Some d \<Rightarrow> blockThresholdForSleep \<le> at_blocks ?th + int j + 1 \<and> minSleepDuration \<le> d \<and> d < maxSleepDuration"
      using Cons.prems Suc by (intro Cons.IH) auto
    then show ?thesis unfolding later by (simp add: Suc add.assoc split: option.splits)
  qed
qed simp

text \<open>
  The crawler sleeps after blocks in a row. Without a shared counter, from a throttler that
  starts with no blocks, the first two of any number of blocks in a row lead to no sleep and each
  further one to a sleep of at least 30 and less than 60 seconds.
\<close>

theorem sleeps_from_the_third_block:
  assumes "int (length es) < 2147483647" and "\<forall>(t, r) \<in> set es. 0 \<le> r \<and> r < 30 * Second" and "i < length es"
  shows "case blocks None es NewAdaptiveThrottler w ! i of
           None \<Rightarrow> i < 2
         | Some d \<Rightarrow> 2 \<le> i \<and> 30 * Second \<le> d \<and> d < 60 * Second"
proof -
  have "case blocks None es NewAdaptiveThrottler w ! i of
           None \<Rightarrow> at_blocks NewAdaptiveThrottler + int i + 1 < blockThresholdForSleep
         | Some d \<Rightarrow> blockThresholdForSleep \<le> at_blocks NewAdaptiveThrottler + int i + 1 \<and>
             minSleepDuration \<le> d \<and> d < maxSleepDuration"
    using assms by (intro blocks_local) (auto simp: NewAdaptiveThrottler_def)
  then show ?thesis by (auto simp: NewAdaptiveThrottler_def split: option.splits)
qed

theorem sleeps_from_the_third_block_witness:
  "case blocks None [(0, 5), (1, 6), (2, 7)] NewAdaptiveThrottler () ! 2 of
     None \<Rightarrow> (2 :: nat) < 2
   | Some d \<Rightarrow> (2 :: nat) \<le> 2 \<and> 30 * Second \<le> d \<and> d < 60 * Second"
  by (rule sleeps_from_the_third_block) simp_all

end
