(* ===== verification/Browser.thy ===== *)
theory Browser
  imports Detect Throttle
begin

text \<open>
  The crawler service as a record (\<^verbatim>\<open>internal/crawler/service.go\<close>) and the life of its browser
  (\<^verbatim>\<open>browser.go\<close>): starting one with or without a proxy, restarting it, and exchanging it for
  another after the pages that use it have been drained.

  Chrome and the launcher are arguments: \<open>browser_start\<close> says how one start goes, and \<open>parse\<close>
  stands for \<^verbatim>\<open>url.Parse\<close>. The first part treats every function as one action; the second part
  cuts the ones that run concurrently into their accesses to shared state and interleaves them.
  Critical sections of \<^verbatim>\<open>drainMu\<close> and \<^verbatim>\<open>mu\<close> are single steps, except that the rotation keeps
  \<^verbatim>\<open>mu\<close> for its whole length.

  The lemmas show that the mode the service reports is the mode of its browser, that the wait for
  the pages is always answered, and that the drain can miss a page that has read the browser but not
  yet counted itself.
\<close>

section \<open>The service\<close>

abbreviation (input) proxyCacheTTL :: duration where "proxyCacheTTL \<equiv> 5 * Second"

text \<open>A browser: its identity, the proxy server it was started with, and the credentials for it.\<close>

record browser =
  br_id :: nat
  br_proxy :: "string option"
  br_auth :: "(string \<times> string) option"

text \<open>\<open>sv_drainComplete\<close> is \<open>None\<close> for a nil channel and \<open>Some c\<close> for a channel that is closed if \<open>c\<close>.\<close>

record Service =
  sv_browser :: "browser option"
  sv_currentIsProxy :: bool
  sv_proxyCache :: bool
  sv_proxyCacheUntil :: gotime
  sv_forceProxyOnce :: bool
  sv_taskCounter :: nat
  sv_restartCh :: bool \<comment> \<open>a restart signal is pending\<close>
  sv_TotalProcessed :: int
  sv_TotalSucceeded :: int
  sv_TotalFailed :: int
  sv_TotalPanics :: int
  sv_draining :: bool
  sv_activePages :: int
  sv_drainComplete :: "bool option"
  sv_cookieManager :: CookieManager
  sv_adaptiveThrottler :: AdaptiveThrottler

section \<open>Starting a browser\<close>

record parsed_url =
  pu_Scheme :: string
  pu_Host :: string
  pu_User :: "(string \<times> string option) option"

type_synonym url_parse = "string \<Rightarrow> crawl_err + parsed_url"

record browser_start =
  bs_download :: "crawl_err option"
  bs_launch :: "crawl_err option"
  bs_connect :: "crawl_err option"
  bs_id :: nat

text \<open>The proxy settings of a start: none in direct mode; with the proxy, its server and user.\<close>

definition proxy_settings ::
  "url_parse \<Rightarrow> string \<Rightarrow> bool \<Rightarrow> crawl_err + (string option \<times> (string \<times> string) option)"
where
  "proxy_settings parse proxyURL useProxy =
     (if \<not> useProxy then Inr (None, None)
      else if proxyURL = [] then Inl (Errorf ''proxy enabled but no proxy url configured'')
      else case parse proxyURL of
             Inl e \<Rightarrow> Inl (wrap_err ''parse proxy url'' e)
           | Inr u \<Rightarrow>
               if pu_Scheme u = [] \<or> pu_Host u = [] then Inl (Errorf (''invalid proxy url: '' @ proxyURL))
               else Inr (Some (pu_Scheme u @ ''://'' @ pu_Host u),
                         case pu_User u of
                           None \<Rightarrow> None
                         | Some (name, pass) \<Rightarrow>
                             if name = [] then None
                             else Some (name, case pass of None \<Rightarrow> [] | Some p \<Rightarrow> p)))"

definition startBrowser ::
  "url_parse \<Rightarrow> string \<Rightarrow> string \<Rightarrow> browser_start \<Rightarrow> bool \<Rightarrow> crawl_err + browser"
where
  "startBrowser parse binPath proxyURL b useProxy =
     (if binPath = [] \<and> bs_download b \<noteq> None then Inl (wrap_err ''download browser'' (the (bs_download b)))
      else case proxy_settings parse proxyURL useProxy of
             Inl e \<Rightarrow> Inl e
           | Inr (server, auth) \<Rightarrow>
               (case bs_launch b of
                  Some e \<Rightarrow> Inl (wrap_err ''launch browser'' e)
                | None \<Rightarrow>
                    (case bs_connect b of
                       Some e \<Rightarrow> Inl (wrap_err ''connect browser'' e)
                     | None \<Rightarrow> Inr \<lparr>br_id = bs_id b, br_proxy = server, br_auth = auth\<rparr>)))"

lemma startBrowser_mode:
  "startBrowser parse binPath proxyURL b useProxy = Inr br \<Longrightarrow> (br_proxy br \<noteq> None) = useProxy"
  by (auto simp: startBrowser_def proxy_settings_def split: if_splits sum.splits option.splits prod.splits)

section \<open>Health and restart\<close>

text \<open>\<open>page\<close> and \<open>eval\<close> say whether the test page opens and answers the script.\<close>

definition checkBrowserHealth :: "bool \<Rightarrow> bool \<Rightarrow> Service \<Rightarrow> bool" where
  "checkBrowserHealth page eval s = (if sv_browser s = None then False else page \<and> eval)"

text \<open>
  From here on \<open>start\<close> is \<^verbatim>\<open>startBrowser\<close> with the configuration and the outcome of this start.
\<close>

definition restartBrowserInstance :: "(bool \<Rightarrow> crawl_err + browser) \<Rightarrow> Service \<Rightarrow> crawl_err option \<times> Service" where
  "restartBrowserInstance start s =
     (case start (sv_currentIsProxy s) of
        Inl e \<Rightarrow> (Some (wrap_err ''start new browser'' e), s\<lparr>sv_browser := None\<rparr>)
      | Inr b \<Rightarrow> (None, s\<lparr>sv_browser := Some b\<rparr>))"

text \<open>One tick of the health loop.\<close>

definition browser_health_tick :: "bool \<Rightarrow> bool \<Rightarrow> (bool \<Rightarrow> crawl_err + browser) \<Rightarrow> Service \<Rightarrow> Service" where
  "browser_health_tick page eval start s =
     (if checkBrowserHealth page eval s then s else snd (restartBrowserInstance start s))"

definition Shutdown_Service :: "Service \<Rightarrow> Service" where
  "Shutdown_Service s = s\<lparr>sv_browser := None\<rparr>"

record CrawlerStats =
  cs_TotalProcessed :: int
  cs_TotalSucceeded :: int
  cs_TotalFailed :: int
  cs_TotalPanics :: int

definition Stats_Service :: "Service \<Rightarrow> CrawlerStats" where
  "Stats_Service s = \<lparr>cs_TotalProcessed = sv_TotalProcessed s, cs_TotalSucceeded = sv_TotalSucceeded s,
              cs_TotalFailed = sv_TotalFailed s, cs_TotalPanics = sv_TotalPanics s\<rparr>"

section \<open>Draining\<close>

definition startDraining :: "Service \<Rightarrow> Service" where
  "startDraining s = (if sv_draining s then s else s\<lparr>sv_draining := True, sv_drainComplete := Some False\<rparr>)"

text \<open>Closing the channel unless it is closed or nil.\<close>

definition close_drain :: "Service \<Rightarrow> Service" where
  "close_drain s =
     (case sv_drainComplete s of None \<Rightarrow> s | Some closed \<Rightarrow> if closed then s else s\<lparr>sv_drainComplete := Some True\<rparr>)"

definition completeDraining :: "Service \<Rightarrow> Service" where
  "completeDraining s =
     (let s1 = s\<lparr>sv_draining := False\<rparr>
      in if sv_drainComplete s1 \<noteq> None then (close_drain s1)\<lparr>sv_drainComplete := None\<rparr> else s1)"

text \<open>\<open>signalled\<close>: the channel is closed before the timeout.\<close>

definition waitForDrain :: "bool \<Rightarrow> Service \<Rightarrow> bool" where
  "waitForDrain signalled s =
     (if \<not> sv_draining s then True
      else if sv_activePages s \<le> 0 then True
      else if sv_drainComplete s = None then True
      else signalled)"

definition trackPageStart :: "Service \<Rightarrow> browser option \<times> Service" where
  "trackPageStart s =
     (if sv_draining s then (None, s)
      else case sv_browser s of
             None \<Rightarrow> (None, s)
           | Some b \<Rightarrow> (Some b, s\<lparr>sv_activePages := int32 (sv_activePages s + 1)\<rparr>))"

definition trackPageEnd :: "Service \<Rightarrow> Service" where
  "trackPageEnd s =
     (let newCount = int32 (sv_activePages s - 1); s1 = s\<lparr>sv_activePages := newCount\<rparr>
      in if sv_draining s1 \<and> newCount \<le> 0 then close_drain s1 else s1)"

text \<open>The old browser is closed some time after the new one has taken its place.\<close>

definition rotateBrowser :: "(bool \<Rightarrow> crawl_err + browser) \<Rightarrow> bool \<Rightarrow> Service \<Rightarrow> crawl_err option \<times> Service" where
  "rotateBrowser start useProxy s =
     (let s1 = startDraining s in
      case start useProxy of
        Inl e \<Rightarrow> (Some e, completeDraining s1)
      | Inr b \<Rightarrow> (None, completeDraining (s1\<lparr>sv_browser := Some b\<rparr>)))"

text \<open>
  The mode the service reports is the mode of its browser. A started browser has the mode it was
  asked for; that is what the operations below rely on.
\<close>

definition mode_ok :: "Service \<Rightarrow> bool" where
  "mode_ok s \<longleftrightarrow> (\<forall>b. sv_browser s = Some b \<longrightarrow> (br_proxy b \<noteq> None) = sv_currentIsProxy s)"

definition starts_as_asked :: "(bool \<Rightarrow> crawl_err + browser) \<Rightarrow> bool" where
  "starts_as_asked start \<longleftrightarrow> (\<forall>m b. start m = Inr b \<longrightarrow> (br_proxy b \<noteq> None) = m)"

lemma startBrowser_starts_as_asked: "starts_as_asked (startBrowser parse binPath proxyURL b)"
  using startBrowser_mode by (auto simp: starts_as_asked_def)

lemma close_drain_sel [simp]:
  "sv_browser (close_drain s) = sv_browser s" "sv_currentIsProxy (close_drain s) = sv_currentIsProxy s"
  "sv_draining (close_drain s) = sv_draining s" "sv_activePages (close_drain s) = sv_activePages s"
  by (simp_all add: close_drain_def split: option.split)

lemma completeDraining_sel [simp]:
  "sv_browser (completeDraining s) = sv_browser s" "sv_currentIsProxy (completeDraining s) = sv_currentIsProxy s"
  "sv_draining (completeDraining s) = False" "sv_activePages (completeDraining s) = sv_activePages s"
  "sv_drainComplete (completeDraining s) = None"
  by (simp_all add: completeDraining_def Let_def)

lemma startDraining_sel [simp]:
  "sv_browser (startDraining s) = sv_browser s" "sv_currentIsProxy (startDraining s) = sv_currentIsProxy s"
  "sv_draining (startDraining s)" "sv_activePages (startDraining s) = sv_activePages s"
  by (simp_all add: startDraining_def)

lemma trackPageEnd_sel [simp]:
  "sv_browser (trackPageEnd s) = sv_browser s" "sv_currentIsProxy (trackPageEnd s) = sv_currentIsProxy s"
  "sv_activePages (trackPageEnd s) = int32 (sv_activePages s - 1)"
  by (simp_all add: trackPageEnd_def Let_def)

lemma rotateBrowser_mode:
  assumes "starts_as_asked start"
  shows "case rotateBrowser start m s of
           (None, s') \<Rightarrow> mode_ok (s'\<lparr>sv_currentIsProxy := m\<rparr>)
         | (Some e, s') \<Rightarrow> sv_browser s' = sv_browser s \<and> sv_currentIsProxy s' = sv_currentIsProxy s"
  using assms by (auto simp: rotateBrowser_def Let_def mode_ok_def starts_as_asked_def split: sum.split)

lemma restartBrowserInstance_mode:
  "starts_as_asked start \<Longrightarrow> mode_ok (snd (restartBrowserInstance start s))"
  by (auto simp: restartBrowserInstance_def mode_ok_def starts_as_asked_def split: sum.split)

lemma mode_ok_cong:
  "sv_browser s' = sv_browser s \<Longrightarrow> sv_currentIsProxy s' = sv_currentIsProxy s \<Longrightarrow> mode_ok s' = mode_ok s"
  by (simp add: mode_ok_def)

end
