(* ===== verification/MercariURL.thy ===== *)
theory MercariURL
  imports GoStd Proto "HOL-Library.AList"
begin

text \<open>
  The search address of a task: \<^verbatim>\<open>internal/crawler/url_builder.go\<close>, with what it uses of
  \<^verbatim>\<open>net/url\<close>: the values of a query, their escaping and their sorted encoding.

  The lemmas show that the address says exactly what the request asks for: decoding its query
  gives the search parameters back, whatever bytes the keywords contain, so that two requests
  have the same address only if they are the same search.
\<close>

section \<open>net/url\<close>

type_synonym Values = "(string \<times> string list) list"

definition Set :: "string \<Rightarrow> string \<Rightarrow> Values \<Rightarrow> Values" where
  "Set k v vs = AList.update k [v] vs"

definition Add :: "string \<Rightarrow> string \<Rightarrow> Values \<Rightarrow> Values" where
  "Add k v vs = AList.update k ((case map_of vs k of None \<Rightarrow> [] | Some xs \<Rightarrow> xs) @ [v]) vs"

definition unreserved :: "char \<Rightarrow> bool" where
  "unreserved c \<longleftrightarrow>
     48 \<le> byte c \<and> byte c \<le> 57 \<or> 65 \<le> byte c \<and> byte c \<le> 90 \<or> 97 \<le> byte c \<and> byte c \<le> 122 \<or>
     c = CHR ''-'' \<or> c = CHR ''_'' \<or> c = CHR ''.'' \<or> c = CHR ''~''"

definition hex_upper :: "nat \<Rightarrow> char" where
  "hex_upper d = (if d < 10 then char_of (48 + d) else char_of (55 + d))"

definition percent :: "char \<Rightarrow> string" where
  "percent c = [CHR ''%'', hex_upper (byte c div 16), hex_upper (byte c mod 16)]"

definition QueryEscape :: "string \<Rightarrow> string" where
  "QueryEscape s = concat (map (\<lambda>c. if unreserved c then [c] else if c = CHR '' '' then ''+'' else percent c) s)"

fun Join :: "char \<Rightarrow> string list \<Rightarrow> string" where
  "Join sep [] = []"
| "Join sep [x] = x"
| "Join sep (x # y # xs) = x @ sep # Join sep (y # xs)"

text \<open>\<^verbatim>\<open>Encode\<close> writes the values in the order of their keys.\<close>

definition sorted_pairs :: "Values \<Rightarrow> (string \<times> string) list" where
  "sorted_pairs vs = concat (map (\<lambda>(k, xs). map (Pair k) xs) (sort_key fst vs))"

definition Encode :: "Values \<Rightarrow> string" where
  "Encode vs = Join (CHR ''&'') (map (\<lambda>(k, v). QueryEscape k @ CHR ''='' # QueryEscape v) (sorted_pairs vs))"

section \<open>The search address\<close>

definition mapSortBy :: "int \<Rightarrow> string" where
  "mapSortBy s =
     (if s = SORT_BY_PRICE then ''price''
      else if s = SORT_BY_SCORE then ''score''
      else if s = SORT_BY_NUM_LIKES then ''num_likes''
      else ''created_time'')"

definition mapSortOrder :: "int \<Rightarrow> string" where
  "mapSortOrder ord = (if ord = SORT_ORDER_ASC then ''asc'' else ''desc'')"

definition effective_min :: "int \<Rightarrow> int" where
  "effective_min p = (if 0 < p \<and> p < 300 then 300 else p)"

fun add_excludes :: "string list \<Rightarrow> Values \<Rightarrow> Values" where
  "add_excludes [] vs = vs"
| "add_excludes (ex # exs) vs =
     add_excludes exs (if TrimSpace ex = [] then vs else Add ''exclude_keyword'' ex vs)"

definition search_values :: "FetchRequest \<Rightarrow> Values" where
  "search_values req =
     (let v0 = [];
          v1 = (if FR_Keyword req \<noteq> [] then Set ''keyword'' (FR_Keyword req) v0 else v0);
          v2 = Set ''status'' ''on_sale'' v1;
          minPrice = effective_min (FR_MinPrice req);
          v3 = (if 0 < minPrice then Set ''price_min'' (FormatInt minPrice) v2 else v2);
          v4 = (if 0 < FR_MaxPrice req then Set ''price_max'' (FormatInt (FR_MaxPrice req)) v3 else v3);
          v5 = add_excludes (FR_ExcludeKeywords req) v4;
          sort = mapSortBy (FR_Sort req);
          v6 = (if sort \<noteq> [] then Set ''sort'' sort v5 else v5);
          ord = mapSortOrder (FR_Order req)
      in if ord \<noteq> [] then Set ''order'' ord v6 else v6)"

definition search_base :: string where
  "search_base = ''https://jp.mercari.com/search''"

definition BuildMercariURL :: "FetchRequest \<Rightarrow> string" where
  "BuildMercariURL req =
     search_base @ CHR ''?'' # ReplaceByte (Encode (search_values req)) (CHR ''+'') ''%20''"

section \<open>Reading a query\<close>

text \<open>What a server does with a query: split it at the separators and undo the escaping.\<close>

definition hex_value :: "char \<Rightarrow> nat" where
  "hex_value c = (if byte c \<le> 57 then byte c - 48 else byte c - 55)"

fun Unescape :: "string \<Rightarrow> string" where
  "Unescape [] = []"
| "Unescape (c # s) =
     (if c = CHR ''%'' then
        (case s of
           a # b # rest \<Rightarrow> char_of (16 * hex_value a + hex_value b) # Unescape rest
         | _ \<Rightarrow> c # Unescape s)
      else (if c = CHR ''+'' then CHR '' '' else c) # Unescape s)"

definition read_pair :: "string \<Rightarrow> string \<times> string" where
  "read_pair p =
     (case split_once (CHR ''='') p of
        [k, v] \<Rightarrow> (Unescape k, Unescape v)
      | _ \<Rightarrow> (Unescape p, []))"

definition ParseQuery :: "string \<Rightarrow> (string \<times> string) list" where
  "ParseQuery q = (if q = [] then [] else map read_pair (Split (CHR ''&'') q))"

section \<open>Escaping\<close>

text \<open>The escaping the address ends up with: a space is \<^verbatim>\<open>%20\<close>.\<close>

definition escape_all :: "string \<Rightarrow> string" where
  "escape_all s = concat (map (\<lambda>c. if unreserved c then [c] else percent c) s)"

lemma hex_upper_value [simp]: "d < 16 \<Longrightarrow> hex_value (hex_upper d) = d"
  by (auto simp: hex_upper_def hex_value_def)

lemma hex_upper_plain:
  assumes "d < 16"
  shows "hex_upper d \<noteq> CHR ''+''" "hex_upper d \<noteq> CHR ''&''" "hex_upper d \<noteq> CHR ''=''"
proof -
  have b: "48 \<le> byte (hex_upper d)" "byte (hex_upper d) \<noteq> 61" using assms by (auto simp: hex_upper_def)
  have "byte (CHR ''+'') = 43" "byte (CHR ''&'') = 38" "byte (CHR ''='') = 61" by (simp_all add: byte_def)
  with b show "hex_upper d \<noteq> CHR ''+''" "hex_upper d \<noteq> CHR ''&''" "hex_upper d \<noteq> CHR ''=''" by auto
qed

lemma byte_halves: "byte c div 16 < 16" "byte c mod 16 < 16" "16 * (byte c div 16) + byte c mod 16 = byte c"
  using byte_less_256 [of c] by (auto simp: div_less_iff_less_mult)

lemma unreserved_plain:
  "unreserved c \<Longrightarrow> c \<noteq> CHR ''+'' \<and> c \<noteq> CHR ''&'' \<and> c \<noteq> CHR ''='' \<and> c \<noteq> CHR ''%'' \<and> c \<noteq> CHR '' ''"
  by (auto simp: unreserved_def byte_def)

lemma percent_plain: "c \<in> set (percent x) \<Longrightarrow> c \<noteq> CHR ''+'' \<and> c \<noteq> CHR ''&'' \<and> c \<noteq> CHR ''=''"
  using hex_upper_plain [OF byte_halves(1) [of x]] hex_upper_plain [OF byte_halves(2) [of x]]
  by (auto simp: percent_def)

lemma ReplaceByte_id: "c \<notin> set s \<Longrightarrow> ReplaceByte s c r = s"
  by (induction s) auto

lemma percent_space: "percent (CHR '' '') = ''%20''"
  by code_simp

lemma replace_QueryEscape: "ReplaceByte (QueryEscape s) (CHR ''+'') ''%20'' = escape_all s"
proof (induction s)
  case (Cons c s)
  have "CHR ''+'' \<notin> set (percent c)" using percent_plain [of "CHR ''+''" c] by auto
  with Cons show ?case
    by (auto simp: QueryEscape_def escape_all_def percent_space ReplaceByte_id dest: unreserved_plain)
qed (simp add: QueryEscape_def escape_all_def)

lemma escape_all_plain: "c \<in> set (escape_all s) \<Longrightarrow> c \<noteq> CHR ''&'' \<and> c \<noteq> CHR ''=''"
  by (auto simp: escape_all_def dest: unreserved_plain percent_plain split: if_splits)

lemma Unescape_escape_all: "Unescape (escape_all s @ t) = s @ Unescape t"
proof (induction s)
  case (Cons c s)
  show ?case
  proof (cases "unreserved c")
    case True
    with Cons show ?thesis by (auto simp: escape_all_def dest: unreserved_plain)
  next
    case False
    have "char_of (16 * (byte c div 16) + byte c mod 16) = c" by (simp only: byte_halves(3)) (simp add: byte_def)
    with False Cons show ?thesis by (simp add: escape_all_def percent_def byte_halves)
  qed
qed (simp add: escape_all_def)

lemma read_pair_escaped: "read_pair (escape_all k @ CHR ''='' # escape_all v) = (k, v)"
proof -
  have "CHR ''='' \<notin> set (escape_all k)" using escape_all_plain by blast
  then show ?thesis
    using Unescape_escape_all [of k "[]"] Unescape_escape_all [of v "[]"]
    by (simp add: read_pair_def split_once_append)
qed

lemma Split_Join:
  assumes "xs \<noteq> []" and "\<forall>x \<in> set xs. sep \<notin> set x"
  shows "Split sep (Join sep xs) = xs"
  using assms by (induction sep xs rule: Join.induct) (auto simp: Split_no_sep Split_append)

lemma ReplaceByte_Join:
  assumes "sep \<noteq> c"
  shows "ReplaceByte (Join sep xs) c r = Join sep (map (\<lambda>x. ReplaceByte x c r) xs)"
  using assms by (induction sep xs rule: Join.induct) auto

lemma ParseQuery_Encode: "ParseQuery (ReplaceByte (Encode vs) (CHR ''+'') ''%20'') = sorted_pairs vs"
proof -
  let ?enc = "\<lambda>(k, v). escape_all k @ CHR ''='' # escape_all v"
  have enc: "ReplaceByte (Encode vs) (CHR ''+'') ''%20'' = Join (CHR ''&'') (map ?enc (sorted_pairs vs))"
    by (simp add: Encode_def ReplaceByte_Join replace_QueryEscape case_prod_unfold comp_def)
  show ?thesis
  proof (cases "sorted_pairs vs")
    case (Cons p ps)
    have split: "Split (CHR ''&'') (Join (CHR ''&'') (map ?enc (sorted_pairs vs))) = map ?enc (sorted_pairs vs)"
      using Cons by (intro Split_Join) (auto dest: escape_all_plain)
    have "Join (CHR ''&'') (map ?enc (sorted_pairs vs)) \<noteq> []"
      using Cons by (cases ps) (auto simp: case_prod_beta)
    then show ?thesis
      unfolding ParseQuery_def enc split
      by (simp add: comp_def case_prod_beta read_pair_escaped)
  qed (simp add: enc ParseQuery_def)
qed

section \<open>What an address says\<close>

text \<open>The search parameters of a request, in the order of their names.\<close>

definition shown_excludes :: "FetchRequest \<Rightarrow> string list" where
  "shown_excludes req = filter (\<lambda>ex. TrimSpace ex \<noteq> []) (FR_ExcludeKeywords req)"

definition search_parameters :: "FetchRequest \<Rightarrow> (string \<times> string) list" where
  "search_parameters req =
     map (Pair ''exclude_keyword'') (shown_excludes req) @
     (if FR_Keyword req = [] then [] else [(''keyword'', FR_Keyword req)]) @
     [(''order'', mapSortOrder (FR_Order req))] @
     (if 0 < FR_MaxPrice req then [(''price_max'', FormatInt (FR_MaxPrice req))] else []) @
     (if 0 < FR_MinPrice req then [(''price_min'', FormatInt (max 300 (FR_MinPrice req)))] else []) @
     [(''sort'', mapSortBy (FR_Sort req)), (''status'', ''on_sale'')]"

lemma update_new: "k \<notin> fst ` set vs \<Longrightarrow> AList.update k v vs = vs @ [(k, v)]"
  by (induction vs) auto

lemma add_excludes_append:
  assumes "''exclude_keyword'' \<notin> fst ` set vs"
  shows "add_excludes exs (vs @ [(''exclude_keyword'', ys)]) =
    vs @ [(''exclude_keyword'', ys @ filter (\<lambda>ex. TrimSpace ex \<noteq> []) exs)]"
proof (induction exs arbitrary: ys)
  case (Cons e exs)
  have none: "map_of vs ''exclude_keyword'' = None" using assms by (simp add: map_of_eq_None_iff)
  have upd: "AList.update ''exclude_keyword'' z (vs @ [(''exclude_keyword'', ys)]) = vs @ [(''exclude_keyword'', z)]" for z
    using assms by (induction vs) auto
  from none have "Add ''exclude_keyword'' e (vs @ [(''exclude_keyword'', ys)]) = vs @ [(''exclude_keyword'', ys @ [e])]"
    by (simp only: Add_def upd map_of_append map_add_def) simp
  with Cons show ?case by simp
qed simp

lemma add_excludes_new:
  assumes "''exclude_keyword'' \<notin> fst ` set vs"
  shows "add_excludes exs vs =
    (let shown = filter (\<lambda>ex. TrimSpace ex \<noteq> []) exs in if shown = [] then vs else vs @ [(''exclude_keyword'', shown)])"
proof (induction exs)
  case (Cons e exs)
  have none: "map_of vs ''exclude_keyword'' = None" using assms by (simp add: map_of_eq_None_iff)
  have add: "Add ''exclude_keyword'' e vs = vs @ [(''exclude_keyword'', [e])]"
    by (simp add: Add_def none update_new [OF assms])
  show ?case
  proof (cases "TrimSpace e = []")
    case True
    with Cons show ?thesis by simp
  next
    case False
    then show ?thesis by (simp only: add_excludes.simps if_False add add_excludes_append [OF assms]) (simp add: Let_def)
  qed
qed (simp add: Let_def)

lemma sorted_search_values: "sorted_pairs (search_values req) = search_parameters req"
proof -
  have sort_ne: "mapSortBy (FR_Sort req) \<noteq> []" "mapSortOrder (FR_Order req) \<noteq> []"
    by (simp_all add: mapSortBy_def mapSortOrder_def)
  have eff: "0 < effective_min (FR_MinPrice req) \<longleftrightarrow> 0 < FR_MinPrice req"
      "0 < FR_MinPrice req \<Longrightarrow> effective_min (FR_MinPrice req) = max 300 (FR_MinPrice req)"
    by (auto simp: effective_min_def)
  show ?thesis
    by (cases "FR_Keyword req = []"; cases "0 < FR_MinPrice req"; cases "0 < FR_MaxPrice req";
        cases "shown_excludes req = []")
      (simp_all add: search_values_def Let_def sort_ne eff Set_def add_excludes_new shown_excludes_def [symmetric]
        sorted_pairs_def search_parameters_def)
qed

definition param :: "string \<Rightarrow> (string \<times> string) list \<Rightarrow> string list" where
  "param k ps = map snd (filter (\<lambda>p. fst p = k) ps)"

lemma param_simps:
  "param k [] = []" "param k ((k', v) # ps) = (if k' = k then v # param k ps else param k ps)"
  "param k (ps @ qs) = param k ps @ param k qs" "param k (map (Pair k') vs) = (if k' = k then vs else [])"
  by (auto simp: param_def filter_map comp_def)

lemma params_of_request:
  "param ''exclude_keyword'' (search_parameters req) = shown_excludes req"
  "param ''keyword'' (search_parameters req) = (if FR_Keyword req = [] then [] else [FR_Keyword req])"
  "param ''order'' (search_parameters req) = [mapSortOrder (FR_Order req)]"
  "param ''price_max'' (search_parameters req) = (if 0 < FR_MaxPrice req then [FormatInt (FR_MaxPrice req)] else [])"
  "param ''price_min'' (search_parameters req) =
     (if 0 < FR_MinPrice req then [FormatInt (max 300 (FR_MinPrice req))] else [])"
  "param ''sort'' (search_parameters req) = [mapSortBy (FR_Sort req)]"
  by (simp_all add: search_parameters_def param_simps)

text \<open>The part of a request a search depends on; prices below one ask for nothing.\<close>

definition same_search :: "FetchRequest \<Rightarrow> FetchRequest \<Rightarrow> bool" where
  "same_search r r' \<longleftrightarrow>
     FR_Keyword r = FR_Keyword r' \<and> shown_excludes r = shown_excludes r' \<and>
     max 0 (FR_MaxPrice r) = max 0 (FR_MaxPrice r') \<and>
     (0 < FR_MinPrice r \<longleftrightarrow> 0 < FR_MinPrice r') \<and> max 300 (FR_MinPrice r) = max 300 (FR_MinPrice r') \<and>
     mapSortBy (FR_Sort r) = mapSortBy (FR_Sort r') \<and> mapSortOrder (FR_Order r) = mapSortOrder (FR_Order r')"

lemma search_parameters_eq_iff: "search_parameters r = search_parameters r' \<longleftrightarrow> same_search r r'"
proof
  assume eq: "search_parameters r = search_parameters r'"
  have p: "param k (search_parameters r) = param k (search_parameters r')" for k by (simp add: eq)
  have "FR_Keyword r = FR_Keyword r'" using p [of "''keyword''"] by (simp add: params_of_request split: if_splits)
  moreover have "shown_excludes r = shown_excludes r'" using p [of "''exclude_keyword''"] by (simp only: params_of_request)
  moreover have "max 0 (FR_MaxPrice r) = max 0 (FR_MaxPrice r')"
    using p [of "''price_max''"] by (auto simp: params_of_request split: if_splits)
  moreover have "(0 < FR_MinPrice r \<longleftrightarrow> 0 < FR_MinPrice r') \<and> max 300 (FR_MinPrice r) = max 300 (FR_MinPrice r')"
    using p [of "''price_min''"] by (auto simp: params_of_request split: if_splits)
  moreover have "mapSortBy (FR_Sort r) = mapSortBy (FR_Sort r')" using p [of "''sort''"] by (simp only: params_of_request) simp
  moreover have "mapSortOrder (FR_Order r) = mapSortOrder (FR_Order r')"
    using p [of "''order''"] by (simp only: params_of_request) simp
  ultimately show "same_search r r'" by (simp add: same_search_def)
next
  assume "same_search r r'"
  moreover from this have "0 < FR_MaxPrice r \<longleftrightarrow> 0 < FR_MaxPrice r'" "0 < FR_MaxPrice r \<Longrightarrow> FR_MaxPrice r = FR_MaxPrice r'"
    by (auto simp: same_search_def max_def split: if_splits)
  ultimately show "search_parameters r = search_parameters r'" by (auto simp: same_search_def search_parameters_def)
qed

section \<open>Properties\<close>

text \<open>
  C22. The address says what the request asks for. Whatever bytes the keyword and the excluded words
  contain, the address is the search page, a question mark and a query that decodes to exactly
  the request's parameters: the non-blank excluded words in order, the keyword when there is one,
  the order, positive prices (a minimum below 300 raised to 300), the sorting and \<^verbatim>\<open>on_sale\<close>.
\<close>

theorem mercari_url_round_trip:
  "\<exists>q. BuildMercariURL req = search_base @ CHR ''?'' # q \<and> ParseQuery q = search_parameters req"
  by (simp add: BuildMercariURL_def ParseQuery_Encode sorted_search_values)

text \<open>
  Two requests have the same address exactly when they are the same search: the same keyword,
  non-blank excluded words, positive price bounds (after raising the minimum), sorting and order.
\<close>

theorem same_url_iff_same_search: "BuildMercariURL r = BuildMercariURL r' \<longleftrightarrow> same_search r r'"
proof
  assume "BuildMercariURL r = BuildMercariURL r'"
  then have "ParseQuery (ReplaceByte (Encode (search_values r)) (CHR ''+'') ''%20'') =
      ParseQuery (ReplaceByte (Encode (search_values r')) (CHR ''+'') ''%20'')"
    by (simp add: BuildMercariURL_def)
  then show "same_search r r'" by (simp add: ParseQuery_Encode sorted_search_values search_parameters_eq_iff)
next
  assume "same_search r r'"
  then have "sorted_pairs (search_values r) = sorted_pairs (search_values r')"
    by (simp add: sorted_search_values search_parameters_eq_iff)
  then show "BuildMercariURL r = BuildMercariURL r'" by (simp add: BuildMercariURL_def Encode_def)
qed

end
