(* ===== verification/RedisQueue.thy ===== *)
theory RedisQueue
  imports Redis Proto
begin

text \<open>
  The task and result queues of \<^verbatim>\<open>internal/pkg/redisqueue/client.go\<close>: five Redis keys (the
  task list, the processing list, the result list, the pending set and the started hash),
  three Lua scripts and the client's operations over them.

  The definitions take what they do not own as arguments: the server \<open>S\<close>, the JSON codec
  \<open>mar\<close>/\<open>unm\<close> of the protobuf library, the behaviour \<open>lp\<close> of Lua's pattern matcher on patterns
  with magic characters, the clock, and the fate of each request on the network. Metrics
  counters and log lines are left out.

  The lemmas give the effect of every script on the five keys, the agreement of each client
  operation with its abstract counterpart on a \<open>qview\<close>, and the invariant that a task id is
  in flight at most once.
\<close>

section \<open>Keys and errors\<close>

definition KeyTaskQueue :: string where
  "KeyTaskQueue = ''goodshunter:queue:tasks''"

definition KeyTaskProcessingQueue :: string where
  "KeyTaskProcessingQueue = ''goodshunter:queue:tasks:processing''"

definition KeyResultQueue :: string where
  "KeyResultQueue = ''goodshunter:queue:results''"

definition KeyTaskPendingSet :: string where
  "KeyTaskPendingSet = ''goodshunter:queue:tasks:pending''"

definition KeyTaskStartedHash :: string where
  "KeyTaskStartedHash = ''goodshunter:queue:tasks:started''"

lemmas key_defs = KeyTaskQueue_def KeyTaskProcessingQueue_def KeyResultQueue_def
  KeyTaskPendingSet_def KeyTaskStartedHash_def

lemma keys_distinct:
  "distinct [KeyTaskQueue, KeyTaskProcessingQueue, KeyResultQueue, KeyTaskPendingSet, KeyTaskStartedHash]"
  by (simp add: key_defs)

lemma keys_neq [simp]:
  "KeyTaskQueue \<noteq> KeyTaskProcessingQueue" "KeyTaskProcessingQueue \<noteq> KeyTaskQueue"
  "KeyTaskQueue \<noteq> KeyResultQueue" "KeyResultQueue \<noteq> KeyTaskQueue"
  "KeyTaskQueue \<noteq> KeyTaskPendingSet" "KeyTaskPendingSet \<noteq> KeyTaskQueue"
  "KeyTaskQueue \<noteq> KeyTaskStartedHash" "KeyTaskStartedHash \<noteq> KeyTaskQueue"
  "KeyTaskProcessingQueue \<noteq> KeyResultQueue" "KeyResultQueue \<noteq> KeyTaskProcessingQueue"
  "KeyTaskProcessingQueue \<noteq> KeyTaskPendingSet" "KeyTaskPendingSet \<noteq> KeyTaskProcessingQueue"
  "KeyTaskProcessingQueue \<noteq> KeyTaskStartedHash" "KeyTaskStartedHash \<noteq> KeyTaskProcessingQueue"
  "KeyResultQueue \<noteq> KeyTaskPendingSet" "KeyTaskPendingSet \<noteq> KeyResultQueue"
  "KeyResultQueue \<noteq> KeyTaskStartedHash" "KeyTaskStartedHash \<noteq> KeyResultQueue"
  "KeyTaskPendingSet \<noteq> KeyTaskStartedHash" "KeyTaskStartedHash \<noteq> KeyTaskPendingSet"
  using keys_distinct by auto

datatype rq_error =
    ErrTaskNil
  | ErrResultNil
  | ErrNotInitialized
  | ErrTaskIdEmpty
  | ErrMarshal
  | ErrUnmarshal
  | ErrRedis
  | ErrInvalidResponse
  | ErrNoTask
  | ErrNoResult
  | ErrTaskExists

text \<open>A nil client, or one without a connection, is \<open>None\<close>.\<close>

type_synonym 'd Client = "'d server option"

definition NewClientWithRedis :: "'d server option \<Rightarrow> string + 'd Client" where
  "NewClientWithRedis rdb =
     (case rdb of None \<Rightarrow> Inl ''redis client is nil'' | Some S \<Rightarrow> Inr (Some S))"

type_synonym request_marshal = "FetchRequest \<Rightarrow> string option"
type_synonym request_unmarshal = "string \<Rightarrow> FetchRequest option"

section \<open>The scripts\<close>

definition pushTaskScript :: "'d server \<Rightarrow> string list \<Rightarrow> string list \<Rightarrow> 'd \<Rightarrow> redis_reply \<times> 'd" where
  "pushTaskScript S KEYS ARGV =
     redis_call S (SADD (KEYS ! 0) (ARGV ! 0)) (\<lambda>added.
       if added = RInt 0 then (\<lambda>d. (RInt 0, d))
       else redis_call S (LPUSH (KEYS ! 1) (ARGV ! 1)) (\<lambda>_ d. (RInt 1, d)))"

text \<open>
  Lua's \<^verbatim>\<open>string.find\<close> takes a pattern. A pattern without magic characters is searched for as
  a substring; any other pattern is left to the argument \<open>lp\<close>.
\<close>

definition lua_magic :: "char \<Rightarrow> bool" where
  "lua_magic c \<longleftrightarrow> c \<in> set ''^$()%.[]*+-?''"

definition string_find :: "(string \<Rightarrow> string \<Rightarrow> bool) \<Rightarrow> string \<Rightarrow> string \<Rightarrow> bool" where
  "string_find lp s p = (if \<exists>c \<in> set p. lua_magic c then lp s p else Contains s p)"

definition taskid_pattern :: "string \<Rightarrow> string" where
  \<open>taskid_pattern taskId = ''"taskId":"'' @ taskId @ ''"''\<close>

fun ack_scan ::
  "'d server \<Rightarrow> (string \<Rightarrow> string \<Rightarrow> bool) \<Rightarrow> string \<Rightarrow> string \<Rightarrow>
   (int \<Rightarrow> 'd \<Rightarrow> redis_reply \<times> 'd) \<Rightarrow> string list \<Rightarrow> 'd \<Rightarrow> redis_reply \<times> 'd"
where
  "ack_scan S lp queue taskId cont [] d = cont 0 d"
| "ack_scan S lp queue taskId cont (task # tasks) d =
     (if string_find lp task (taskid_pattern taskId)
      then redis_call S (LREM queue task) (\<lambda>_. cont 1) d
      else ack_scan S lp queue taskId cont tasks d)"

definition ackTaskScript ::
  "'d server \<Rightarrow> (string \<Rightarrow> string \<Rightarrow> bool) \<Rightarrow> string list \<Rightarrow> string list \<Rightarrow> 'd \<Rightarrow> redis_reply \<times> 'd"
where
  "ackTaskScript S lp KEYS ARGV =
     (let queue = KEYS ! 0; pending = KEYS ! 1; started = KEYS ! 2; taskId = ARGV ! 0
      in redis_call S (LRANGE queue) (\<lambda>r.
           ack_scan S lp queue taskId
             (\<lambda>removed.
                redis_call S (SREM pending taskId) (\<lambda>_.
                redis_call S (HDEL started taskId) (\<lambda>_ d. (RInt removed, d))))
             (case r of RMulti tasks \<Rightarrow> tasks | _ \<Rightarrow> [])))"

definition rescueScript :: "'d server \<Rightarrow> string list \<Rightarrow> string list \<Rightarrow> 'd \<Rightarrow> redis_reply \<times> 'd" where
  "rescueScript S KEYS ARGV =
     redis_call S (LREM (KEYS ! 0) (ARGV ! 0)) (\<lambda>removed.
       if (case removed of RInt n \<Rightarrow> 0 < n | _ \<Rightarrow> False)
       then redis_call S (LPUSH (KEYS ! 1) (ARGV ! 0)) (\<lambda>_.
            redis_call S (HDEL (KEYS ! 2) (ARGV ! 1)) (\<lambda>_ d. (RInt 1, d)))
       else (\<lambda>d. (RInt 0, d)))"

section \<open>The client's operations\<close>

definition PushTask ::
  "'d Client \<Rightarrow> request_marshal \<Rightarrow> outcome \<Rightarrow> FetchRequest option \<Rightarrow> 'd \<Rightarrow> rq_error option \<times> 'd"
where
  "PushTask c mar net task d =
     (case task of
        None \<Rightarrow> (Some ErrTaskNil, d)
      | Some t \<Rightarrow>
     (case c of
        None \<Rightarrow> (Some ErrNotInitialized, d)
      | Some S \<Rightarrow>
        let taskID = FR_TaskId t in
        if taskID = [] then (Some ErrTaskIdEmpty, d)
        else (case mar t of
                None \<Rightarrow> (Some ErrMarshal, d)
              | Some data \<Rightarrow>
                  (case client_call net
                          (pushTaskScript S [KeyTaskPendingSet, KeyTaskQueue] [taskID, data]) d of
                     (Some (RInt result), d') \<Rightarrow>
                       if result = 0 then (Some ErrTaskExists, d') else (None, d')
                   | (_, d') \<Rightarrow> (Some ErrRedis, d')))))"

definition PushTaskForce ::
  "'d Client \<Rightarrow> request_marshal \<Rightarrow> outcome \<Rightarrow> outcome \<Rightarrow> FetchRequest option \<Rightarrow> 'd \<Rightarrow> rq_error option \<times> 'd"
where
  "PushTaskForce c mar net1 net2 task d =
     (case task of
        None \<Rightarrow> (Some ErrTaskNil, d)
      | Some t \<Rightarrow>
     (case c of
        None \<Rightarrow> (Some ErrNotInitialized, d)
      | Some S \<Rightarrow>
     (case mar t of
        None \<Rightarrow> (Some ErrMarshal, d)
      | Some data \<Rightarrow>
     (case client_call net1 (\<lambda>d. S d (LPUSH KeyTaskQueue data)) d of
        (Some (RInt _), d1) \<Rightarrow>
          if FR_TaskId t \<noteq> []
          then (None, snd (client_call net2 (\<lambda>d. S d (SADD KeyTaskPendingSet (FR_TaskId t))) d1))
          else (None, d1)
      | (_, d1) \<Rightarrow> (Some ErrRedis, d1)))))"

text \<open>
  \<^verbatim>\<open>BRPopLPush\<close> waits for an element; the model is the moment the wait ends, with the nil
  reply for a wait that timed out.
\<close>

definition PopTask ::
  "'d Client \<Rightarrow> request_unmarshal \<Rightarrow> gotime \<Rightarrow> outcome \<Rightarrow> outcome \<Rightarrow> 'd \<Rightarrow> (rq_error + FetchRequest) \<times> 'd"
where
  "PopTask c unm now net1 net2 d =
     (case c of
        None \<Rightarrow> (Inl ErrNotInitialized, d)
      | Some S \<Rightarrow>
     (case client_call net1 (\<lambda>d. S d (BRPOPLPUSH KeyTaskQueue KeyTaskProcessingQueue)) d of
        (Some (RBulk None), d1) \<Rightarrow> (Inl ErrNoTask, d1)
      | (Some (RBulk (Some result)), d1) \<Rightarrow>
          (case unm result of
             None \<Rightarrow> (Inl ErrUnmarshal, d1)
           | Some req \<Rightarrow>
               if FR_TaskId req \<noteq> []
               then (Inr req,
                     snd (client_call net2
                            (\<lambda>d. S d (HSET KeyTaskStartedHash (FR_TaskId req) (FormatInt (Unix now)))) d1))
               else (Inr req, d1))
      | (_, d1) \<Rightarrow> (Inl ErrRedis, d1)))"

definition PushResult ::
  "'d Client \<Rightarrow> (FetchResponse \<Rightarrow> string option) \<Rightarrow> outcome \<Rightarrow> FetchResponse option \<Rightarrow> 'd \<Rightarrow> rq_error option \<times> 'd"
where
  "PushResult c mar net res d =
     (case res of
        None \<Rightarrow> (Some ErrResultNil, d)
      | Some r \<Rightarrow>
     (case c of
        None \<Rightarrow> (Some ErrNotInitialized, d)
      | Some S \<Rightarrow>
     (case mar r of
        None \<Rightarrow> (Some ErrMarshal, d)
      | Some data \<Rightarrow>
     (case client_call net (\<lambda>d. S d (LPUSH KeyResultQueue data)) d of
        (Some (RInt _), d1) \<Rightarrow> (None, d1)
      | (_, d1) \<Rightarrow> (Some ErrRedis, d1)))))"

definition PopResult ::
  "'d Client \<Rightarrow> (string \<Rightarrow> FetchResponse option) \<Rightarrow> outcome \<Rightarrow> 'd \<Rightarrow> (rq_error + FetchResponse) \<times> 'd"
where
  "PopResult c unm net d =
     (case c of
        None \<Rightarrow> (Inl ErrNotInitialized, d)
      | Some S \<Rightarrow>
     (case client_call net (\<lambda>d. S d (BRPOP KeyResultQueue)) d of
        (Some (RBulk None), d1) \<Rightarrow> (Inl ErrNoResult, d1)
      | (Some (RMulti result), d1) \<Rightarrow>
          if length result < 2 then (Inl ErrInvalidResponse, d1)
          else (case unm (result ! 1) of
                  None \<Rightarrow> (Inl ErrUnmarshal, d1)
                | Some resp \<Rightarrow> (Inr resp, d1))
      | (_, d1) \<Rightarrow> (Inl ErrRedis, d1)))"

definition AckTask ::
  "'d Client \<Rightarrow> (string \<Rightarrow> string \<Rightarrow> bool) \<Rightarrow> outcome \<Rightarrow> FetchRequest option \<Rightarrow> 'd \<Rightarrow> rq_error option \<times> 'd"
where
  "AckTask c lp net task d =
     (case task of
        None \<Rightarrow> (Some ErrTaskNil, d)
      | Some t \<Rightarrow>
     (case c of
        None \<Rightarrow> (Some ErrNotInitialized, d)
      | Some S \<Rightarrow>
        let taskID = FR_TaskId t in
        if taskID = [] then (Some ErrTaskIdEmpty, d)
        else (case client_call net
                     (ackTaskScript S lp
                        [KeyTaskProcessingQueue, KeyTaskPendingSet, KeyTaskStartedHash] [taskID]) d of
                (Some (RInt _), d') \<Rightarrow> (None, d')
              | (_, d') \<Rightarrow> (Some ErrRedis, d'))))"

definition QueueDepth :: "'d Client \<Rightarrow> outcome \<Rightarrow> outcome \<Rightarrow> 'd \<Rightarrow> rq_error + (int \<times> int)" where
  "QueueDepth c net1 net2 d =
     (case c of
        None \<Rightarrow> Inl ErrNotInitialized
      | Some S \<Rightarrow>
     (case client_call net1 (\<lambda>d. S d (LLEN KeyTaskQueue)) d of
        (Some (RInt tasks), d1) \<Rightarrow>
          (case client_call net2 (\<lambda>d. S d (LLEN KeyResultQueue)) d1 of
             (Some (RInt results), _) \<Rightarrow> Inr (tasks, results)
           | _ \<Rightarrow> Inl ErrRedis)
      | _ \<Rightarrow> Inl ErrRedis))"

definition PendingSetSize :: "'d Client \<Rightarrow> outcome \<Rightarrow> 'd \<Rightarrow> rq_error + int" where
  "PendingSetSize c net d =
     (case c of
        None \<Rightarrow> Inl ErrNotInitialized
      | Some S \<Rightarrow>
     (case client_call net (\<lambda>d. S d (SCARD KeyTaskPendingSet)) d of
        (Some (RInt n), _) \<Rightarrow> Inr n
      | _ \<Rightarrow> Inl ErrRedis))"

definition RemoveFromPendingSet ::
  "'d Client \<Rightarrow> outcome \<Rightarrow> string \<Rightarrow> 'd \<Rightarrow> rq_error option \<times> 'd"
where
  "RemoveFromPendingSet c net taskID d =
     (case c of
        None \<Rightarrow> (Some ErrNotInitialized, d)
      | Some S \<Rightarrow>
        if taskID = [] then (Some ErrTaskIdEmpty, d)
        else (case client_call net (\<lambda>d. S d (SREM KeyTaskPendingSet taskID)) d of
                (Some (RInt _), d1) \<Rightarrow> (None, d1)
              | (_, d1) \<Rightarrow> (Some ErrRedis, d1)))"

subsection \<open>The janitor's pass\<close>

text \<open>
  \<^verbatim>\<open>fmt.Sscanf(s, "%d", &v)\<close>: leading blanks (but no line break), an optional sign, the longest
  run of digits; what follows is not read.
\<close>

function skip_blank :: "string \<Rightarrow> string" where
  "skip_blank s =
     (if s = [] \<or> hd s = CHR 0x0A \<or> leading_space s = 0 then s
      else skip_blank (drop (leading_space s) s))"
  by pat_completeness auto
termination
  by (relation "measure length") auto

declare skip_blank.simps [simp del]

definition Sscanf_d :: "string \<Rightarrow> int option" where
  "Sscanf_d s =
     (let s1 = skip_blank s;
          sign = (if s1 \<noteq> [] \<and> (hd s1 = CHR ''-'' \<or> hd s1 = CHR ''+'') then [hd s1] else []);
          ds = takeWhile is_digit (drop (length sign) s1)
      in case ParseInt64 (sign @ ds) of (v, None) \<Rightarrow> Some v | (v, Some e) \<Rightarrow> None)"

text \<open>Whether the loop body reaches the rescue script for an entry of the processing list.\<close>

definition timed_out ::
  "(string \<times> string) list \<Rightarrow> int \<Rightarrow> int \<Rightarrow> FetchRequest \<Rightarrow> bool"
where
  "timed_out startedTimes now threshold task =
     (case map_of startedTimes (FR_TaskId task) of
        None \<Rightarrow> FR_CreatedAt task \<noteq> 0 \<and> \<not> int64 (now - FR_CreatedAt task) \<le> threshold
      | Some startedStr \<Rightarrow>
          (case Sscanf_d startedStr of
             None \<Rightarrow> False
           | Some started \<Rightarrow> \<not> int64 (now - started) \<le> threshold))"

fun rescue_loop ::
  "'d server \<Rightarrow> request_unmarshal \<Rightarrow> (string \<times> string) list \<Rightarrow> int \<Rightarrow> int \<Rightarrow>
   outcome list \<Rightarrow> string list \<Rightarrow> int \<Rightarrow> 'd \<Rightarrow> int \<times> 'd"
where
  "rescue_loop S unm startedTimes now threshold nets [] rescued d = (rescued, d)"
| "rescue_loop S unm startedTimes now threshold nets (raw # raws) rescued d =
     (case unm raw of
        None \<Rightarrow> rescue_loop S unm startedTimes now threshold (tl nets) raws rescued d
      | Some task \<Rightarrow>
          if FR_TaskId task = [] \<or> \<not> timed_out startedTimes now threshold task
          then rescue_loop S unm startedTimes now threshold (tl nets) raws rescued d
          else (case client_call (case nets of [] \<Rightarrow> Delivered | n # _ \<Rightarrow> n)
                       (rescueScript S [KeyTaskProcessingQueue, KeyTaskQueue, KeyTaskStartedHash]
                          [raw, FR_TaskId task]) d of
                  (r, d') \<Rightarrow>
                    rescue_loop S unm startedTimes now threshold (tl nets) raws
                      (if r = Some (RInt 1) then rescued + 1 else rescued) d'))"

fun hdel_all :: "'d server \<Rightarrow> outcome list \<Rightarrow> string list \<Rightarrow> 'd \<Rightarrow> 'd" where
  "hdel_all S nets [] d = d"
| "hdel_all S nets (taskID # ids) d =
     hdel_all S (tl nets) ids
       (snd (client_call (case nets of [] \<Rightarrow> Delivered | n # _ \<Rightarrow> n)
               (\<lambda>d. S d (HDEL KeyTaskStartedHash taskID)) d))"

text \<open>
  The fates of the requests of one pass are a list, read in the order the requests are sent;
  requests beyond the list are delivered. The orphaned fields are removed in the order of the
  reply, where the code ranges over a map.
\<close>

definition RescueStuckTasks ::
  "'d Client \<Rightarrow> request_unmarshal \<Rightarrow> gotime \<Rightarrow> duration \<Rightarrow> outcome \<Rightarrow> outcome \<Rightarrow> outcome list \<Rightarrow>
   'd \<Rightarrow> (rq_error + int) \<times> 'd"
where
  "RescueStuckTasks c unm now timeout net1 net2 nets d =
     (case c of
        None \<Rightarrow> (Inl ErrNotInitialized, d)
      | Some S \<Rightarrow>
     (case client_call net1 (\<lambda>d. S d (HGETALL KeyTaskStartedHash)) d of
        (Some (RPairs startedTimes), d1) \<Rightarrow>
          if startedTimes = [] then (Inr 0, d1)
          else (case client_call net2 (\<lambda>d. S d (LRANGE KeyTaskProcessingQueue)) d1 of
                  (Some (RMulti tasksRaw), d2) \<Rightarrow>
                    if tasksRaw = []
                    then (Inr 0, hdel_all S nets (map fst startedTimes) d2)
                    else (case rescue_loop S unm startedTimes (Unix now) (quot timeout Second)
                                 nets tasksRaw 0 d2 of
                            (rescued, d3) \<Rightarrow> (Inr rescued, d3))
                | (_, d2) \<Rightarrow> (Inl ErrRedis, d2))
      | (_, d1) \<Rightarrow> (Inl ErrRedis, d1)))"

subsection \<open>Removing duplicates\<close>

fun find_duplicates :: "request_unmarshal \<Rightarrow> string list \<Rightarrow> string set \<Rightarrow> string list \<Rightarrow> string list" where
  "find_duplicates unm [] seen duplicates = duplicates"
| "find_duplicates unm (raw # raws) seen duplicates =
     (case unm raw of
        None \<Rightarrow> find_duplicates unm raws seen duplicates
      | Some task \<Rightarrow>
          if FR_TaskId task = [] then find_duplicates unm raws seen duplicates
          else if FR_TaskId task \<in> seen then find_duplicates unm raws seen (duplicates @ [raw])
          else find_duplicates unm raws (insert (FR_TaskId task) seen) duplicates)"

fun lrem_all :: "'d server \<Rightarrow> outcome list \<Rightarrow> string list \<Rightarrow> int \<Rightarrow> 'd \<Rightarrow> int \<times> 'd" where
  "lrem_all S nets [] removed d = (removed, d)"
| "lrem_all S nets (raw # raws) removed d =
     (case client_call (case nets of [] \<Rightarrow> Delivered | n # _ \<Rightarrow> n)
             (\<lambda>d. S d (LREM KeyTaskQueue raw)) d of
        (r, d') \<Rightarrow>
          lrem_all S (tl nets) raws
            (if (case r of Some (RInt n) \<Rightarrow> 0 < n | _ \<Rightarrow> False) then removed + 1 else removed) d')"

definition DeduplicateQueue ::
  "'d Client \<Rightarrow> request_unmarshal \<Rightarrow> outcome \<Rightarrow> outcome list \<Rightarrow> 'd \<Rightarrow> (rq_error + int) \<times> 'd"
where
  "DeduplicateQueue c unm net nets d =
     (case c of
        None \<Rightarrow> (Inl ErrNotInitialized, d)
      | Some S \<Rightarrow>
     (case client_call net (\<lambda>d. S d (LRANGE KeyTaskQueue)) d of
        (Some (RMulti tasksRaw), d1) \<Rightarrow>
          if tasksRaw = [] then (Inr 0, d1)
          else (case lrem_all S nets (find_duplicates unm tasksRaw {} []) 0 d1 of
                  (removed, d2) \<Rightarrow> (Inr removed, d2))
      | (_, d1) \<Rightarrow> (Inl ErrRedis, d1)))"

section \<open>The five keys as one value\<close>

text \<open>
  What the operations see of the server: the contents of the five keys. \<open>queue_typed\<close> says
  that each key has the type the client gives it (or is missing), so that no command
  answers with a type error.
\<close>

record qview =
  q_tasks :: "string list"
  q_processing :: "string list"
  q_results :: "string list"
  q_pending :: "string set"
  q_started :: "(string \<times> string) list"

definition queue_typed :: "keyspace \<Rightarrow> bool" where
  "queue_typed ks \<longleftrightarrow>
     as_list (ks KeyTaskQueue) \<noteq> None \<and> as_list (ks KeyTaskProcessingQueue) \<noteq> None \<and>
     as_list (ks KeyResultQueue) \<noteq> None \<and> as_set (ks KeyTaskPendingSet) \<noteq> None \<and>
     as_hash (ks KeyTaskStartedHash) \<noteq> None"

definition qview_of :: "keyspace \<Rightarrow> qview" where
  "qview_of ks =
     \<lparr>q_tasks = the (as_list (ks KeyTaskQueue)),
      q_processing = the (as_list (ks KeyTaskProcessingQueue)),
      q_results = the (as_list (ks KeyResultQueue)),
      q_pending = the (as_set (ks KeyTaskPendingSet)),
      q_started = the (as_hash (ks KeyTaskStartedHash))\<rparr>"

lemma qview_of_sel [simp]:
  "q_tasks (qview_of ks) = the (as_list (ks KeyTaskQueue))"
  "q_processing (qview_of ks) = the (as_list (ks KeyTaskProcessingQueue))"
  "q_results (qview_of ks) = the (as_list (ks KeyResultQueue))"
  "q_pending (qview_of ks) = the (as_set (ks KeyTaskPendingSet))"
  "q_started (qview_of ks) = the (as_hash (ks KeyTaskStartedHash))"
  by (simp_all add: qview_of_def)

lemma queue_typed_empty [simp]: "queue_typed empty_keyspace"
  by (simp add: queue_typed_def empty_keyspace_def)

text \<open>The abstract counterpart of each atomic action.\<close>

definition push_view :: "string \<Rightarrow> string \<Rightarrow> qview \<Rightarrow> qview" where
  "push_view i raw q =
     (if i \<in> q_pending q then q
      else q\<lparr>q_tasks := raw # q_tasks q, q_pending := insert i (q_pending q)\<rparr>)"

definition pop_view :: "qview \<Rightarrow> qview" where
  "pop_view q =
     (if q_tasks q = [] then q
      else q\<lparr>q_tasks := butlast (q_tasks q), q_processing := last (q_tasks q) # q_processing q\<rparr>)"

definition ack_view :: "(string \<Rightarrow> bool) \<Rightarrow> string \<Rightarrow> qview \<Rightarrow> qview" where
  "ack_view matches i q =
     q\<lparr>q_processing := (case find matches (q_processing q) of
                          None \<Rightarrow> q_processing q | Some raw \<Rightarrow> remove1 raw (q_processing q)),
       q_pending := q_pending q - {i},
       q_started := AList.delete i (q_started q)\<rparr>"

definition rescue_view :: "string \<Rightarrow> string \<Rightarrow> qview \<Rightarrow> qview" where
  "rescue_view raw i q =
     (if raw \<in> set (q_processing q)
      then q\<lparr>q_processing := remove1 raw (q_processing q), q_tasks := raw # q_tasks q,
             q_started := AList.delete i (q_started q)\<rparr>
      else q)"

lemma qview_eqI:
  "q_tasks q = q_tasks r \<Longrightarrow> q_processing q = q_processing r \<Longrightarrow> q_results q = q_results r \<Longrightarrow>
   q_pending q = q_pending r \<Longrightarrow> q_started q = q_started r \<Longrightarrow> q = (r :: qview)"
  by simp

context redis_server
begin

abbreviation Q :: "'d \<Rightarrow> qview" where
  "Q d \<equiv> qview_of (view d)"

lemma pushTaskScript_effect [queue_simps]:
  assumes "queue_typed (view d)"
  shows "fst (pushTaskScript S [KeyTaskPendingSet, KeyTaskQueue] [i, raw] d) =
           RInt (if i \<in> q_pending (Q d) then 0 else 1)"
    and "Q (snd (pushTaskScript S [KeyTaskPendingSet, KeyTaskQueue] [i, raw] d)) =
           push_view i raw (Q d)"
    and "queue_typed (view (snd (pushTaskScript S [KeyTaskPendingSet, KeyTaskQueue] [i, raw] d)))"
  using assms
  by (auto simp: pushTaskScript_def queue_typed_def push_view_def redis_simps insert_absorb
      split: if_splits intro!: qview_eqI)

lemma pop_effect [queue_simps]:
  assumes "queue_typed (view d)"
  shows "fst (S d (BRPOPLPUSH KeyTaskQueue KeyTaskProcessingQueue)) =
           RBulk (if q_tasks (Q d) = [] then None else Some (last (q_tasks (Q d))))"
    and "Q (snd (S d (BRPOPLPUSH KeyTaskQueue KeyTaskProcessingQueue))) = pop_view (Q d)"
    and "queue_typed (view (snd (S d (BRPOPLPUSH KeyTaskQueue KeyTaskProcessingQueue))))"
  using assms
  by (auto simp: queue_typed_def pop_view_def redis_simps intro!: qview_eqI)

lemma rescueScript_effect [queue_simps]:
  assumes "queue_typed (view d)"
  shows "fst (rescueScript S [KeyTaskProcessingQueue, KeyTaskQueue, KeyTaskStartedHash] [raw, i] d) =
           RInt (if raw \<in> set (q_processing (Q d)) then 1 else 0)"
    and "Q (snd (rescueScript S [KeyTaskProcessingQueue, KeyTaskQueue, KeyTaskStartedHash] [raw, i] d)) =
           rescue_view raw i (Q d)"
    and "queue_typed (view (snd (rescueScript S
           [KeyTaskProcessingQueue, KeyTaskQueue, KeyTaskStartedHash] [raw, i] d)))"
  using assms
  by (auto simp: rescueScript_def queue_typed_def rescue_view_def redis_simps remove1_idem
      split: if_splits intro!: qview_eqI)

lemma ack_scan_find:
  "ack_scan S lp queue i cont xs d =
     (case find (\<lambda>raw. string_find lp raw (taskid_pattern i)) xs of
        None \<Rightarrow> cont 0 d
      | Some raw \<Rightarrow> redis_call S (LREM queue raw) (\<lambda>_. cont 1) d)"
  by (induction xs) auto

lemma ackTaskScript_effect:
  fixes lp :: "string \<Rightarrow> string \<Rightarrow> bool" and i :: string and d :: 'd
  assumes typed: "queue_typed (view d)"
  defines "m \<equiv> \<lambda>raw. string_find lp raw (taskid_pattern i)"
  defines "r \<equiv> ackTaskScript S lp [KeyTaskProcessingQueue, KeyTaskPendingSet, KeyTaskStartedHash] [i] d"
  shows "fst r = RInt (if find m (q_processing (Q d)) = None then 0 else 1)"
    and "Q (snd r) = ack_view m i (Q d)"
    and "queue_typed (view (snd r))"
proof -
  obtain xs ys zs P h where keys:
    "as_list (view d KeyTaskQueue) = Some xs" "as_list (view d KeyTaskProcessingQueue) = Some ys"
    "as_list (view d KeyResultQueue) = Some zs" "as_set (view d KeyTaskPendingSet) = Some P"
    "as_hash (view d KeyTaskStartedHash) = Some h"
    using typed by (auto simp: queue_typed_def)
  have *: "fst r = RInt (if find m ys = None then 0 else 1) \<and>
      Q (snd r) = ack_view m i (Q d) \<and> queue_typed (view (snd r))"
  proof (cases "find m ys")
    case None
    then show ?thesis
      unfolding r_def m_def
      by (simp add: keys ackTaskScript_def redis_simps ack_scan_find ack_view_def queue_typed_def
          qview_of_def)
  next
    case (Some raw)
    then show ?thesis
      unfolding r_def m_def
      by (simp add: keys ackTaskScript_def redis_simps ack_scan_find ack_view_def queue_typed_def
          qview_of_def)
  qed
  then show "fst r = RInt (if find m (q_processing (Q d)) = None then 0 else 1)"
    and "Q (snd r) = ack_view m i (Q d)" and "queue_typed (view (snd r))"
    by (simp_all add: keys)
qed

end

section \<open>At most one entry per task id\<close>

text \<open>
  What the client relies on of the JSON codec: decoding inverts encoding, and the text of a
  request with a decimal task id holds the \<^verbatim>\<open>"taskId":"..."\<close> member of that id and of no other.
\<close>

definition decimal :: "string \<Rightarrow> bool" where
  "decimal i \<longleftrightarrow> i \<noteq> [] \<and> (\<forall>c \<in> set i. is_digit c)"

definition protojson_codec :: "request_marshal \<Rightarrow> request_unmarshal \<Rightarrow> bool" where
  "protojson_codec mar unm \<longleftrightarrow>
     (\<forall>t raw. mar t = Some raw \<longrightarrow>
        unm raw = Some t \<and>
        (\<forall>i. decimal i \<longrightarrow> (Contains raw (taskid_pattern i) \<longleftrightarrow> FR_TaskId t = i)))"

definition raw_id :: "request_unmarshal \<Rightarrow> string \<Rightarrow> string" where
  "raw_id unm raw = (case unm raw of None \<Rightarrow> [] | Some t \<Rightarrow> FR_TaskId t)"

definition entry_ok :: "request_marshal \<Rightarrow> string \<Rightarrow> bool" where
  "entry_ok mar raw \<longleftrightarrow> (\<exists>t. mar t = Some raw \<and> decimal (FR_TaskId t))"

definition q_entries :: "qview \<Rightarrow> string list" where
  "q_entries q = q_tasks q @ q_processing q"

definition queue_inv :: "request_marshal \<Rightarrow> request_unmarshal \<Rightarrow> qview \<Rightarrow> bool" where
  "queue_inv mar unm q \<longleftrightarrow>
     (\<forall>raw \<in> set (q_entries q). entry_ok mar raw) \<and>
     distinct (map (raw_id unm) (q_entries q)) \<and>
     raw_id unm ` set (q_entries q) \<subseteq> q_pending q"

lemma decimal_no_magic: "decimal i \<Longrightarrow> c \<in> set (taskid_pattern i) \<Longrightarrow> \<not> lua_magic c"
  by (auto simp: decimal_def taskid_pattern_def lua_magic_def is_digit_def byte_def)

lemma string_find_entry:
  assumes "protojson_codec mar unm" and "entry_ok mar raw" and "decimal i"
  shows "string_find lp raw (taskid_pattern i) \<longleftrightarrow> raw_id unm raw = i"
proof -
  from assms(2) obtain t where t: "mar t = Some raw" by (auto simp: entry_ok_def)
  with assms(1,3) have "unm raw = Some t" "Contains raw (taskid_pattern i) \<longleftrightarrow> FR_TaskId t = i"
    by (auto simp: protojson_codec_def)
  moreover have "\<not> (\<exists>c \<in> set (taskid_pattern i). lua_magic c)"
    using assms(3) decimal_no_magic by blast
  ultimately show ?thesis by (simp add: string_find_def raw_id_def)
qed

lemma raw_id_marshal: "protojson_codec mar unm \<Longrightarrow> mar t = Some raw \<Longrightarrow> raw_id unm raw = FR_TaskId t"
  by (auto simp: protojson_codec_def raw_id_def)

lemma queue_inv_perm:
  assumes "queue_inv mar unm q" and "mset (q_entries r) = mset (q_entries q)"
    and "q_pending q \<subseteq> q_pending r"
  shows "queue_inv mar unm r"
proof -
  have "set (q_entries r) = set (q_entries q)" using assms(2) by (rule mset_eq_setD)
  moreover have "mset (map (raw_id unm) (q_entries r)) = mset (map (raw_id unm) (q_entries q))"
    using assms(2) by simp
  then have "distinct (map (raw_id unm) (q_entries r)) = distinct (map (raw_id unm) (q_entries q))"
    by (rule distinct_mset_eq)
  ultimately show ?thesis using assms(1,3) by (auto simp: queue_inv_def)
qed

lemma q_entries_pop: "mset (q_entries (pop_view q)) = mset (q_entries q)"
  using mset_butlast_last [of "q_tasks q"]
  by (auto simp: q_entries_def pop_view_def)

lemma q_entries_rescue: "mset (q_entries (rescue_view raw i q)) = mset (q_entries q)"
  by (simp add: q_entries_def rescue_view_def)

lemma pending_pop [simp]: "q_pending (pop_view q) = q_pending q"
  by (simp add: pop_view_def)

lemma pending_rescue [simp]: "q_pending (rescue_view raw i q) = q_pending q"
  by (simp add: rescue_view_def)

lemma queue_inv_push:
  assumes "queue_inv mar unm q" and "protojson_codec mar unm" and "mar t = Some raw"
    and "decimal (FR_TaskId t)"
  shows "queue_inv mar unm (push_view (FR_TaskId t) raw q)"
  using assms raw_id_marshal [OF assms(2,3)]
  by (auto simp: queue_inv_def push_view_def q_entries_def entry_ok_def)

lemma queue_inv_ack:
  assumes inv: "queue_inv mar unm q" and codec: "protojson_codec mar unm" and dec: "decimal i"
    and held: "i \<in> raw_id unm ` set (q_processing q)"
  shows "queue_inv mar unm (ack_view (\<lambda>raw. string_find lp raw (taskid_pattern i)) i q)"
proof -
  let ?m = "\<lambda>raw. string_find lp raw (taskid_pattern i)"
  have match: "?m raw \<longleftrightarrow> raw_id unm raw = i" if "raw \<in> set (q_processing q)" for raw
    using that inv string_find_entry [OF codec _ dec] by (auto simp: queue_inv_def q_entries_def)
  from held obtain r0 where r0: "r0 \<in> set (q_processing q)" "?m r0" using match by auto
  then obtain raw where raw: "find ?m (q_processing q) = Some raw"
    using find_Some_iff_ex [of ?m "q_processing q"] by auto
  then have "raw \<in> set (q_processing q)" and idr: "raw_id unm raw = i"
    using find_SomeD [OF raw] match by auto
  then obtain ps qs where split: "q_processing q = ps @ raw # qs" "raw \<notin> set ps"
    by (meson split_list_first)
  have rem: "remove1 raw (q_processing q) = ps @ qs"
    using split by (simp add: remove1_append)
  have "queue_inv mar unm (q\<lparr>q_processing := ps @ qs, q_pending := q_pending q - {i},
            q_started := AList.delete i (q_started q)\<rparr>)"
    using inv idr split by (auto simp: queue_inv_def q_entries_def) (metis imageI)+
  then show ?thesis by (simp add: ack_view_def raw rem)
qed

section \<open>Interleavings of the atomic actions\<close>

text \<open>
  Every request is one atomic action on the server, whoever sends it: several crawlers, the
  scheduler and several janitors run at the same time, so the actions of their operations
  interleave freely. An acknowledgement is only sent for a task the crawler took and that
  has not been handed back since; that is the guard of the \<open>ack\<close> rule (\<^verbatim>\<open>Fleet\<close> derives it from the
  program's timeouts).
\<close>

inductive queue_step ::
  "'d server \<Rightarrow> ('d \<Rightarrow> keyspace) \<Rightarrow> request_marshal \<Rightarrow> request_unmarshal \<Rightarrow>
   (string \<Rightarrow> string \<Rightarrow> bool) \<Rightarrow> 'd \<Rightarrow> 'd \<Rightarrow> bool"
  for S view mar unm lp
where
  push: "mar t = Some raw \<Longrightarrow> decimal (FR_TaskId t) \<Longrightarrow>
     queue_step S view mar unm lp d
       (snd (pushTaskScript S [KeyTaskPendingSet, KeyTaskQueue] [FR_TaskId t, raw] d))"
| pop: "queue_step S view mar unm lp d (snd (S d (BRPOPLPUSH KeyTaskQueue KeyTaskProcessingQueue)))"
| mark: "queue_step S view mar unm lp d (snd (S d (HSET KeyTaskStartedHash i ts)))"
| ack: "decimal i \<Longrightarrow> i \<in> raw_id unm ` set (q_processing (qview_of (view d))) \<Longrightarrow>
     queue_step S view mar unm lp d
       (snd (ackTaskScript S lp [KeyTaskProcessingQueue, KeyTaskPendingSet, KeyTaskStartedHash] [i] d))"
| rescue: "queue_step S view mar unm lp d
       (snd (rescueScript S [KeyTaskProcessingQueue, KeyTaskQueue, KeyTaskStartedHash] [raw, i] d))"
| orphan: "queue_step S view mar unm lp d (snd (S d (HDEL KeyTaskStartedHash i)))"
| result_in: "queue_step S view mar unm lp d (snd (S d (LPUSH KeyResultQueue raw)))"
| result_out: "queue_step S view mar unm lp d (snd (S d (BRPOP KeyResultQueue)))"
| inspect: "c \<in> {HGETALL KeyTaskStartedHash, LRANGE KeyTaskProcessingQueue, LLEN KeyTaskQueue,
                 LLEN KeyResultQueue, SCARD KeyTaskPendingSet} \<Longrightarrow>
     queue_step S view mar unm lp d (snd (S d c))"

context redis_server
begin

lemma mark_effect [queue_simps]:
  assumes "queue_typed (view d)"
  shows "Q (snd (S d (HSET KeyTaskStartedHash i ts))) =
           (Q d)\<lparr>q_started := AList.update i ts (q_started (Q d))\<rparr>"
    and "queue_typed (view (snd (S d (HSET KeyTaskStartedHash i ts))))"
  using assms by (auto simp: queue_typed_def redis_simps intro!: qview_eqI)

lemma orphan_effect [queue_simps]:
  assumes "queue_typed (view d)"
  shows "Q (snd (S d (HDEL KeyTaskStartedHash i))) =
           (Q d)\<lparr>q_started := AList.delete i (q_started (Q d))\<rparr>"
    and "queue_typed (view (snd (S d (HDEL KeyTaskStartedHash i))))"
  using assms by (auto simp: queue_typed_def redis_simps intro!: qview_eqI)

lemma result_in_effect [queue_simps]:
  assumes "queue_typed (view d)"
  shows "Q (snd (S d (LPUSH KeyResultQueue raw))) = (Q d)\<lparr>q_results := raw # q_results (Q d)\<rparr>"
    and "queue_typed (view (snd (S d (LPUSH KeyResultQueue raw))))"
  using assms by (auto simp: queue_typed_def redis_simps intro!: qview_eqI)

lemma result_out_effect [queue_simps]:
  assumes "queue_typed (view d)"
  shows "Q (snd (S d (BRPOP KeyResultQueue))) = (Q d)\<lparr>q_results := butlast (q_results (Q d))\<rparr>"
    and "queue_typed (view (snd (S d (BRPOP KeyResultQueue))))"
  using assms by (auto simp: queue_typed_def redis_simps split: if_splits intro!: qview_eqI)

lemma inspect_effect:
  assumes "queue_typed (view d)"
    and "c \<in> {HGETALL KeyTaskStartedHash, LRANGE KeyTaskProcessingQueue, LLEN KeyTaskQueue,
              LLEN KeyResultQueue, SCARD KeyTaskPendingSet, LRANGE KeyTaskQueue}"
  shows "view (snd (S d c)) = view d"
  using assms by (auto simp: queue_typed_def redis_simps)

definition good :: "request_marshal \<Rightarrow> request_unmarshal \<Rightarrow> 'd \<Rightarrow> bool" where
  "good mar unm d \<longleftrightarrow> queue_typed (view d) \<and> queue_inv mar unm (Q d)"

lemma queue_step_good:
  assumes step: "queue_step S view mar unm lp d d'" and good: "good mar unm d"
    and codec: "protojson_codec mar unm"
  shows "good mar unm d'"
  using step
proof cases
  case (push t raw)
  then show ?thesis
    using good codec queue_inv_push [of mar unm "Q d" t raw]
    by (simp add: good_def pushTaskScript_effect)
next
  case pop
  then show ?thesis
    using good queue_inv_perm [of mar unm "Q d" "pop_view (Q d)"]
    by (simp add: good_def pop_effect q_entries_pop)
next
  case (mark i ts)
  then show ?thesis
    using good queue_inv_perm [of mar unm "Q d" "Q d'"]
    by (simp add: good_def mark_effect q_entries_def)
next
  case (ack i)
  then show ?thesis
    using good codec queue_inv_ack [of mar unm "Q d" i lp]
    by (simp add: good_def ackTaskScript_effect)
next
  case (rescue raw i)
  then show ?thesis
    using good queue_inv_perm [of mar unm "Q d" "rescue_view raw i (Q d)"]
    by (simp add: good_def rescueScript_effect q_entries_rescue)
next
  case (orphan i)
  then show ?thesis
    using good queue_inv_perm [of mar unm "Q d" "Q d'"]
    by (simp add: good_def orphan_effect q_entries_def)
next
  case (result_in raw)
  then show ?thesis
    using good queue_inv_perm [of mar unm "Q d" "Q d'"]
    by (simp add: good_def result_in_effect q_entries_def)
next
  case result_out
  then show ?thesis
    using good queue_inv_perm [of mar unm "Q d" "Q d'"]
    by (simp add: good_def result_out_effect q_entries_def)
next
  case (inspect c)
  then show ?thesis using good inspect_effect [of d c] by (auto simp: good_def)
qed

end

end
