(* ===== verification/Crawler.thy ===== *)
theory Crawler
  imports Complex_Main Browser MercariURL RedisQueue
begin

text \<open>
  The crawler service of \<^verbatim>\<open>internal/crawler\<close>: one crawl of a search page (\<^verbatim>\<open>crawl.go\<close>), the switch between
  direct connection and proxy with its shared failure counter (\<^verbatim>\<open>proxy.go\<close>), the constructor
  (\<^verbatim>\<open>service.go\<close>), the goroutine of one task and the loop that starts them.

  The browser is an argument: what it does during one crawl is the record \<open>visit\<close>, and what happens
  around one attempt (clock, start of a browser, health of the proxy) the record \<open>attempt\<close>. The
  Redis connection is an argument as in \<^verbatim>\<open>Throttle\<close>. The metrics are those of
  \<^verbatim>\<open>CrawlMetrics\<close> and the commands to the page those of \<^verbatim>\<open>PageVisit\<close>; log lines are left out. The simulated behaviour (\<^verbatim>\<open>PageSetup\<close>) and the
  screenshots (\<^verbatim>\<open>Diagnostics\<close>) change nothing of what a crawl returns.
\<close>

section \<open>The service\<close>

definition rateLimitKey :: string where "rateLimitKey = ''goodshunter:ratelimit:global''"
definition proxyCooldownKey :: string where "proxyCooldownKey = ''goodshunter:proxy:cooldown''"
definition consecutiveFailuresKey :: string where "consecutiveFailuresKey = ''goodshunter:crawler:consecutive_failures''"

abbreviation (input) consecutiveFailuresTTL :: duration where "consecutiveFailuresTTL \<equiv> 10 * Minute"

text \<open>What the service was configured with.\<close>

record 'w crawler_env =
  ce_rdb :: "'w redis_conn option"
  ce_rateLimited :: bool
  ce_parse :: url_parse
  ce_BinPath :: string
  ce_ProxyURL :: string
  ce_ProxyCooldown :: duration
  ce_proxyFailureThreshold :: int
  ce_proxyAutoSwitch :: bool
  ce_maxTasks :: nat
  ce_maxFetchCount :: int
  ce_marshal :: "cookie list \<Rightarrow> string option"
  ce_unmarshal :: "string \<Rightarrow> cookie list option"
  ce_ul :: "string \<Rightarrow> string"

text \<open>A start of a browser with these settings.\<close>

definition launch :: "'w crawler_env \<Rightarrow> browser_start \<Rightarrow> bool \<Rightarrow> crawl_err + browser" where
  "launch env b useProxy = startBrowser (ce_parse env) (ce_BinPath env) (ce_ProxyURL env) b useProxy"

lemma launch_starts_as_asked: "starts_as_asked (launch env b)"
  using startBrowser_starts_as_asked by (simp add: launch_def starts_as_asked_def)

text \<open>
  The constructor: the first browser, the connection to Redis (\<open>ping\<close> is its error), and the settings
  with their defaults; \<open>force\<close> is the variable \<^verbatim>\<open>FORCE_PROXY_ONCE\<close>.
\<close>

definition force_proxy :: "(string \<Rightarrow> string) \<Rightarrow> string \<Rightarrow> bool" where
  "force_proxy ul v \<longleftrightarrow> ToLower ul (TrimSpace v) \<in> {''1'', ''true'', ''yes''}"

definition NewService ::
  "browser_start \<Rightarrow> crawl_err option \<Rightarrow> real \<Rightarrow> real \<Rightarrow> int \<Rightarrow> int \<Rightarrow> string \<Rightarrow> 'w crawler_env \<Rightarrow>
   crawl_err + ('w crawler_env \<times> Service)"
where
  "NewService b ping rateLimit rateBurst maxTasks threshold force cfg =
     (case launch cfg b False of
        Inl e \<Rightarrow> Inl e
      | Inr br \<Rightarrow>
          (case ping of
             Some e \<Rightarrow> Inl (wrap_err ''connect redis'' e)
           | None \<Rightarrow> Inr
               (cfg\<lparr>ce_rateLimited := 0 < rateLimit \<and> 0 < rateBurst,
                    ce_maxTasks := (if 0 < maxTasks then nat maxTasks else 0),
                    ce_proxyFailureThreshold := (if 0 < threshold then threshold else 10)\<rparr>,
                \<lparr>sv_browser = Some br, sv_currentIsProxy = False, sv_proxyCache = False, sv_proxyCacheUntil = zero_time,
                 sv_forceProxyOnce = force_proxy (ce_ul cfg) force, sv_taskCounter = 0, sv_restartCh = False,
                 sv_TotalProcessed = 0, sv_TotalSucceeded = 0, sv_TotalFailed = 0, sv_TotalPanics = 0,
                 sv_draining = False, sv_activePages = 0, sv_drainComplete = None,
                 sv_cookieManager = NewCookieManager, sv_adaptiveThrottler = NewAdaptiveThrottler\<rparr>)))"

section \<open>Direct connection and proxy\<close>

definition getProxyState :: "'w crawler_env \<Rightarrow> gotime \<Rightarrow> Service \<Rightarrow> 'w \<Rightarrow> bool \<times> Service \<times> 'w" where
  "getProxyState env now s w =
     (if now < sv_proxyCacheUntil s then (sv_proxyCache s, s, w)
      else case ce_rdb env of
        None \<Rightarrow> (False, s, w)
      | Some R \<Rightarrow>
          (case R now w (EXISTS proxyCooldownKey) of
             (Some (RInt n), w1) \<Rightarrow>
               (0 < n, s\<lparr>sv_proxyCache := 0 < n, sv_proxyCacheUntil := now + proxyCacheTTL\<rparr>, w1)
           | (_, w1) \<Rightarrow> (sv_proxyCache s, s, w1)))"

text \<open>\<open>start\<close> is how a new browser starts, and \<open>later\<close> the clock after a failed start.\<close>

definition ensureBrowserState ::
  "'w crawler_env \<Rightarrow> gotime \<Rightarrow> gotime \<Rightarrow> browser_start \<Rightarrow> Service \<Rightarrow> 'w \<Rightarrow> crawl_err option \<times> Service \<times> 'w"
where
  "ensureBrowserState env now later start s w =
     (case getProxyState env now s w of
        (shouldUseProxy, s1, w1) \<Rightarrow>
          if shouldUseProxy = sv_currentIsProxy s1 then (None, s1, w1)
          else (case rotateBrowser (launch env start) shouldUseProxy s1 of
                  (Some e, s2) \<Rightarrow>
                    (Some e,
                     if shouldUseProxy then s2\<lparr>sv_proxyCache := False, sv_proxyCacheUntil := later + proxyCacheTTL\<rparr> else s2,
                     w1)
                | (None, s2) \<Rightarrow> (None, s2\<lparr>sv_currentIsProxy := shouldUseProxy\<rparr>, w1)))"

definition setProxyCooldown ::
  "'w crawler_env \<Rightarrow> gotime \<Rightarrow> duration \<Rightarrow> Service \<Rightarrow> 'w \<Rightarrow> crawl_err option \<times> Service \<times> 'w"
where
  "setProxyCooldown env now d s w =
     (let d1 = (if d \<le> 0 then ce_ProxyCooldown env else d) in
      case ce_rdb env of
        None \<Rightarrow> (Some (Errorf ''redis client is not initialized''), s, w)
      | Some R \<Rightarrow>
          (None, s\<lparr>sv_proxyCache := True, sv_proxyCacheUntil := now + proxyCacheTTL\<rparr>,
           snd (R now w (SET proxyCooldownKey ''1'' d1))))"

definition ClearProxyCooldown ::
  "'w crawler_env \<Rightarrow> gotime \<Rightarrow> Service \<Rightarrow> 'w \<Rightarrow> crawl_err option \<times> Service \<times> 'w"
where
  "ClearProxyCooldown env now s w =
     (case ce_rdb env of
        None \<Rightarrow> (Some (Errorf ''redis client is not initialized''), s, w)
      | Some R \<Rightarrow>
          (None, s\<lparr>sv_proxyCache := False, sv_proxyCacheUntil := now + proxyCacheTTL\<rparr>,
           snd (R now w (TDEL proxyCooldownKey))))"

definition isUsingProxy :: "Service \<Rightarrow> bool" where
  "isUsingProxy s = sv_currentIsProxy s"

definition incrConsecutiveFailures :: "'w crawler_env \<Rightarrow> gotime \<Rightarrow> 'w \<Rightarrow> int \<times> 'w" where
  "incrConsecutiveFailures env now w =
     (case ce_rdb env of
        None \<Rightarrow> (0, w)
      | Some R \<Rightarrow>
          (case R now w (INCR consecutiveFailuresKey) of
             (Some (RInt n), w1) \<Rightarrow> (n, snd (R now w1 (EXPIRE consecutiveFailuresKey consecutiveFailuresTTL)))
           | (_, w1) \<Rightarrow> (0, w1)))"

definition resetConsecutiveFailures :: "'w crawler_env \<Rightarrow> gotime \<Rightarrow> 'w \<Rightarrow> 'w" where
  "resetConsecutiveFailures env now w =
     (case ce_rdb env of None \<Rightarrow> w | Some R \<Rightarrow> snd (R now w (TDEL consecutiveFailuresKey)))"

definition getConsecutiveFailures :: "'w crawler_env \<Rightarrow> gotime \<Rightarrow> 'w \<Rightarrow> int \<times> 'w" where
  "getConsecutiveFailures env now w =
     (case ce_rdb env of
        None \<Rightarrow> (0, w)
      | Some R \<Rightarrow>
          (case R now w (GET consecutiveFailuresKey) of
             (Some (RBulk (Some v)), w1) \<Rightarrow> (case ParseInt64 v of (n, None) \<Rightarrow> (n, w1) | _ \<Rightarrow> (0, w1))
           | (_, w1) \<Rightarrow> (0, w1)))"

text \<open>One health check of the proxy: the test browser, the page, its loading, title and text.\<close>

record health_check =
  hc_ended :: bool \<comment> \<open>the context ended before the check\<close>
  hc_start :: browser_start
  hc_page :: bool
  hc_loaded :: bool
  hc_title :: "string option"
  hc_body :: string
  hc_interrupted :: bool \<comment> \<open>the context ended during the pause after the check\<close>

definition checkProxyHealth :: "'w crawler_env \<Rightarrow> health_check \<Rightarrow> bool" where
  "checkProxyHealth env h =
     (if ce_ProxyURL env = [] then False
      else if isl (launch env (hc_start h) True) \<or> \<not> hc_page h \<or> \<not> hc_loaded h then False
      else case hc_title h of
             None \<Rightarrow> False
           | Some title \<Rightarrow>
               if title \<noteq> [] \<and> title \<noteq> ''about:blank'' \<and> Contains (hc_body h) ''origin'' then True
               else title \<noteq> ''about:blank'')"

text \<open>\<open>i\<close> counts the checks done, \<open>n\<close> those left.\<close>

fun checkProxyHealthWithRetry :: "'w crawler_env \<Rightarrow> (nat \<Rightarrow> health_check) \<Rightarrow> nat \<Rightarrow> nat \<Rightarrow> bool" where
  "checkProxyHealthWithRetry env hs i 0 = False"
| "checkProxyHealthWithRetry env hs i (Suc n) =
     (if hc_ended (hs i) then False
      else if checkProxyHealth env (hs i) then True
      else if n = 0 then False
      else if hc_interrupted (hs i) then False
      else checkProxyHealthWithRetry env hs (Suc i) n)"

section \<open>One crawl\<close>

text \<open>
  The rate limiter while waiting: an error or a token lets the crawl go on, a refusal waits for the
  next of the three channels. \<open>None\<close> is a loop that is still waiting when the events end.
\<close>

datatype wake = CtxDone | MaxWait | Tick
datatype rate_event = RateError | Allowed | Refused wake

fun rateLimitLoop :: "rate_event list \<Rightarrow> bool option" where
  "rateLimitLoop [] = None"
| "rateLimitLoop (RateError # es) = Some True"
| "rateLimitLoop (Allowed # es) = Some True"
| "rateLimitLoop (Refused CtxDone # es) = Some False"
| "rateLimitLoop (Refused MaxWait # es) = Some True"
| "rateLimitLoop (Refused Tick # es) = rateLimitLoop es"

datatype step_outcome = StepOk | StepErr crawl_err | StepTimeout | StepCtx crawl_err
datatype 'e elements_outcome = Elements "'e list" | ElementsErr crawl_err | ElementsTimeout crawl_err
datatype race_hit = HitItems | HitEmptyState | HitChallenge
datatype race_outcome = ItemsFound | NoItemsState | ChallengePage | RaceErr crawl_err

record 'e visit =
  vs_now :: gotime
  vs_rate :: "rate_event list"
  vs_ctx :: crawl_err \<comment> \<open>the error of the ended context\<close>
  vs_jitter_ended :: bool
  vs_page :: step_outcome
  vs_stealth :: step_outcome
  vs_skip_cookies :: bool
  vs_apply_ok :: bool
  vs_navigate :: step_outcome
  vs_info :: "(string \<times> string) option"
  vs_dom :: "'e dom"
  vs_root :: 'e
  vs_race_reply :: "(crawl_err + race_hit) option" \<comment> \<open>\<open>None\<close> when the time for it ended\<close>
  vs_race_ctx :: crawl_err
  vs_empties :: "nat option"
  vs_elements :: "'e elements_outcome"
  vs_cookies :: "cookie list option"
  vs_rnd :: duration

text \<open>The wait for the first of three elements, within the time for it.\<close>

definition vs_race :: "'e visit \<Rightarrow> race_outcome" where
  "vs_race v =
     (case vs_race_reply v of
        None \<Rightarrow> RaceErr (wrap_err ''race timeout'' (vs_race_ctx v))
      | Some (Inl e) \<Rightarrow> RaceErr e
      | Some (Inr HitItems) \<Rightarrow> ItemsFound
      | Some (Inr HitEmptyState) \<Rightarrow> NoItemsState
      | Some (Inr HitChallenge) \<Rightarrow> ChallengePage)"

text \<open>A block: cookies go on a 403, and the throttler may send the crawler to sleep.\<close>

definition handleBlockEvent :: "'w crawler_env \<Rightarrow> gotime \<Rightarrow> duration \<Rightarrow> string \<Rightarrow> Service \<Rightarrow> 'w \<Rightarrow> Service \<times> 'w" where
  "handleBlockEvent env now rnd blockType s w =
     (case (if blockType = ''403_forbidden'' then ClearCookies (ce_rdb env) now (sv_cookieManager s) w
            else (sv_cookieManager s, w)) of
        (cm, w1) \<Rightarrow>
          (case RecordBlock (ce_rdb env) now rnd (sv_adaptiveThrottler s) w1 of
             (None, th, w2) \<Rightarrow> (s\<lparr>sv_cookieManager := cm, sv_adaptiveThrottler := th\<rparr>, w2)
           | (Some d, th, w2) \<Rightarrow> (s\<lparr>sv_cookieManager := cm, sv_adaptiveThrottler := ExitCooldown th\<rparr>, w2)))"

text \<open>
  Scrolling until enough items are there: \<open>before\<close> and \<open>after\<close> are what the browser answers when the
  items are counted before and after one scroll, \<open>expired\<close> the end of the time for it. The result is the
  number of scrolls, and \<open>None\<close> a loop that still runs when the rounds end.
\<close>

record scroll_round =
  sr_before :: "(crawl_err + nat) option"
  sr_expired :: bool
  sr_after :: "(crawl_err + nat) option"

text \<open>The loop only asks whether the count failed.\<close>

definition countItems :: "(crawl_err + nat) option \<Rightarrow> crawl_err + nat" where
  "countItems reply =
     (case reply of None \<Rightarrow> Inl (Errorf ''count items timeout'') | Some (Inl e) \<Rightarrow> Inl e | Some (Inr n) \<Rightarrow> Inr n)"

fun scrollLoop :: "int \<Rightarrow> scroll_round list \<Rightarrow> nat \<Rightarrow> nat option" where
  "scrollLoop limit [] noGrowth = None"
| "scrollLoop limit (r # rs) noGrowth =
     (case countItems (sr_before r) of
        Inl _ \<Rightarrow> Some 0
      | Inr cur \<Rightarrow>
          if limit \<le> int cur then Some 0
          else if sr_expired r then Some 1
          else (case countItems (sr_after r) of
                  Inl _ \<Rightarrow> Some 1
                | Inr aft \<Rightarrow>
                    if aft \<le> cur
                    then (if 3 \<le> Suc noGrowth \<and> 0 < cur then Some 1
                          else map_option Suc (scrollLoop limit rs (Suc noGrowth)))
                    else map_option Suc (scrollLoop limit rs 0)))"

text \<open>The deadline ends the loop at the latest; nothing else ends it while the page stays empty.\<close>

lemma scrolling_ends_by_the_deadline: "\<exists>r \<in> set rs. sr_expired r \<Longrightarrow> scrollLoop limit rs n \<noteq> None"
proof (induction rs arbitrary: n)
  case (Cons r rs)
  then have "sr_expired r \<or> (\<forall>n. scrollLoop limit rs n \<noteq> None)" by auto
  then show ?case by (auto split: sum.split)
qed simp

lemma scrolling_ends_without_growth:
  assumes "0 < c" and "int c < limit"
  shows "scrollLoop limit (replicate 3 \<lparr>sr_before = Some (Inr c), sr_expired = False, sr_after = Some (Inr c)\<rparr> @ rs) 0 = Some 3"
  using assms by (simp add: numeral_3_eq_3 countItems_def)

definition fetch_limit :: "'w crawler_env \<Rightarrow> int" where
  "fetch_limit env = (if ce_maxFetchCount env \<le> 0 then 50 else ce_maxFetchCount env)"

fun collect_items :: "(string \<Rightarrow> string) \<Rightarrow> 'e dom \<Rightarrow> int \<Rightarrow> int \<Rightarrow> 'e list \<Rightarrow> pb_Item list \<Rightarrow> pb_Item list" where
  "collect_items ul d limit platform [] acc = acc"
| "collect_items ul d limit platform (el # els) acc =
     (if limit \<le> int (length acc) then acc
      else case extractItem ul d el of
             Inl e \<Rightarrow> collect_items ul d limit platform els acc
           | Inr it \<Rightarrow> collect_items ul d limit platform els
                         (acc @ [it\<lparr>PI_Platform := platform, PI_Currency := ''JPY''\<rparr>]))"

definition ok_response :: "pb_Item list \<Rightarrow> string \<Rightarrow> FetchResponse" where
  "ok_response its msg =
     \<lparr>FP_Items = its, FP_TotalFound = int32 (int (length its)), FP_ErrorMessage = msg, FP_TaskId = []\<rparr>"

text \<open>The result of a crawl: a response or an error, the service and the world after it.\<close>

type_synonym 'w crawl_result = "(crawl_err + FetchResponse) \<times> Service \<times> 'w"

definition block_reply :: "'w crawler_env \<Rightarrow> 'e visit \<Rightarrow> string \<Rightarrow> Service \<Rightarrow> 'w \<Rightarrow> 'w crawl_result" where
  "block_reply env v blockType s w =
     (case handleBlockEvent env (vs_now v) (vs_rnd v) blockType s w of
        (s1, w1) \<Rightarrow> (Inl (Errorf (''blocked_page: '' @ blockType)), s1, w1))"

text \<open>Reading the items off the page, once it shows some.\<close>

definition read_items :: "'w crawler_env \<Rightarrow> 'e visit \<Rightarrow> FetchRequest \<Rightarrow> Service \<Rightarrow> 'w \<Rightarrow> 'w crawl_result" where
  "read_items env v req s w =
     (case vs_elements v of
        ElementsErr e \<Rightarrow> (Inl (wrap_err ''get elements'' e), s, w)
      | ElementsTimeout e \<Rightarrow> (Inl (wrap_err ''get elements timeout'' e), s, w)
      | Elements els \<Rightarrow>
          if els = [] then (Inr (ok_response [] []), s, w)
          else let its = collect_items (ce_ul env) (vs_dom v) (fetch_limit env) (FR_Platform req) els [];
                   (cm, w1) =
                     (if its \<noteq> []
                      then (case SaveCookies (ce_marshal env) (ce_rdb env) (vs_now v) (vs_cookies v) (sv_cookieManager s) w of
                              (_, cm, w1) \<Rightarrow> (cm, w1))
                      else (sv_cookieManager s, w));
                   (th, w2) = RecordSuccess (ce_rdb env) (vs_now v) (sv_adaptiveThrottler s) w1
               in (Inr (ok_response its []), s\<lparr>sv_cookieManager := cm, sv_adaptiveThrottler := th\<rparr>, w2))"

text \<open>The wait for items has failed: nothing found, a challenge, a block or an error.\<close>

definition no_items_reply :: "'w crawler_env \<Rightarrow> 'e visit \<Rightarrow> Service \<Rightarrow> 'w \<Rightarrow> 'w crawl_result" where
  "no_items_reply env v s w =
     (if vs_race v = NoItemsState \<or> isNoItemsPage (vs_dom v) (vs_root v) (vs_empties v)
      then (Inr (ok_response [] ''no_items''), s, w)
      else if vs_race v = ChallengePage then (Inl (Errorf ''blocked_page: challenge''), s, w)
      else if isBlockedPage (ce_ul env) (vs_dom v) (vs_root v) (vs_info v)
      then block_reply env v
             (case vs_info v of
                None \<Rightarrow> ''unknown''
              | Some (title, _) \<Rightarrow> detectBlockType (ce_ul env) title (getPageBodyText (vs_dom v) (vs_root v))) s w
      else (Inl (case vs_race v of RaceErr e \<Rightarrow> wrap_err ''wait for items'' e | _ \<Rightarrow> Errorf ''wait for items''), s, w))"

definition inspect_page :: "'w crawler_env \<Rightarrow> 'e visit \<Rightarrow> FetchRequest \<Rightarrow> Service \<Rightarrow> 'w \<Rightarrow> 'w crawl_result" where
  "inspect_page env v req s w =
     (if (case vs_info v of Some (title, _) \<Rightarrow> title = ''about:blank'' \<or> title = [] | None \<Rightarrow> False)
      then block_reply env v (detectBlockType (ce_ul env) (fst (the (vs_info v))) []) s w
      else let domBlockType = detectBlockTypeFromPage (vs_dom v) (vs_root v) in
        if domBlockType \<noteq> [] then block_reply env v domBlockType s w
        else if vs_race v \<noteq> ItemsFound then no_items_reply env v s w
        else read_items env v req s w)"

text \<open>The page is there: cookies, navigation, inspection.\<close>

definition visit_page :: "'w crawler_env \<Rightarrow> 'e visit \<Rightarrow> FetchRequest \<Rightarrow> Service \<Rightarrow> 'w \<Rightarrow> 'w crawl_result" where
  "visit_page env v req s w =
     (case LoadCookies (ce_unmarshal env) (ce_rdb env) (vs_now v) (vs_skip_cookies v) (vs_apply_ok v) (sv_cookieManager s) w of
        (_, cm, w1) \<Rightarrow>
          let s1 = s\<lparr>sv_cookieManager := cm\<rparr> in
          (case vs_navigate v of
             StepErr e \<Rightarrow> (Inl (wrap_err ''navigate'' e), s1, w1)
           | StepTimeout \<Rightarrow> (Inl (wrap_err ''navigate timeout'' (vs_ctx v)), s1, w1)
           | StepCtx e \<Rightarrow> (Inl (wrap_err ''navigate timeout'' e), s1, w1)
           | StepOk \<Rightarrow> inspect_page env v req s1 w1))"

definition open_page :: "'w crawler_env \<Rightarrow> 'e visit \<Rightarrow> FetchRequest \<Rightarrow> Service \<Rightarrow> 'w \<Rightarrow> 'w crawl_result" where
  "open_page env v req s w =
     (case vs_page v of
        StepErr e \<Rightarrow> (Inl (wrap_err ''create page failed'' e), s, w)
      | StepTimeout \<Rightarrow> (Inl (Errorf ''create page timeout after 10s''), s, w)
      | StepCtx e \<Rightarrow> (Inl (wrap_err ''context cancelled during page creation'' e), s, w)
      | StepOk \<Rightarrow>
          (case vs_stealth v of
             StepErr e \<Rightarrow> (Inl (wrap_err ''apply stealth script'' e), s, w)
           | StepTimeout \<Rightarrow> (Inl (Errorf ''apply stealth script timeout after 5s''), s, w)
           | StepCtx e \<Rightarrow> (Inl (wrap_err ''context cancelled during stealth script'' e), s, w)
           | StepOk \<Rightarrow> visit_page env v req s w))"

text \<open>
  The address the page is sent to is \<open>BuildMercariURL req\<close>; it is part of what \<open>vs_navigate\<close> answers
  to. A wait for the rate limiter ends with its events.
\<close>

definition crawlOnce :: "'w crawler_env \<Rightarrow> 'e visit \<Rightarrow> FetchRequest \<Rightarrow> Service \<Rightarrow> 'w \<Rightarrow> 'w crawl_result" where
  "crawlOnce env v req s w =
     (if ce_rateLimited env \<and> rateLimitLoop (vs_rate v) \<noteq> Some True
      then (Inl (wrap_err ''rate limit wait timeout'' (vs_ctx v)), s, w)
      else if \<not> isUsingProxy s \<and> vs_jitter_ended v
      then (Inl (wrap_err ''context cancelled during jitter'' (vs_ctx v)), s, w)
      else (case trackPageStart s of
              (None, s1) \<Rightarrow> (Inl (Errorf ''browser draining, task needs retry''), s1, w)
            | (Some b, s1) \<Rightarrow>
                (case open_page env v req s1 w of (r, s2, w2) \<Rightarrow> (r, trackPageEnd s2, w2))))"

section \<open>Attempts\<close>

text \<open>
  What happens around one attempt: the clock before and after the crawl, the start of a browser when
  the mode changes (and the clock after it), the visit, the health checks of the proxy, and whether
  the task's context has ended after them.
\<close>

record 'e attempt =
  at_now :: gotime
  at_started :: gotime
  at_start :: browser_start
  at_visit :: "'e visit"
  at_end :: gotime
  at_health :: "nat \<Rightarrow> health_check"
  at_ended :: bool

text \<open>
  A failed attempt, decided: the error ends the crawl, or the proxy is activated and the crawl
  tried again (\<open>None\<close>).
\<close>

definition failed_attempt ::
  "'w crawler_env \<Rightarrow> 'e attempt \<Rightarrow> nat \<Rightarrow> crawl_err \<Rightarrow> Service \<Rightarrow> 'w \<Rightarrow> crawl_err option \<times> Service \<times> 'w"
where
  "failed_attempt env a i err s w =
     (case incrConsecutiveFailures env (at_end a) w of
        (failureCount, w1) \<Rightarrow>
          if ce_proxyAutoSwitch env \<and> i = 0 \<and> \<not> isUsingProxy s \<and> shouldActivateProxy (ce_ul env) (Some err)
          then if failureCount < ce_proxyFailureThreshold env then (Some err, s, w1)
               else if \<not> checkProxyHealthWithRetry env (at_health a) 0 2
               then (Some (wrap_err ''direct failed and proxy unhealthy'' err), s, w1)
               else (case setProxyCooldown env (at_end a) (ce_ProxyCooldown env) s
                            (resetConsecutiveFailures env (at_end a) w1) of
                       (_, s2, w2) \<Rightarrow>
                         if at_ended a then (Some (wrap_err ''proxy activated, task needs retry'' err), s2, w2)
                         else (None, s2, w2))
          else (Some err, s, w1))"

function doCrawl ::
  "'w crawler_env \<Rightarrow> (nat \<Rightarrow> 'e attempt) \<Rightarrow> FetchRequest \<Rightarrow> nat \<Rightarrow> Service \<Rightarrow> 'w \<Rightarrow> 'w crawl_result"
where
  "doCrawl env as req i s w =
     (case ensureBrowserState env (at_now (as i)) (at_started (as i)) (at_start (as i)) s w of
        (Some e, s1, w1) \<Rightarrow> (Inl (wrap_err ''ensure browser state'' e), s1, w1)
      | (None, s1, w1) \<Rightarrow>
          if i = 0 \<and> \<not> isUsingProxy s1 \<and> sv_forceProxyOnce s1
          then (case setProxyCooldown env (at_started (as i)) (ce_ProxyCooldown env) (s1\<lparr>sv_forceProxyOnce := False\<rparr>) w1 of
                  (Some e, s2, w2) \<Rightarrow> (Inl e, s2, w2)
                | (None, s2, w2) \<Rightarrow> doCrawl env as req (Suc i) s2 w2)
          else (case crawlOnce env (at_visit (as i)) req s1 w1 of
                  (Inr response, s2, w2) \<Rightarrow> (Inr response, s2, resetConsecutiveFailures env (at_end (as i)) w2)
                | (Inl err, s2, w2) \<Rightarrow>
                    (case failed_attempt env (as i) i err s2 w2 of
                       (Some e, s3, w3) \<Rightarrow> (Inl e, s3, w3)
                     | (None, s3, w3) \<Rightarrow> if i = 0 then doCrawl env as req (Suc i) s3 w3 else (Inl err, s3, w3))))"
  by pat_completeness auto
termination
  by (relation "measure (\<lambda>(env, as, req, i, s, w). if i = 0 then 1 else 0)") auto

declare doCrawl.simps [simp del]

section \<open>A task\<close>

definition FetchItems ::
  "'w crawler_env \<Rightarrow> (nat \<Rightarrow> 'e attempt) \<Rightarrow> FetchRequest \<Rightarrow> Service \<Rightarrow> 'w \<Rightarrow> 'w crawl_result"
where
  "FetchItems env as req s w =
     (case doCrawl env as req 0 (s\<lparr>sv_TotalProcessed := int64 (sv_TotalProcessed s + 1)\<rparr>) w of
        (r, s1, w1) \<Rightarrow>
          let s2 = (if ce_maxTasks env = 0 then s1
                    else let newCount = (sv_taskCounter s1 + 1) mod 2 ^ 64
                         in s1\<lparr>sv_taskCounter := newCount,
                               sv_restartCh := (sv_restartCh s1 \<or> ce_maxTasks env \<le> newCount)\<rparr>)
          in (case r of
                Inl err \<Rightarrow> (Inl err, s2\<lparr>sv_TotalFailed := int64 (sv_TotalFailed s2 + 1)\<rparr>, w1)
              | Inr resp \<Rightarrow>
                  (Inr (resp\<lparr>FP_TaskId := FR_TaskId req\<rparr>),
                   s2\<lparr>sv_TotalSucceeded := int64 (sv_TotalSucceeded s2 + 1)\<rparr>, w1)))"

text \<open>
  The goroutine of a task, once \<^verbatim>\<open>FetchItems\<close> has returned (\<open>Some\<close>) or the task's context has ended
  (\<open>None\<close>): a result is pushed, and a task that came to an end is acknowledged. The network
  outcomes of the two calls are arguments.
\<close>

definition task_reply :: "FetchRequest \<Rightarrow> crawl_err \<Rightarrow> (crawl_err + FetchResponse) option \<Rightarrow> FetchResponse" where
  "task_reply task ctx res =
     (case res of
        Some (Inr resp) \<Rightarrow> (if FP_TaskId resp = [] then resp\<lparr>FP_TaskId := FR_TaskId task\<rparr> else resp)
      | Some (Inl err) \<Rightarrow> \<lparr>FP_Items = [], FP_TotalFound = 0, FP_ErrorMessage = E_msg err, FP_TaskId = FR_TaskId task\<rparr>
      | None \<Rightarrow> \<lparr>FP_Items = [], FP_TotalFound = 0, FP_ErrorMessage = E_msg (wrap_err ''task context timeout'' ctx),
                 FP_TaskId = FR_TaskId task\<rparr>)"

definition run_task ::
  "'d Client \<Rightarrow> (FetchResponse \<Rightarrow> string option) \<Rightarrow> (string \<Rightarrow> string \<Rightarrow> bool) \<Rightarrow> outcome \<Rightarrow> outcome \<Rightarrow> crawl_err \<Rightarrow>
   FetchRequest \<Rightarrow> (crawl_err + FetchResponse) option \<Rightarrow> 'd \<Rightarrow> 'd"
where
  "run_task c marr lp net1 net2 ctx task res d =
     (let d1 = snd (PushResult c marr net1 (Some (task_reply task ctx res)) d)
      in if res = None then d1 else snd (AckTask c lp net2 (Some task) d1))"

text \<open>A task from its crawl to its report; \<open>late\<close> says that the task's context ended first.\<close>

definition process_task ::
  "'w crawler_env \<Rightarrow> (nat \<Rightarrow> 'e attempt) \<Rightarrow> 'd Client \<Rightarrow> (FetchResponse \<Rightarrow> string option) \<Rightarrow> (string \<Rightarrow> string \<Rightarrow> bool) \<Rightarrow>
   outcome \<Rightarrow> outcome \<Rightarrow> crawl_err \<Rightarrow> bool \<Rightarrow> FetchRequest \<Rightarrow> Service \<Rightarrow> 'w \<Rightarrow> 'd \<Rightarrow> 'd \<times> Service \<times> 'w"
where
  "process_task env as c marr lp net1 net2 ctx late task s w d =
     (case FetchItems env as task s w of
        (r, s1, w1) \<Rightarrow> (run_task c marr lp net1 net2 ctx task (if late then None else Some r) d, s1, w1))"

section \<open>The loop that starts the tasks\<close>

text \<open>
  \<^verbatim>\<open>StartWorker\<close>: a token of the semaphore, a task from the queue, a goroutine for it. A goroutine of
  \<open>ws_tasks\<close> holds a token and either waits for its crawl (\<open>True\<close>) or has its result; \<open>ws_stray\<close>
  counts the crawls that go on after their goroutine has given up on them.
\<close>

datatype loop_pc = LAcquire | LPop | LReturned

record loop_state =
  ws_limit :: nat
  ws_sem :: nat
  ws_loop :: loop_pc
  ws_tasks :: "(FetchRequest \<times> bool) list"
  ws_stray :: nat

definition StartWorker :: "int \<Rightarrow> loop_state" where
  "StartWorker maxConcurrency =
     \<lparr>ws_limit = (if maxConcurrency < 1 then 1 else nat maxConcurrency), ws_sem = 0, ws_loop = LAcquire,
      ws_tasks = [], ws_stray = 0\<rparr>"

definition start_task :: "FetchRequest \<Rightarrow> loop_state \<Rightarrow> loop_state" where
  "start_task t st = st\<lparr>ws_loop := LAcquire, ws_tasks := ws_tasks st @ [(t, True)]\<rparr>"

definition pop_failed :: "bool \<Rightarrow> loop_state \<Rightarrow> loop_state" where
  "pop_failed stopped st = st\<lparr>ws_sem := ws_sem st - 1, ws_loop := (if stopped then LReturned else LAcquire)\<rparr>"

definition leave_task :: "nat \<Rightarrow> loop_state \<Rightarrow> loop_state" where
  "leave_task i st = st\<lparr>ws_sem := ws_sem st - 1, ws_tasks := drop_nth i (ws_tasks st)\<rparr>"

inductive worker_step :: "loop_state \<Rightarrow> loop_state \<Rightarrow> bool" where
  acquire: "ws_loop st = LAcquire \<Longrightarrow> ws_sem st < ws_limit st \<Longrightarrow>
     worker_step st (st\<lparr>ws_sem := ws_sem st + 1, ws_loop := LPop\<rparr>)"
| cancelled: "ws_loop st = LAcquire \<Longrightarrow> worker_step st (st\<lparr>ws_loop := LReturned\<rparr>)"
| popped: "ws_loop st = LPop \<Longrightarrow> worker_step st (start_task t st)"
| not_popped: "ws_loop st = LPop \<Longrightarrow> worker_step st (pop_failed stopped st)"
| crawl_returned: "i < length (ws_tasks st) \<Longrightarrow> ws_tasks st ! i = (t, True) \<Longrightarrow>
     worker_step st (st\<lparr>ws_tasks := (ws_tasks st)[i := (t, False)]\<rparr>)"
| reported: "i < length (ws_tasks st) \<Longrightarrow> ws_tasks st ! i = (t, False) \<Longrightarrow> worker_step st (leave_task i st)"
| timed_out: "i < length (ws_tasks st) \<Longrightarrow> ws_tasks st ! i = (t, True) \<Longrightarrow>
     worker_step st ((leave_task i st)\<lparr>ws_stray := ws_stray st + 1\<rparr>)"
| stray_returned: "0 < ws_stray st \<Longrightarrow> worker_step st (st\<lparr>ws_stray := ws_stray st - 1\<rparr>)"

text \<open>The crawls that run, and with them the pages that may be open.\<close>

definition running_crawls :: "loop_state \<Rightarrow> int" where
  "running_crawls st = tally snd (ws_tasks st) + int (ws_stray st)"

end
