(* ===== verification/QueueGuarantees.thy ===== *)
theory QueueGuarantees
  imports RedisQueue
begin

text \<open>
  What the Redis queue promises to the scheduler and the crawlers, whatever happens on the
  network: a task id is in flight at most once, an entry stays in flight until its
  acknowledgement, results come out in the order they went in, the janitor's pass moves
  exactly the entries that timed out, and the clean-up of duplicates keeps one entry per id.
  The lemmas are proved in the context of the server's documented behaviour; each property
  then takes that behaviour as its hypothesis.
\<close>

section \<open>Client operations as runs of atomic actions\<close>

context redis_server
begin

lemma step_or_stay:
  assumes "R d (snd (f d))"
  shows "R\<^sup>*\<^sup>* d (snd (client_call net f d))"
  using assms by (cases net) auto

lemma PushTask_state:
  "snd (PushTask (Some S) mar net (Some t) d) =
     (if FR_TaskId t = [] then d
      else case mar t of
        None \<Rightarrow> d
      | Some raw \<Rightarrow> snd (client_call net (pushTaskScript S [KeyTaskPendingSet, KeyTaskQueue] [FR_TaskId t, raw]) d))"
  by (auto simp: PushTask_def Let_def split: option.splits prod.splits redis_reply.splits)

lemma AckTask_state:
  "snd (AckTask (Some S) lp net (Some t) d) =
     (if FR_TaskId t = [] then d
      else snd (client_call net (ackTaskScript S lp
             [KeyTaskProcessingQueue, KeyTaskPendingSet, KeyTaskStartedHash] [FR_TaskId t]) d))"
  by (auto simp: AckTask_def Let_def split: option.splits prod.splits redis_reply.splits)

lemma PushResult_state:
  "snd (PushResult (Some S) marr net (Some r) d) =
     (case marr r of None \<Rightarrow> d | Some raw \<Rightarrow> snd (client_call net (\<lambda>d. S d (LPUSH KeyResultQueue raw)) d))"
  by (auto simp: PushResult_def split: option.splits prod.splits redis_reply.splits)

lemma PopResult_state:
  "snd (PopResult (Some S) unmr net d) = snd (client_call net (\<lambda>d. S d (BRPOP KeyResultQueue)) d)"
  by (auto simp: PopResult_def split: option.splits prod.splits redis_reply.splits)

lemma PushTask_steps:
  assumes "decimal (FR_TaskId t)"
  shows "(queue_step S view mar unm lp)\<^sup>*\<^sup>* d (snd (PushTask (Some S) mar net (Some t) d))"
  using assms
  by (auto simp: PushTask_state split: option.split intro!: step_or_stay queue_step.push)

lemma AckTask_steps:
  assumes "decimal (FR_TaskId t)"
    and "FR_TaskId t \<in> raw_id unm ` set (q_processing (Q d))"
  shows "(queue_step S view mar unm lp)\<^sup>*\<^sup>* d (snd (AckTask (Some S) lp net (Some t) d))"
  using assms by (auto simp: AckTask_state intro!: step_or_stay queue_step.ack)

lemma PushResult_steps:
  "(queue_step S view mar unm lp)\<^sup>*\<^sup>* d (snd (PushResult (Some S) marr net (Some r) d))"
  by (auto simp: PushResult_state split: option.split intro!: step_or_stay queue_step.result_in)

lemma PopResult_steps:
  "(queue_step S view mar unm lp)\<^sup>*\<^sup>* d (snd (PopResult (Some S) unmr net d))"
  by (auto simp: PopResult_state intro!: step_or_stay queue_step.result_out)

lemma PopTask_state:
  "\<exists>net' i ts. snd (PopTask (Some S) unm now net1 net2 d) =
     snd (client_call net' (\<lambda>d. S d (HSET KeyTaskStartedHash i ts))
        (snd (client_call net1 (\<lambda>d. S d (BRPOPLPUSH KeyTaskQueue KeyTaskProcessingQueue)) d)))"
proof -
  obtain r d1 where c: "client_call net1 (\<lambda>d. S d (BRPOPLPUSH KeyTaskQueue KeyTaskProcessingQueue)) d = (r, d1)"
    by (cases "client_call net1 (\<lambda>d. S d (BRPOPLPUSH KeyTaskQueue KeyTaskProcessingQueue)) d")
  have "snd (PopTask (Some S) unm now net1 net2 d) = d1 \<or>
      (\<exists>i ts. snd (PopTask (Some S) unm now net1 net2 d) =
         snd (client_call net2 (\<lambda>d. S d (HSET KeyTaskStartedHash i ts)) d1))"
    by (auto simp: PopTask_def c split: option.split redis_reply.split)
  then show ?thesis
    using c by (metis client_call_simps(2) snd_conv)
qed

lemma PopTask_steps:
  "(queue_step S view mar unm lp)\<^sup>*\<^sup>* d (snd (PopTask (Some S) unm' now net1 net2 d))"
proof -
  obtain net' i ts where
    eq: "snd (PopTask (Some S) unm' now net1 net2 d) =
      snd (client_call net' (\<lambda>d. S d (HSET KeyTaskStartedHash i ts))
        (snd (client_call net1 (\<lambda>d. S d (BRPOPLPUSH KeyTaskQueue KeyTaskProcessingQueue)) d)))"
    using PopTask_state by blast
  have "(queue_step S view mar unm lp)\<^sup>*\<^sup>* d
      (snd (client_call net1 (\<lambda>d. S d (BRPOPLPUSH KeyTaskQueue KeyTaskProcessingQueue)) d))"
    by (intro step_or_stay queue_step.pop)
  also have "(queue_step S view mar unm lp)\<^sup>*\<^sup>* \<dots> (snd (PopTask (Some S) unm' now net1 net2 d))"
    unfolding eq by (intro step_or_stay queue_step.mark)
  finally show ?thesis .
qed

lemma rescue_loop_steps:
  "(queue_step S view mar unm lp)\<^sup>*\<^sup>* d (snd (rescue_loop S unm' st now th nets raws n d))"
proof (induction raws arbitrary: nets n d)
  case (Cons raw raws)
  show ?case
  proof (cases "unm' raw")
    case None
    with Cons.IH show ?thesis by simp
  next
    case (Some t)
    let ?c = "client_call (case nets of [] \<Rightarrow> Delivered | n # _ \<Rightarrow> n)
       (rescueScript S [KeyTaskProcessingQueue, KeyTaskQueue, KeyTaskStartedHash] [raw, FR_TaskId t]) d"
    have "(queue_step S view mar unm lp)\<^sup>*\<^sup>* d (snd ?c)"
      by (intro step_or_stay queue_step.rescue)
    with Some Cons.IH show ?thesis
      by (auto simp: prod.case_eq_if intro: rtranclp_trans)
  qed
qed simp

lemma hdel_all_steps: "(queue_step S view mar unm lp)\<^sup>*\<^sup>* d (hdel_all S nets ids d)"
proof (induction ids arbitrary: nets d)
  case (Cons i ids)
  have "(queue_step S view mar unm lp)\<^sup>*\<^sup>* d
      (snd (client_call (case nets of [] \<Rightarrow> Delivered | n # _ \<Rightarrow> n) (\<lambda>d. S d (HDEL KeyTaskStartedHash i)) d))"
    by (intro step_or_stay queue_step.orphan)
  with Cons.IH show ?case by (auto intro: rtranclp_trans)
qed simp

lemma RescueStuckTasks_steps:
  "(queue_step S view mar unm lp)\<^sup>*\<^sup>* d (snd (RescueStuckTasks (Some S) unm' now timeout net1 net2 nets d))"
proof -
  let ?R = "(queue_step S view mar unm lp)\<^sup>*\<^sup>*"
  obtain r1 d1 where c1: "client_call net1 (\<lambda>d. S d (HGETALL KeyTaskStartedHash)) d = (r1, d1)" by fastforce
  obtain r2 d2 where c2: "client_call net2 (\<lambda>d. S d (LRANGE KeyTaskProcessingQueue)) d1 = (r2, d2)" by fastforce
  have 1: "?R d d1"
    using step_or_stay [of "queue_step S view mar unm lp" d "\<lambda>d. S d (HGETALL KeyTaskStartedHash)" net1] c1
    by (simp add: queue_step.inspect)
  have 2: "?R d1 d2"
    using step_or_stay [of "queue_step S view mar unm lp" d1 "\<lambda>d. S d (LRANGE KeyTaskProcessingQueue)" net2] c2
    by (simp add: queue_step.inspect)
  have "snd (RescueStuckTasks (Some S) unm' now timeout net1 net2 nets d) \<in>
      {d1, d2} \<union> {hdel_all S nets ids d2 | ids. True} \<union>
      {snd (rescue_loop S unm' st (Unix now) (quot timeout Second) nets raws 0 d2) | st raws. True}"
    by (auto simp: RescueStuckTasks_def c1 c2 prod.case_eq_if split: option.split redis_reply.split)
  moreover have 12: "?R d d2" using 1 2 by (rule rtranclp_trans)
  moreover have "?R d (hdel_all S nets ids d2)" for ids
    using 12 hdel_all_steps by (rule rtranclp_trans)
  moreover have "?R d (snd (rescue_loop S unm' st now' th nets raws 0 d2))" for st now' th raws
    using 12 rescue_loop_steps by (rule rtranclp_trans)
  ultimately show ?thesis using 1 by auto
qed

end

section \<open>One entry per task id\<close>

text \<open>
  The queue with its codec: the server, and the documented behaviour of the JSON encoding the
  scripts rely on. Its steps form a system with an invariant.
\<close>

locale queue_client = redis_server S view for S :: "'d server" and view :: "'d \<Rightarrow> keyspace" +
  fixes mar :: request_marshal and unm :: request_unmarshal and lp :: "string \<Rightarrow> string \<Rightarrow> bool"
  assumes codec: "protojson_codec mar unm"
begin

definition drained :: "'d \<Rightarrow> bool" where
  "drained d \<longleftrightarrow> queue_typed (view d) \<and> q_entries (Q d) = []"

end

sublocale queue_client \<subseteq> steps: invariant_system drained "queue_step S view mar unm lp" "good mar unm"
proof
  fix d assume "drained d"
  then show "good mar unm d" by (simp add: drained_def good_def queue_inv_def)
next
  fix d d' assume "good mar unm d" and "queue_step S view mar unm lp d d'"
  then show "good mar unm d'" using codec by (blast intro: queue_step_good)
qed

context queue_client
begin

lemma good_entries:
  assumes "good mar unm d"
  shows "\<And>raw. raw \<in> set (q_entries (Q d)) \<Longrightarrow> entry_ok mar raw"
    and "distinct (map (raw_id unm) (q_entries (Q d)))"
    and "raw_id unm ` set (q_entries (Q d)) \<subseteq> q_pending (Q d)"
  using assms by (auto simp: good_def queue_inv_def)

lemma ack_removes_only_its_id:
  assumes good: "good mar unm d" and dec: "decimal i"
    and raw: "raw \<in> set (q_entries (Q d))" and other: "raw_id unm raw \<noteq> i"
  shows "raw \<in> set (q_entries (ack_view (\<lambda>raw. string_find lp raw (taskid_pattern i)) i (Q d)))"
proof -
  have "\<not> string_find lp raw (taskid_pattern i)"
    using string_find_entry [OF codec good_entries(1) [OF good raw] dec] other by simp
  then have "raw \<noteq> r"
    if "find (\<lambda>raw. string_find lp raw (taskid_pattern i)) (q_processing (Q d)) = Some r" for r
    using find_SomeD [OF that] by auto
  then show ?thesis
    using raw by (auto simp: q_entries_def ack_view_def in_set_remove1 simp del: qview_of_sel
        split: option.split)
qed

lemma step_keeps_entry:
  assumes step: "queue_step S view mar unm lp d d'" and good: "good mar unm d"
    and raw: "raw \<in> set (q_entries (Q d))"
  shows "raw \<in> set (q_entries (Q d')) \<or>
    d' = snd (ackTaskScript S lp [KeyTaskProcessingQueue, KeyTaskPendingSet, KeyTaskStartedHash]
           [raw_id unm raw] d)"
proof -
  have typed: "queue_typed (view d)" using good by (simp add: good_def)
  from step show ?thesis
  proof cases
    case (push t r)
    with typed raw show ?thesis by (auto simp: pushTaskScript_effect push_view_def q_entries_def)
  next
    case pop
    with typed raw show ?thesis
      using mset_eq_setD [OF q_entries_pop [of "Q d"]] by (simp add: pop_effect)
  next
    case (mark i ts)
    with typed raw show ?thesis by (simp add: mark_effect q_entries_def)
  next
    case (ack i)
    then show ?thesis
      using typed raw ack_removes_only_its_id [OF good ack(2) raw]
      by (cases "raw_id unm raw = i") (simp_all add: ackTaskScript_effect)
  next
    case (rescue r i)
    with typed raw show ?thesis
      using mset_eq_setD [OF q_entries_rescue [of r i "Q d"]] by (simp add: rescueScript_effect)
  next
    case (orphan i)
    with typed raw show ?thesis by (simp add: orphan_effect q_entries_def)
  next
    case (result_in r)
    with typed raw show ?thesis by (simp add: result_in_effect q_entries_def)
  next
    case result_out
    with typed raw show ?thesis by (simp add: result_out_effect q_entries_def)
  next
    case (inspect c)
    with typed raw show ?thesis using inspect_effect [of d c] by auto
  qed
qed

end

context queue_client
begin

lemma reachable_good:
  assumes "queue_typed (view d0)" and "q_entries (Q d0) = []" and "(queue_step S view mar unm lp)\<^sup>*\<^sup>* d0 d"
  shows "good mar unm d"
  using assms steps.reachable_invar by (simp add: drained_def)

lemma reachable_once:
  assumes "queue_typed (view d0)" and "q_entries (Q d0) = []" and "(queue_step S view mar unm lp)\<^sup>*\<^sup>* d0 d"
  shows "distinct (map (raw_id unm) (q_entries (Q d))) \<and>
    raw_id unm ` set (q_entries (Q d)) \<subseteq> q_pending (Q d)"
  using good_entries(2,3) [OF reachable_good [OF assms]] ..

lemma reachable_entry:
  assumes "queue_typed (view d0)" and "q_entries (Q d0) = []" and "(queue_step S view mar unm lp)\<^sup>*\<^sup>* d0 d"
    and "queue_step S view mar unm lp d d'" and "raw \<in> set (q_entries (Q d))"
  shows "raw \<in> set (q_entries (Q d')) \<or>
    d' = snd (ackTaskScript S lp [KeyTaskProcessingQueue, KeyTaskPendingSet, KeyTaskStartedHash]
           [raw_id unm raw] d)"
  using step_keeps_entry [OF assms(4) reachable_good [OF assms(1-3)] assms(5)] .

end

lemma queue_clientI: "redis_server S view \<Longrightarrow> protojson_codec mar unm \<Longrightarrow> queue_client S view mar unm"
  by (simp add: queue_client_def queue_client_axioms_def)

section \<open>The janitor's pass\<close>

text \<open>What \<^verbatim>\<open>PopTask\<close> writes into the started hash, the janitor reads back.\<close>

lemma skip_blank_FormatInt [simp]: "skip_blank (FormatInt i) = FormatInt i"
proof -
  have "is_digit (hd (FormatInt i)) \<or> hd (FormatInt i) = CHR ''-''"
    by (simp add: FormatInt_def hd_FormatUint_digit)
  then have "leading_space (FormatInt i) = 0"
    by (intro leading_space_printable) (auto simp: printable_def byte_def is_digit_def)
  then show ?thesis by (simp add: skip_blank.simps)
qed

lemma Sscanf_d_FormatInt:
  assumes "- 9223372036854775808 \<le> i" and "i \<le> 9223372036854775807"
  shows "Sscanf_d (FormatInt i) = Some i"
proof -
  have digits: "takeWhile is_digit (FormatUint n) = FormatUint n" for n
    by (simp add: FormatUint_digits takeWhile_eq_all_conv)
  define s where "s = FormatInt i"
  have parse: "ParseInt64 s = (i, None)" and skip: "skip_blank s = s" using assms by (simp_all add: s_def)
  show ?thesis
  proof (cases "i < 0")
    case True
    then have s: "s = CHR ''-'' # FormatUint (nat (- i))" by (simp add: s_def FormatInt_def)
    show ?thesis using parse skip by (simp add: Sscanf_d_def s_def [symmetric] Let_def s digits)
  next
    case False
    then have s: "s = FormatUint (nat i)" by (simp add: s_def FormatInt_def)
    show ?thesis using parse skip by (simp add: Sscanf_d_def s_def [symmetric] Let_def s digits)
  qed
qed

text \<open>The specification: which entries are stuck, and the keys once all of them are handed back.\<close>

definition stuck :: "request_unmarshal \<Rightarrow> (string \<times> string) list \<Rightarrow> gotime \<Rightarrow> duration \<Rightarrow> string \<Rightarrow> bool" where
  "stuck unm started now timeout raw =
     (case unm raw of
        None \<Rightarrow> False
      | Some t \<Rightarrow> FR_TaskId t \<noteq> [] \<and> timed_out started (Unix now) (quot timeout Second) t)"

definition hand_back :: "request_unmarshal \<Rightarrow> (string \<Rightarrow> bool) \<Rightarrow> string list \<Rightarrow> qview \<Rightarrow> qview" where
  "hand_back unm P raws q =
     q\<lparr>q_tasks := rev (filter P raws) @ q_tasks q,
       q_processing := filter (\<lambda>raw. \<not> (P raw \<and> raw \<in> set raws)) (q_processing q),
       q_started := fold AList.delete (map (raw_id unm) (filter P raws)) (q_started q)\<rparr>"

lemma remove1_distinct_filter: "distinct xs \<Longrightarrow> remove1 x xs = filter (\<lambda>y. y \<noteq> x) xs"
  by (induction xs) (auto intro: filter_True [symmetric])

lemma hand_back_Nil [simp]: "hand_back unm P [] q = q"
  by (simp add: hand_back_def)

lemma hand_back_skip: "\<not> P raw \<Longrightarrow> hand_back unm P (raw # raws) q = hand_back unm P raws q"
  by (auto simp: hand_back_def intro!: qview_eqI filter_cong)

lemma hand_back_rescue:
  assumes "P raw" and "distinct (q_processing q)" and "raw \<in> set (q_processing q)"
  shows "hand_back unm P raws (rescue_view raw (raw_id unm raw) q) = hand_back unm P (raw # raws) q"
  using assms
  by (auto simp: hand_back_def rescue_view_def remove1_distinct_filter intro!: qview_eqI filter_cong)

context redis_server
begin

lemma rescue_loop_exact:
  assumes "queue_typed (view d)" and "distinct (q_processing (Q d))" and "distinct raws"
    and "set raws \<subseteq> set (q_processing (Q d))"
  shows "fst (rescue_loop S unm st (Unix now) (quot timeout Second) [] raws n d) =
           n + int (length (filter (stuck unm st now timeout) raws)) \<and>
         Q (snd (rescue_loop S unm st (Unix now) (quot timeout Second) [] raws n d)) =
           hand_back unm (stuck unm st now timeout) raws (Q d)"
  using assms
proof (induction raws arbitrary: n d)
  case (Cons raw raws)
  show ?case
  proof (cases "stuck unm st now timeout raw")
    case False
    with Cons show ?thesis
      by (auto simp: stuck_def hand_back_skip split: option.splits)
  next
    case True
    then obtain t where t: "unm raw = Some t" "FR_TaskId t \<noteq> []"
        "timed_out st (Unix now) (quot timeout Second) t" and id: "raw_id unm raw = FR_TaskId t"
      by (auto simp: stuck_def raw_id_def split: option.splits)
    define d' where "d' = snd (rescueScript S [KeyTaskProcessingQueue, KeyTaskQueue, KeyTaskStartedHash]
        [raw, FR_TaskId t] d)"
    have mem: "raw \<in> set (q_processing (Q d))" using Cons.prems by simp
    have d': "queue_typed (view d')" "Q d' = rescue_view raw (FR_TaskId t) (Q d)"
      using rescueScript_effect [OF Cons.prems(1), of raw "FR_TaskId t"] by (simp_all add: d'_def)
    have proc: "q_processing (Q d') = remove1 raw (q_processing (Q d))"
      using mem by (simp only: d' rescue_view_def) simp
    have IH: "fst (rescue_loop S unm st (Unix now) (quot timeout Second) [] raws m d') =
        m + int (length (filter (stuck unm st now timeout) raws)) \<and>
      Q (snd (rescue_loop S unm st (Unix now) (quot timeout Second) [] raws m d')) =
        hand_back unm (stuck unm st now timeout) raws (Q d')" for m
    proof (rule Cons.IH)
      show "queue_typed (view d')" by (rule d'(1))
      show "distinct (q_processing (Q d'))" unfolding proc using Cons.prems(2) by (rule distinct_remove1)
      show "distinct raws" using Cons.prems by simp
      show "set raws \<subseteq> set (q_processing (Q d'))"
        unfolding proc using Cons.prems(2-4) by auto
    qed
    have "rescue_loop S unm st (Unix now) (quot timeout Second) [] (raw # raws) n d =
        rescue_loop S unm st (Unix now) (quot timeout Second) [] raws (n + 1) d'"
      using t mem rescueScript_effect(1) [OF Cons.prems(1), of raw "FR_TaskId t"] by (simp add: d'_def)
    moreover have "hand_back unm (stuck unm st now timeout) raws (Q d') =
        hand_back unm (stuck unm st now timeout) (raw # raws) (Q d)"
      using hand_back_rescue [of "stuck unm st now timeout", OF True Cons.prems(2) mem, of unm raws]
      by (simp only: d'(2) id)
    ultimately show ?thesis using IH [of "n + 1"] True by (simp only: filter.simps if_True length_Cons)  simp
  qed
qed simp

lemma RescueStuckTasks_exact:
  fixes d :: 'd and unm :: request_unmarshal and now :: gotime and timeout :: duration
  assumes typed: "queue_typed (view d)" and dist: "distinct (q_processing (Q d))"
    and st: "q_started (Q d) \<noteq> []" and busy: "q_processing (Q d) \<noteq> []"
  defines "P \<equiv> stuck unm (q_started (Q d)) now timeout"
  shows "fst (RescueStuckTasks (Some S) unm now timeout Delivered Delivered [] d) =
           Inr (int (length (filter P (q_processing (Q d)))))"
    and "Q (snd (RescueStuckTasks (Some S) unm now timeout Delivered Delivered [] d)) =
           (Q d)\<lparr>q_tasks := rev (filter P (q_processing (Q d))) @ q_tasks (Q d),
                 q_processing := filter (\<lambda>raw. \<not> P raw) (q_processing (Q d)),
                 q_started := fold AList.delete (map (raw_id unm) (filter P (q_processing (Q d))))
                                (q_started (Q d))\<rparr>"
proof -
  define d1 where "d1 = snd (S d (HGETALL KeyTaskStartedHash))"
  define d2 where "d2 = snd (S d1 (LRANGE KeyTaskProcessingQueue))"
  have v1: "view d1 = view d" using inspect_effect [OF typed] by (simp add: d1_def)
  have v2: "view d2 = view d" using inspect_effect [of d1 "LRANGE KeyTaskProcessingQueue"] typed v1
    by (simp add: d2_def)
  have r1: "fst (S d (HGETALL KeyTaskStartedHash)) = RPairs (q_started (Q d))"
    using typed by (auto simp: redis_simps queue_typed_def)
  have r2: "fst (S d1 (LRANGE KeyTaskProcessingQueue)) = RMulti (q_processing (Q d))"
    using typed v1 by (auto simp: redis_simps queue_typed_def)
  have run: "RescueStuckTasks (Some S) unm now timeout Delivered Delivered [] d =
      (let p = rescue_loop S unm (q_started (Q d)) (Unix now) (quot timeout Second) [] (q_processing (Q d)) 0 d2
       in (Inr (fst p), snd p))"
    using st busy
    by (simp only: RescueStuckTasks_def option.case client_call_simps r1 r2 prod.case redis_reply.case
        d1_def [symmetric] d2_def [symmetric] if_False Let_def) (simp add: prod.case_eq_if)
  note exact = rescue_loop_exact [of d2 "q_processing (Q d)" unm "q_started (Q d)" now timeout 0,
      unfolded v2, OF typed dist dist subset_refl]
  show "fst (RescueStuckTasks (Some S) unm now timeout Delivered Delivered [] d) =
      Inr (int (length (filter P (q_processing (Q d)))))"
    using exact by (simp add: run Let_def P_def)
  have "hand_back unm P (q_processing (Q d)) (Q d) =
      (Q d)\<lparr>q_tasks := rev (filter P (q_processing (Q d))) @ q_tasks (Q d),
        q_processing := filter (\<lambda>raw. \<not> P raw) (q_processing (Q d)),
        q_started := fold AList.delete (map (raw_id unm) (filter P (q_processing (Q d)))) (q_started (Q d))\<rparr>"
    by (intro qview_eqI) (simp_all add: hand_back_def cong: filter_cong)
  then show "Q (snd (RescueStuckTasks (Some S) unm now timeout Delivered Delivered [] d)) =
      (Q d)\<lparr>q_tasks := rev (filter P (q_processing (Q d))) @ q_tasks (Q d),
        q_processing := filter (\<lambda>raw. \<not> P raw) (q_processing (Q d)),
        q_started := fold AList.delete (map (raw_id unm) (filter P (q_processing (Q d)))) (q_started (Q d))\<rparr>"
    using exact by (simp add: run Let_def P_def)
qed

lemma RescueStuckTasks_no_started:
  assumes "queue_typed (view d)" and "q_started (Q d) = []"
  shows "fst (RescueStuckTasks (Some S) unm now timeout Delivered net2 nets d) = Inr 0"
    and "view (snd (RescueStuckTasks (Some S) unm now timeout Delivered net2 nets d)) = view d"
  using assms by (auto simp: RescueStuckTasks_def redis_simps queue_typed_def)

end

section \<open>Duplicates\<close>

text \<open>
  The specification keeps, from the head, the first entry of every id; entries that do not
  decode or have no id are kept.
\<close>

fun keep_first :: "request_unmarshal \<Rightarrow> string list \<Rightarrow> string set \<Rightarrow> string list" where
  "keep_first unm [] seen = []"
| "keep_first unm (raw # raws) seen =
     (if raw_id unm raw = [] then raw # keep_first unm raws seen
      else if raw_id unm raw \<in> seen then keep_first unm raws seen
      else raw # keep_first unm raws (insert (raw_id unm raw) seen))"

lemma find_duplicates_acc:
  "find_duplicates unm raws seen dups = dups @ find_duplicates unm raws seen []"
proof (induction raws arbitrary: seen dups)
  case (Cons raw raws)
  show ?case
    using Cons.IH [of seen "dups @ [raw]"] Cons.IH [of seen "[raw]"] Cons.IH [of seen dups]
      Cons.IH [of "insert i seen" dups for i]
    by (simp split: option.split)
qed simp

lemma find_duplicates_Cons:
  "find_duplicates unm (raw # raws) seen [] =
     (if raw_id unm raw = [] then find_duplicates unm raws seen []
      else if raw_id unm raw \<in> seen then raw # find_duplicates unm raws seen []
      else find_duplicates unm raws (insert (raw_id unm raw) seen) [])"
  using find_duplicates_acc [of unm raws seen "[raw]"]
  by (auto simp: raw_id_def split: option.splits)

lemma mset_keep_first:
  "mset raws = mset (keep_first unm raws seen) + mset (find_duplicates unm raws seen [])"
  by (induction raws arbitrary: seen) (auto simp: find_duplicates_Cons simp del: find_duplicates.simps(2))

lemma keep_first_ids:
  "distinct (filter (\<lambda>i. i \<noteq> []) (map (raw_id unm) (keep_first unm raws seen))) \<and>
   (\<forall>raw \<in> set (keep_first unm raws seen). raw_id unm raw \<notin> seen - {[]})"
proof (induction raws arbitrary: seen)
  case (Cons raw raws)
  from Cons.IH [of seen] Cons.IH [of "insert (raw_id unm raw) seen"] show ?case by auto
qed simp

lemma keep_first_covers:
  "set (map (raw_id unm) raws) \<subseteq> set (map (raw_id unm) (keep_first unm raws seen)) \<union> seen"
  by (induction raws arbitrary: seen) auto

lemma fold_remove1_mset: "mset (fold remove1 ys xs) = mset xs - mset ys"
  by (induction ys arbitrary: xs) (simp_all add: diff_diff_eq)

context redis_server
begin

lemma lrem_all_exact:
  assumes "queue_typed (view d)" and "mset dups \<subseteq># mset (q_tasks (Q d))"
  shows "fst (lrem_all S [] dups n d) = n + int (length dups) \<and>
    Q (snd (lrem_all S [] dups n d)) = (Q d)\<lparr>q_tasks := fold remove1 dups (q_tasks (Q d))\<rparr>"
  using assms
proof (induction dups arbitrary: n d)
  case (Cons raw dups)
  define d' where "d' = snd (S d (LREM KeyTaskQueue raw))"
  have mem: "raw \<in> set (q_tasks (Q d))"
    using Cons.prems(2) by (metis in_multiset_in_set insert_subset_eq_iff mset.simps(2))
  have rep: "fst (S d (LREM KeyTaskQueue raw)) = RInt 1"
    using Cons.prems(1) mem by (auto simp: redis_simps queue_typed_def)
  have d': "queue_typed (view d')" "Q d' = (Q d)\<lparr>q_tasks := remove1 raw (q_tasks (Q d))\<rparr>"
    using Cons.prems(1) by (auto simp: d'_def redis_simps queue_typed_def intro!: qview_eqI)
  have "mset dups \<subseteq># mset (q_tasks (Q d'))"
    using Cons.prems(2) by (simp add: d'(2) insert_subset_eq_iff del: qview_of_sel)
  note IH = Cons.IH [OF d'(1) this, of "n + 1"]
  have run: "lrem_all S [] (raw # dups) n d = lrem_all S [] dups (n + 1) d'"
    by (simp add: rep d'_def)
  show ?case unfolding run using IH by (simp add: d'(2) del: qview_of_sel)
qed simp

lemma DeduplicateQueue_exact:
  assumes typed: "queue_typed (view d)"
  shows "\<exists>ts. fst (DeduplicateQueue (Some S) unm Delivered [] d) =
             Inr (int (length (q_tasks (Q d))) - int (length ts)) \<and>
           Q (snd (DeduplicateQueue (Some S) unm Delivered [] d)) = (Q d)\<lparr>q_tasks := ts\<rparr> \<and>
           mset ts = mset (keep_first unm (q_tasks (Q d)) {})"
proof -
  define d1 where "d1 = snd (S d (LRANGE KeyTaskQueue))"
  define dups where "dups = find_duplicates unm (q_tasks (Q d)) {} []"
  have v1: "view d1 = view d" using inspect_effect [OF typed] by (simp add: d1_def)
  have r: "fst (S d (LRANGE KeyTaskQueue)) = RMulti (q_tasks (Q d))"
    using typed by (auto simp: redis_simps queue_typed_def)
  have ms: "mset (q_tasks (Q d)) = mset (keep_first unm (q_tasks (Q d)) {}) + mset dups"
    unfolding dups_def by (rule mset_keep_first)
  have run: "DeduplicateQueue (Some S) unm Delivered [] d =
      (Inr (fst (lrem_all S [] dups 0 d1)), snd (lrem_all S [] dups 0 d1))"
    by (cases "q_tasks (Q d) = []")
      (simp_all add: DeduplicateQueue_def r prod.case_eq_if d1_def dups_def del: qview_of_sel)
  have "mset dups \<subseteq># mset (q_tasks (Q d1))" by (simp only: v1 ms mset_subset_eq_add_right)
  note ex = lrem_all_exact [OF _ this, of 0, unfolded v1, OF typed]
  let ?ts = "fold remove1 dups (q_tasks (Q d))"
  have mts: "mset ?ts = mset (keep_first unm (q_tasks (Q d)) {})"
    by (simp only: fold_remove1_mset ms add_diff_cancel_right')
  have "length (q_tasks (Q d)) = length ?ts + length dups"
    by (metis ms mts size_mset size_union)
  with ex mts show ?thesis by (intro exI [of _ ?ts]) (simp add: run del: qview_of_sel)
qed

end

section \<open>Results come out in order\<close>

text \<open>
  The result list with its codec: pushing a response and popping the next one is a queue in
  the sense of \<open>fifo\<close>.
\<close>

definition response_codec :: "(FetchResponse \<Rightarrow> string option) \<Rightarrow> (string \<Rightarrow> FetchResponse option) \<Rightarrow> bool" where
  "response_codec marr unmr \<longleftrightarrow> (\<forall>r raw. marr r = Some raw \<longrightarrow> unmr raw = Some r)"

definition results_of :: "(string \<Rightarrow> FetchResponse option) \<Rightarrow> qview \<Rightarrow> FetchResponse list" where
  "results_of unmr q = rev (map (\<lambda>raw. the (unmr raw)) (q_results q))"

definition right_option :: "'e + 'a \<Rightarrow> 'a option" where
  "right_option x = (case x of Inl e \<Rightarrow> None | Inr a \<Rightarrow> Some a)"

locale result_queue = redis_server S view for S :: "'d server" and view :: "'d \<Rightarrow> keyspace" +
  fixes marr :: "FetchResponse \<Rightarrow> string option" and unmr :: "string \<Rightarrow> FetchResponse option"
  assumes rcodec: "response_codec marr unmr"
begin

definition result_sound :: "'d \<Rightarrow> bool" where
  "result_sound d \<longleftrightarrow> queue_typed (view d) \<and> (\<forall>raw \<in> set (q_results (Q d)). unmr raw \<noteq> None)"

definition put_result :: "FetchResponse \<Rightarrow> 'd \<Rightarrow> 'd" where
  "put_result r d = snd (PushResult (Some S) marr Delivered (Some r) d)"

definition take_result :: "'d \<Rightarrow> FetchResponse option \<times> 'd" where
  "take_result d = map_prod right_option id (PopResult (Some S) unmr Delivered d)"

definition encodable :: "FetchResponse \<Rightarrow> 'd \<Rightarrow> bool" where
  "encodable r d \<longleftrightarrow> marr r \<noteq> None"

lemma PushResult_effect:
  assumes "queue_typed (view d)" and "marr r = Some raw"
  shows "fst (PushResult (Some S) marr Delivered (Some r) d) = None"
    and "Q (snd (PushResult (Some S) marr Delivered (Some r) d)) = (Q d)\<lparr>q_results := raw # q_results (Q d)\<rparr>"
    and "queue_typed (view (snd (PushResult (Some S) marr Delivered (Some r) d)))"
  using assms result_in_effect [OF assms(1), of raw]
  by (auto simp: PushResult_def command_doc queue_typed_def)

lemma PopResult_effect:
  assumes "queue_typed (view d)" and "q_results (Q d) = raws @ [raw]" and "unmr raw = Some r"
  shows "fst (PopResult (Some S) unmr Delivered d) = Inr r"
    and "Q (snd (PopResult (Some S) unmr Delivered d)) = (Q d)\<lparr>q_results := raws\<rparr>"
    and "queue_typed (view (snd (PopResult (Some S) unmr Delivered d)))"
proof -
  have rep: "fst (S d (BRPOP KeyResultQueue)) = RMulti [KeyResultQueue, raw]"
    using assms by (auto simp: command_doc queue_typed_def)
  show "fst (PopResult (Some S) unmr Delivered d) = Inr r"
    and "Q (snd (PopResult (Some S) unmr Delivered d)) = (Q d)\<lparr>q_results := raws\<rparr>"
    and "queue_typed (view (snd (PopResult (Some S) unmr Delivered d)))"
    using result_out_effect [OF assms(1)] assms
    by (simp_all add: PopResult_def rep del: qview_of_sel)
qed

end

sublocale result_queue \<subseteq> results: fifo put_result take_result "\<lambda>d. results_of unmr (Q d)" encodable result_sound
proof
  fix d :: 'd and r :: FetchResponse
  assume s: "result_sound d" and "encodable r d"
  then obtain raw where raw: "marr r = Some raw" by (auto simp: encodable_def)
  have typed: "queue_typed (view d)" using s by (simp add: result_sound_def)
  have dec: "unmr raw = Some r" using rcodec raw by (simp add: response_codec_def)
  show "results_of unmr (Q (put_result r d)) = results_of unmr (Q d) @ [r]"
    by (simp add: put_result_def PushResult_effect(2) [OF typed raw] results_of_def dec del: qview_of_sel)
  show "result_sound (put_result r d)"
    using s dec
    by (simp add: put_result_def result_sound_def PushResult_effect(2,3) [OF typed raw] del: qview_of_sel)
next
  fix d :: 'd and r :: FetchResponse and rs
  assume s: "result_sound d" and c: "results_of unmr (Q d) = r # rs"
  have typed: "queue_typed (view d)" using s by (simp add: result_sound_def)
  from c have "q_results (Q d) \<noteq> []" by (auto simp: results_of_def)
  then obtain raws raw where split: "q_results (Q d) = raws @ [raw]" by (metis append_butlast_last_id)
  have "unmr raw = Some (the (unmr raw))" using s split by (simp add: result_sound_def del: qview_of_sel)
  with c split have dec: "unmr raw = Some r" by (simp add: results_of_def del: qview_of_sel)
  note eff = PopResult_effect [OF typed split dec]
  have "results_of unmr ((Q d)\<lparr>q_results := raws\<rparr>) = rs"
    using c split by (simp add: results_of_def del: qview_of_sel)
  moreover have "\<forall>x \<in> set raws. unmr x \<noteq> None"
    using s split by (simp add: result_sound_def del: qview_of_sel)
  ultimately show "fst (take_result d) = Some r \<and> results_of unmr (Q (snd (take_result d))) = rs \<and>
      result_sound (snd (take_result d))"
    using eff by (simp add: take_result_def right_option_def result_sound_def del: qview_of_sel)
qed

text \<open>The runs the property below speaks of.\<close>

fun push_results ::
  "'d server \<Rightarrow> (FetchResponse \<Rightarrow> string option) \<Rightarrow> FetchResponse list \<Rightarrow> 'd \<Rightarrow> 'd"
where
  "push_results S marr [] d = d"
| "push_results S marr (r # rs) d =
     push_results S marr rs (snd (PushResult (Some S) marr Delivered (Some r) d))"

fun pop_results ::
  "'d server \<Rightarrow> (string \<Rightarrow> FetchResponse option) \<Rightarrow> nat \<Rightarrow> 'd \<Rightarrow> (rq_error + FetchResponse) list"
where
  "pop_results S unmr 0 d = []"
| "pop_results S unmr (Suc n) d =
     (case PopResult (Some S) unmr Delivered d of (x, d') \<Rightarrow> x # pop_results S unmr n d')"

context result_queue
begin

lemma push_results_puts: "push_results S marr rs d = results.puts rs d"
  by (induction rs arbitrary: d) (simp_all add: put_result_def)

lemma pop_results_takes: "map right_option (pop_results S unmr n d) = results.takes n d"
  by (induction n arbitrary: d) (simp_all add: take_result_def prod.case_eq_if)

lemma all_fit_marshal: "\<forall>r \<in> set rs. marr r \<noteq> None \<Longrightarrow> results.all_fit rs d"
  by (induction rs arbitrary: d) (simp_all add: encodable_def)

lemma right_option_Inr: "map right_option xs = map Some ys \<Longrightarrow> xs = map Inr ys"
proof (induction xs arbitrary: ys)
  case (Cons x xs)
  then show ?case by (cases ys) (auto simp: right_option_def split: sum.splits)
qed simp

lemma results_in_order:
  assumes "queue_typed (view d)" and "q_results (Q d) = []" and "\<forall>r \<in> set rs. marr r \<noteq> None"
  shows "pop_results S unmr (length rs) (push_results S marr rs d) = map Inr rs"
proof (rule right_option_Inr)
  show "map right_option (pop_results S unmr (length rs) (push_results S marr rs d)) = map Some rs"
    using assms results.first_in_first_out [of d rs] all_fit_marshal [of rs d]
    by (simp add: pop_results_takes push_results_puts results_of_def result_sound_def del: qview_of_sel)
qed

end

section \<open>A concrete queue\<close>

text \<open>
  One request with its JSON text, on the in-memory server; the properties are applied to it
  below.
\<close>

definition req1 :: FetchRequest where
  "req1 = empty_FetchRequest\<lparr>FR_TaskId := ''1001'', FR_CreatedAt := 100\<rparr>"

definition raw1 :: string where
  \<open>raw1 = ''{"taskId":"1001"}''\<close>

definition mar1 :: request_marshal where
  "mar1 t = (if t = req1 then Some raw1 else None)"

definition unm1 :: request_unmarshal where
  "unm1 raw = (if raw = raw1 then Some req1 else None)"

lemma unm1_raw1 [simp]: "unm1 raw1 = Some req1" "mar1 req1 = Some raw1" "FR_TaskId req1 = ''1001''"
    "FR_CreatedAt req1 = 100" "raw_id unm1 raw1 = ''1001''"
  by (simp_all add: unm1_def mar1_def req1_def raw_id_def)

lemma decimal_1001 [simp]: "decimal ''1001''"
  by (simp add: decimal_def is_digit_def byte_def)

lemma raw1_member:
  assumes "decimal i"
  shows "Contains raw1 (taskid_pattern i) \<longleftrightarrow> i = ''1001''"
proof
  assume "Contains raw1 (taskid_pattern i)"
  then obtain ps ss where "raw1 = ps @ taskid_pattern i @ ss" by (auto simp: Contains_def sublist_def)
  then have eq: "i @ CHR 0x22 # ss = ''1001'' @ CHR 0x22 # ''}''"
    by (auto simp: raw1_def taskid_pattern_def Cons_eq_append_conv)
  have "takeWhile is_digit (i @ CHR 0x22 # ss) = i" and
    "takeWhile is_digit (''1001'' @ CHR 0x22 # ''}'') = ''1001''"
    using assms by (simp_all add: decimal_def takeWhile_append is_digit_def byte_def)
  then show "i = ''1001''" by (simp only: eq)
next
  assume "i = ''1001''"
  then have "raw1 = ''{'' @ taskid_pattern i @ ''}''" by (simp add: raw1_def taskid_pattern_def)
  then show "Contains raw1 (taskid_pattern i)" unfolding Contains_def sublist_def by blast
qed

lemma example_codec: "protojson_codec mar1 unm1"
  using raw1_member by (auto simp: protojson_codec_def mar1_def unm1_def)

interpretation example: queue_client memory_server "\<lambda>ks. ks" mar1 unm1 "\<lambda>_ _. False"
  by unfold_locales (rule example_codec)

lemma empty_queue [simp]:
  "q_entries (qview_of empty_keyspace) = []" "q_results (qview_of empty_keyspace) = []"
  by (simp_all add: q_entries_def)

definition pushed_ks :: keyspace where
  "pushed_ks = snd (pushTaskScript memory_server [KeyTaskPendingSet, KeyTaskQueue] [''1001'', raw1] empty_keyspace)"

lemma pushed_ks_view:
  "qview_of pushed_ks = \<lparr>q_tasks = [raw1], q_processing = [], q_results = [],
     q_pending = {''1001''}, q_started = []\<rparr>"
  "queue_typed pushed_ks"
  using memory.pushTaskScript_effect(2,3) [of empty_keyspace "''1001''" raw1]
  by (simp_all add: pushed_ks_def push_view_def qview_of_def)

definition busy_ks :: "string \<Rightarrow> keyspace" where
  "busy_ks ts = (\<lambda>_. RNone)(KeyTaskProcessingQueue := RList [raw1],
      KeyTaskPendingSet := RSet {''1001''}, KeyTaskStartedHash := RHash [(''1001'', ts)])"

lemma busy_ks_sel [simp]:
  "busy_ks ts KeyTaskQueue = RNone" "busy_ks ts KeyTaskProcessingQueue = RList [raw1]"
  "busy_ks ts KeyResultQueue = RNone" "busy_ks ts KeyTaskPendingSet = RSet {''1001''}"
  "busy_ks ts KeyTaskStartedHash = RHash [(''1001'', ts)]" "queue_typed (busy_ks ts)"
  by (simp_all add: busy_ks_def queue_typed_def)

section \<open>Properties\<close>



text \<open>
  The operations of the client are sequences of those atomic actions, whatever the network
  does to each of their requests: a push of a task with a decimal id, a pop, the janitor's
  pass, an acknowledgement of a task that is still held, and the two operations on results.
\<close>

theorem client_operations_are_steps:
  assumes "redis_server S view"
  shows "(decimal (FR_TaskId t) \<longrightarrow>
           (queue_step S view mar unm lp)\<^sup>*\<^sup>* d (snd (PushTask (Some S) mar net (Some t) d))) \<and>
         (queue_step S view mar unm lp)\<^sup>*\<^sup>* d (snd (PopTask (Some S) unm now net net2 d)) \<and>
         (queue_step S view mar unm lp)\<^sup>*\<^sup>* d
           (snd (RescueStuckTasks (Some S) unm now timeout net net2 nets d)) \<and>
         (decimal (FR_TaskId t) \<and> FR_TaskId t \<in> raw_id unm ` set (q_processing (qview_of (view d))) \<longrightarrow>
           (queue_step S view mar unm lp)\<^sup>*\<^sup>* d (snd (AckTask (Some S) lp net (Some t) d))) \<and>
         (queue_step S view mar unm lp)\<^sup>*\<^sup>* d (snd (PushResult (Some S) marr net (Some r) d)) \<and>
         (queue_step S view mar unm lp)\<^sup>*\<^sup>* d (snd (PopResult (Some S) unmr net d))"
  by (intro conjI impI redis_server.PushTask_steps [OF assms] redis_server.PopTask_steps [OF assms]
      redis_server.RescueStuckTasks_steps [OF assms] redis_server.AckTask_steps [OF assms]
      redis_server.PushResult_steps [OF assms] redis_server.PopResult_steps [OF assms])
    (simp_all del: qview_of_sel)

theorem client_operations_are_steps_witness:
  "(queue_step memory_server (\<lambda>ks. ks) mar1 unm1 (\<lambda>_ _. False))\<^sup>*\<^sup>* (busy_ks ''100'')
     (snd (AckTask (Some memory_server) (\<lambda>_ _. False) ReplyLost (Some req1) (busy_ks ''100''))) \<and>
   (queue_step memory_server (\<lambda>ks. ks) mar1 unm1 (\<lambda>_ _. False))\<^sup>*\<^sup>* empty_keyspace
     (snd (PushTask (Some memory_server) mar1 Delivered (Some req1) empty_keyspace))"
  using client_operations_are_steps [OF memory.redis_server_axioms, of req1 mar1 unm1 "\<lambda>_ _. False" "busy_ks ''100''" ReplyLost]
    client_operations_are_steps [OF memory.redis_server_axioms, of req1 mar1 unm1 "\<lambda>_ _. False" empty_keyspace Delivered]
  by simp

text \<open>
  C8. A task is never lost on the way: an entry of the task list or of the processing list
  stays in one of the two under every atomic action, the acknowledgement of its own id apart.
\<close>

theorem entry_stays_until_acknowledged:
  assumes "redis_server S view" and "protojson_codec mar unm"
    and "queue_typed (view d0)" and "q_entries (qview_of (view d0)) = []"
    and "(queue_step S view mar unm lp)\<^sup>*\<^sup>* d0 d" and "queue_step S view mar unm lp d d'"
    and "raw \<in> set (q_entries (qview_of (view d)))"
  shows "raw \<in> set (q_entries (qview_of (view d'))) \<or>
    d' = snd (ackTaskScript S lp [KeyTaskProcessingQueue, KeyTaskPendingSet, KeyTaskStartedHash]
           [raw_id unm raw] d)"
  using queue_client.reachable_entry [OF queue_clientI [OF assms(1,2)] assms(3-7)] .

theorem entry_stays_until_acknowledged_witness:
  "raw1 \<in> set (q_entries (qview_of (snd (memory_server pushed_ks
     (BRPOPLPUSH KeyTaskQueue KeyTaskProcessingQueue)))))"
proof -
  let ?R = "queue_step memory_server (\<lambda>ks. ks) mar1 unm1 (\<lambda>_ _. False)"
  let ?l = "snd (memory_server pushed_ks (BRPOPLPUSH KeyTaskQueue KeyTaskProcessingQueue))"
  let ?r = "snd (ackTaskScript memory_server (\<lambda>_ _. False)
        [KeyTaskProcessingQueue, KeyTaskPendingSet, KeyTaskStartedHash] [''1001''] pushed_ks)"
  have run: "?R\<^sup>*\<^sup>* empty_keyspace pushed_ks"
    using queue_step.push [of mar1 req1 raw1] by (intro r_into_rtranclp) (simp add: pushed_ks_def)
  have pop: "?R pushed_ks ?l" by (rule queue_step.pop)
  have "q_tasks (qview_of ?l) = []"
    using memory.pop_effect(2) [OF pushed_ks_view(2)] by (simp add: pushed_ks_view pop_view_def del: qview_of_sel)
  moreover have "q_tasks (qview_of ?r) = [raw1]"
    using memory.ackTaskScript_effect(2) [OF pushed_ks_view(2), of "\<lambda>_ _. False" "''1001''"]
    by (simp add: pushed_ks_view ack_view_def del: qview_of_sel)
  ultimately have "?l \<noteq> ?r" by auto
  then show ?thesis
    using entry_stays_until_acknowledged [of memory_server "\<lambda>ks. ks" mar1 unm1 empty_keyspace "\<lambda>_ _. False" pushed_ks,
        OF memory.redis_server_axioms example_codec _ _ run pop, of raw1]
    by (simp add: pushed_ks_view q_entries_def [of "\<lparr>q_tasks = [raw1], q_processing = [], q_results = [],
          q_pending = {''1001''}, q_started = []\<rparr>"] del: qview_of_sel)
qed



text \<open>
  The janitor never looks at the processing list while the started hash is empty: however
  old the entries of the processing list are, the pass reports nothing and changes nothing, so
  the fallback to the creation time does not help a lone task whose start was not recorded.
\<close>

theorem rescue_needs_a_start_record:
  assumes "redis_server S view" and "queue_typed (view d)" and "q_started (qview_of (view d)) = []"
  shows "fst (RescueStuckTasks (Some S) unm now timeout Delivered net2 nets d) = Inr 0 \<and>
         view (snd (RescueStuckTasks (Some S) unm now timeout Delivered net2 nets d)) = view d"
  using redis_server.RescueStuckTasks_no_started [OF assms] by simp

definition lone_ks :: keyspace where
  "lone_ks = (busy_ks [])(KeyTaskStartedHash := RNone)"

theorem rescue_needs_a_start_record_witness:
  "fst (RescueStuckTasks (Some memory_server) unm1 (10 ^ 18) (600 * 1000000000) Delivered Delivered [] lone_ks) = Inr 0 \<and>
   timed_out [] (Unix (10 ^ 18)) 600 req1 \<and> q_processing (qview_of lone_ks) = [raw1]"
  using rescue_needs_a_start_record [OF memory.redis_server_axioms, of lone_ks unm1 "10 ^ 18" "600 * 1000000000" Delivered "[]"]
  by (simp add: lone_ks_def queue_typed_def timed_out_def Unix_def)

text \<open>
  Removing duplicates leaves, as a multiset, exactly the first entry of every id (and the
  entries without an id) in the task list, changes no other key and returns the number of
  entries it removed. So afterwards the ids are pairwise different and none has disappeared.
\<close>

theorem deduplicate_keeps_one_entry_per_id:
  assumes "redis_server S view" and "queue_typed (view d)"
  shows "let q = qview_of (view d); (n, d') = DeduplicateQueue (Some S) unm Delivered [] d;
             q' = qview_of (view d')
         in mset (q_tasks q') = mset (keep_first unm (q_tasks q) {}) \<and>
            q' = q\<lparr>q_tasks := q_tasks q'\<rparr> \<and>
            n = Inr (int (length (q_tasks q)) - int (length (q_tasks q'))) \<and>
            distinct (filter (\<lambda>i. i \<noteq> []) (map (raw_id unm) (q_tasks q'))) \<and>
            raw_id unm ` set (q_tasks q') = raw_id unm ` set (q_tasks q)"
proof -
  let ?q = "qview_of (view d)" and ?r = "DeduplicateQueue (Some S) unm Delivered [] d"
  obtain ts where n: "fst ?r = Inr (int (length (q_tasks ?q)) - int (length ts))"
    and v: "qview_of (view (snd ?r)) = ?q\<lparr>q_tasks := ts\<rparr>"
    and ms: "mset ts = mset (keep_first unm (q_tasks ?q) {})"
    using redis_server.DeduplicateQueue_exact [OF assms] by blast
  have "distinct (filter (\<lambda>i. i \<noteq> []) (map (raw_id unm) ts))"
    using keep_first_ids [of unm "q_tasks ?q" "{}"]
      distinct_mset_eq [of "filter (\<lambda>i. i \<noteq> []) (map (raw_id unm) ts)"
        "filter (\<lambda>i. i \<noteq> []) (map (raw_id unm) (keep_first unm (q_tasks ?q) {}))"] ms
    by simp
  moreover have "set ts = set (keep_first unm (q_tasks ?q) {})" using ms by (rule mset_eq_setD)
  moreover have "set (keep_first unm (q_tasks ?q) {}) \<subseteq> set (q_tasks ?q)"
    using mset_keep_first [of "q_tasks ?q" unm "{}"] by (metis Un_upper1 set_mset_mset set_mset_union)
  ultimately show ?thesis
    using n v ms keep_first_covers [of unm "q_tasks ?q" "{}"]
    by (auto simp: Let_def prod.case_eq_if simp del: qview_of_sel)
qed

definition twice_ks :: keyspace where
  "twice_ks = (busy_ks [])(KeyTaskQueue := RList [raw1, raw1])"

theorem deduplicate_keeps_one_entry_per_id_witness:
  "mset (q_tasks (qview_of (snd (DeduplicateQueue (Some memory_server) unm1 Delivered [] twice_ks)))) = {#raw1#}"
  using deduplicate_keeps_one_entry_per_id [OF memory.redis_server_axioms, of twice_ks unm1]
  by (simp add: twice_ks_def queue_typed_def Let_def prod.case_eq_if)

text \<open>
  Results are delivered in order: the scheduler pops the responses exactly as the crawlers
  pushed them.
\<close>

theorem results_first_in_first_out:
  assumes "redis_server S view" and "response_codec marr unmr" and "queue_typed (view d)"
    and "q_results (qview_of (view d)) = []" and "\<forall>r \<in> set rs. marr r \<noteq> None"
  shows "pop_results S unmr (length rs) (push_results S marr rs d) = map Inr rs"
  using result_queue.results_in_order [OF result_queue.intro [OF assms(1) result_queue_axioms.intro [OF assms(2)]] assms(3-5)] .

definition resp :: "string \<Rightarrow> FetchResponse" where
  "resp i = \<lparr>FP_Items = [], FP_TotalFound = 0, FP_ErrorMessage = [], FP_TaskId = i\<rparr>"

definition marr1 :: "FetchResponse \<Rightarrow> string option" where
  "marr1 r = (if r = resp (FP_TaskId r) then Some (FP_TaskId r) else None)"

lemma marr1_resp [simp]: "marr1 (resp i) = Some i"
  by (simp add: marr1_def resp_def)

lemma marr1_codec: "response_codec marr1 (\<lambda>raw. Some (resp raw))"
  by (metis (lifting) marr1_def option.discI option.inject response_codec_def)

theorem results_first_in_first_out_witness:
  "pop_results memory_server (\<lambda>raw. Some (resp raw)) 2
     (push_results memory_server marr1 [resp ''1'', resp ''2''] empty_keyspace) =
     [Inr (resp ''1''), Inr (resp ''2'')]"
  using results_first_in_first_out [of memory_server "\<lambda>ks. ks" marr1 "\<lambda>raw. Some (resp raw)" empty_keyspace
      "[resp ''1'', resp ''2'']", OF memory.redis_server_axioms marr1_codec]
  by (simp add: numeral_2_eq_2)

end
