(* ===== verification/Draining.thy ===== *)
theory Draining
  imports Browser
begin

text \<open>
  The pages of running tasks and the exchange of the browser, interleaved: each access of
  \<^verbatim>\<open>trackPageStart\<close>, \<^verbatim>\<open>trackPageEnd\<close>, \<^verbatim>\<open>waitForDrain\<close>, \<^verbatim>\<open>rotateBrowser\<close> and \<^verbatim>\<open>ensureBrowserState\<close> to shared
  state is a step of \<open>drain_step\<close>. There are as many page goroutines as the list is long; the
  exchange holds the write lock \<^verbatim>\<open>mu\<close> from \<open>RLocked\<close> to its end, so that nobody reads the browser
  meanwhile and there is one exchange at a time.
\<close>

section \<open>Steps\<close>

text \<open>
  A page goroutine: before \<^verbatim>\<open>trackPageStart\<close>; past its test of the draining flag; with the browser it
  read; counted and using it; with the count its decrement returned; about to close the channel; at
  its end.
\<close>

datatype page_pc = PIdle | PChecked | PRead browser | PUsing browser | PCounted int | PClosing | PDone

text \<open>
  The exchange: none; locked, for a mode; draining; past the test of the page count; waiting for the
  channel; past the wait (\<open>True\<close>: forced by the timeout); with or without a new browser, before and
  after the end of the drain.
\<close>

datatype rotate_pc =
    RIdle | RLocked bool | RDraining bool | RReading bool | RWaiting bool | RReady bool bool
  | RSwapped bool bool | RDrained bool bool

record drain_state =
  ds_s :: Service
  ds_pages :: "page_pc list"
  ds_rot :: rotate_pc

definition set_page :: "nat \<Rightarrow> page_pc \<Rightarrow> drain_state \<Rightarrow> drain_state" where
  "set_page i p d = d\<lparr>ds_pages := (ds_pages d)[i := p]\<rparr>"

definition set_service :: "(Service \<Rightarrow> Service) \<Rightarrow> drain_state \<Rightarrow> drain_state" where
  "set_service f d = d\<lparr>ds_s := f (ds_s d)\<rparr>"

definition set_rot :: "rotate_pc \<Rightarrow> drain_state \<Rightarrow> drain_state" where
  "set_rot r d = d\<lparr>ds_rot := r\<rparr>"

lemma drain_sel [simp]:
  "ds_s (set_page i p d) = ds_s d" "ds_pages (set_page i p d) = (ds_pages d)[i := p]" "ds_rot (set_page i p d) = ds_rot d"
  "ds_s (set_service f d) = f (ds_s d)" "ds_pages (set_service f d) = ds_pages d" "ds_rot (set_service f d) = ds_rot d"
  "ds_s (set_rot r d) = ds_s d" "ds_pages (set_rot r d) = ds_pages d" "ds_rot (set_rot r d) = r"
  by (simp_all add: set_page_def set_service_def set_rot_def)

definition page_check :: "nat \<Rightarrow> drain_state \<Rightarrow> drain_state" where
  "page_check i d = set_page i (if sv_draining (ds_s d) then PDone else PChecked) d"

definition page_read :: "nat \<Rightarrow> drain_state \<Rightarrow> drain_state" where
  "page_read i d = set_page i (case sv_browser (ds_s d) of None \<Rightarrow> PDone | Some b \<Rightarrow> PRead b) d"

definition page_count :: "nat \<Rightarrow> browser \<Rightarrow> drain_state \<Rightarrow> drain_state" where
  "page_count i b d =
     set_page i (PUsing b) (set_service (\<lambda>s. s\<lparr>sv_activePages := int32 (sv_activePages s + 1)\<rparr>) d)"

definition page_uncount :: "nat \<Rightarrow> drain_state \<Rightarrow> drain_state" where
  "page_uncount i d =
     (let newCount = int32 (sv_activePages (ds_s d) - 1)
      in set_page i (PCounted newCount) (set_service (\<lambda>s. s\<lparr>sv_activePages := newCount\<rparr>) d))"

definition page_look :: "nat \<Rightarrow> int \<Rightarrow> drain_state \<Rightarrow> drain_state" where
  "page_look i n d = set_page i (if sv_draining (ds_s d) \<and> n \<le> 0 then PClosing else PDone) d"

definition page_close :: "nat \<Rightarrow> drain_state \<Rightarrow> drain_state" where
  "page_close i d = set_page i PDone (set_service close_drain d)"

definition rot_begin :: "bool \<Rightarrow> drain_state \<Rightarrow> drain_state" where
  "rot_begin m d =
     (if m = sv_currentIsProxy (ds_s d) then set_rot RIdle d
      else set_rot (RDraining m) (set_service startDraining d))"

definition rot_look :: "bool \<Rightarrow> drain_state \<Rightarrow> drain_state" where
  "rot_look m d =
     set_rot (if \<not> sv_draining (ds_s d) \<or> sv_activePages (ds_s d) \<le> 0 then RReady m False else RReading m) d"

definition rot_channel :: "bool \<Rightarrow> drain_state \<Rightarrow> drain_state" where
  "rot_channel m d = set_rot (if sv_drainComplete (ds_s d) = None then RReady m False else RWaiting m) d"

definition rot_swap :: "bool \<Rightarrow> crawl_err + browser \<Rightarrow> drain_state \<Rightarrow> drain_state" where
  "rot_swap m started d =
     (case started of
        Inl e \<Rightarrow> set_rot (RSwapped m False) d
      | Inr b \<Rightarrow> set_rot (RSwapped m True) (set_service (\<lambda>s. s\<lparr>sv_browser := Some b\<rparr>) d))"

definition rot_unlock :: "bool \<Rightarrow> bool \<Rightarrow> gotime \<Rightarrow> drain_state \<Rightarrow> drain_state" where
  "rot_unlock m ok now d =
     set_rot RIdle
       (if ok then set_service (\<lambda>s. s\<lparr>sv_currentIsProxy := m\<rparr>) d
        else if m then set_service (\<lambda>s. s\<lparr>sv_proxyCache := False, sv_proxyCacheUntil := now + proxyCacheTTL\<rparr>) d
        else d)"

inductive drain_step :: "drain_state \<Rightarrow> drain_state \<Rightarrow> bool" where
  check: "i < length (ds_pages d) \<Longrightarrow> ds_pages d ! i = PIdle \<Longrightarrow> drain_step d (page_check i d)"
| read: "i < length (ds_pages d) \<Longrightarrow> ds_pages d ! i = PChecked \<Longrightarrow> ds_rot d = RIdle \<Longrightarrow> drain_step d (page_read i d)"
| counted: "i < length (ds_pages d) \<Longrightarrow> ds_pages d ! i = PRead b \<Longrightarrow> drain_step d (page_count i b d)"
| uncount: "i < length (ds_pages d) \<Longrightarrow> ds_pages d ! i = PUsing b \<Longrightarrow> drain_step d (page_uncount i d)"
| look: "i < length (ds_pages d) \<Longrightarrow> ds_pages d ! i = PCounted n \<Longrightarrow> drain_step d (page_look i n d)"
| closing: "i < length (ds_pages d) \<Longrightarrow> ds_pages d ! i = PClosing \<Longrightarrow> drain_step d (page_close i d)"
| lock: "ds_rot d = RIdle \<Longrightarrow> drain_step d (set_rot (RLocked m) d)"
| begin_drain: "ds_rot d = RLocked m \<Longrightarrow> drain_step d (rot_begin m d)"
| look_count: "ds_rot d = RDraining m \<Longrightarrow> drain_step d (rot_look m d)"
| get_channel: "ds_rot d = RReading m \<Longrightarrow> drain_step d (rot_channel m d)"
| signalled: "ds_rot d = RWaiting m \<Longrightarrow> sv_drainComplete (ds_s d) = Some True \<Longrightarrow> drain_step d (set_rot (RReady m False) d)"
| timeout: "ds_rot d = RWaiting m \<Longrightarrow> drain_step d (set_rot (RReady m True) d)"
| swap: "ds_rot d = RReady m forced \<Longrightarrow> (\<And>b. started = Inr b \<Longrightarrow> (br_proxy b \<noteq> None) = m) \<Longrightarrow>
     drain_step d (rot_swap m started d)"
| drained: "ds_rot d = RSwapped m ok \<Longrightarrow> drain_step d (set_rot (RDrained m ok) (set_service completeDraining d))"
| unlock: "ds_rot d = RDrained m ok \<Longrightarrow> drain_step d (rot_unlock m ok now d)"
| restart: "ds_rot d = RIdle \<Longrightarrow> starts_as_asked start \<Longrightarrow>
     drain_step d (set_service (\<lambda>s. snd (restartBrowserInstance start s)) d)"
| shutdown: "ds_rot d = RIdle \<Longrightarrow> drain_step d (set_service Shutdown_Service d)"

section \<open>The invariant\<close>

definition in_use :: "page_pc \<Rightarrow> bool" where
  "in_use p \<longleftrightarrow> (case p of PUsing b \<Rightarrow> True | _ \<Rightarrow> False)"

text \<open>A page in use, or one whose end has still to be signalled.\<close>

definition owes_signal :: "page_pc \<Rightarrow> bool" where
  "owes_signal p \<longleftrightarrow> (case p of PUsing b \<Rightarrow> True | PCounted n \<Rightarrow> n \<le> 0 | PClosing \<Rightarrow> True | _ \<Rightarrow> False)"

definition is_draining :: "rotate_pc \<Rightarrow> bool" where
  "is_draining r \<longleftrightarrow>
     (case r of RDraining m \<Rightarrow> True | RReading m \<Rightarrow> True | RWaiting m \<Rightarrow> True | RReady m f \<Rightarrow> True
        | RSwapped m ok \<Rightarrow> True | _ \<Rightarrow> False)"

definition is_waiting :: "rotate_pc \<Rightarrow> bool" where
  "is_waiting r \<longleftrightarrow> (case r of RReading m \<Rightarrow> True | RWaiting m \<Rightarrow> True | _ \<Rightarrow> False)"

text \<open>The mode the service will report once the exchange ends.\<close>

definition next_mode :: "rotate_pc \<Rightarrow> bool \<Rightarrow> bool" where
  "next_mode r current =
     (case r of
        RSwapped m ok \<Rightarrow> if ok then m else current
      | RDrained m ok \<Rightarrow> if ok then m else current
      | _ \<Rightarrow> current)"

definition drain_inv :: "drain_state \<Rightarrow> bool" where
  "drain_inv d \<longleftrightarrow>
     int (length (ds_pages d)) < 2147483648 \<and>
     sv_activePages (ds_s d) = tally in_use (ds_pages d) \<and>
     sv_draining (ds_s d) = is_draining (ds_rot d) \<and>
     (sv_drainComplete (ds_s d) = None) = (\<not> is_draining (ds_rot d)) \<and>
     (is_waiting (ds_rot d) \<and> sv_drainComplete (ds_s d) = Some False \<longrightarrow> 0 < tally owes_signal (ds_pages d)) \<and>
     (\<forall>b. sv_browser (ds_s d) = Some b \<longrightarrow>
        (br_proxy b \<noteq> None) = next_mode (ds_rot d) (sv_currentIsProxy (ds_s d)))"

definition drain_start :: "drain_state \<Rightarrow> bool" where
  "drain_start d \<longleftrightarrow>
     int (length (ds_pages d)) < 2147483648 \<and> (\<forall>p \<in> set (ds_pages d). p = PIdle) \<and> ds_rot d = RIdle \<and>
     sv_activePages (ds_s d) = 0 \<and> \<not> sv_draining (ds_s d) \<and> sv_drainComplete (ds_s d) = None \<and> mode_ok (ds_s d)"

lemma in_use_owes: "in_use p \<Longrightarrow> owes_signal p"
  by (cases p) (simp_all add: in_use_def owes_signal_def)

lemma page_kind [simp]:
  "in_use (PUsing b)" "\<not> in_use PIdle" "\<not> in_use PChecked" "\<not> in_use (PRead b)" "\<not> in_use (PCounted n)"
  "\<not> in_use PClosing" "\<not> in_use PDone"
  "owes_signal (PUsing b)" "\<not> owes_signal PIdle" "\<not> owes_signal PChecked" "\<not> owes_signal (PRead b)"
  "owes_signal (PCounted n) \<longleftrightarrow> n \<le> 0" "owes_signal PClosing" "\<not> owes_signal PDone"
  by (simp_all add: in_use_def owes_signal_def)

lemma drain_inv_start: "drain_start d \<Longrightarrow> drain_inv d"
proof -
  assume s: "drain_start d"
  then have "tally in_use (ds_pages d) = 0" by (auto simp: drain_start_def tally_zero_iff)
  with s show "drain_inv d"
    by (simp add: drain_start_def drain_inv_def is_draining_def is_waiting_def next_mode_def mode_ok_def)
qed

lemmas page_step_defs = page_check_def page_read_def page_count_def page_look_def page_close_def

lemmas rot_step_defs = rot_begin_def rot_look_def rot_channel_def rot_swap_def rot_unlock_def

lemmas pc_defs = is_draining_def is_waiting_def next_mode_def

lemma close_drain_channel: "sv_drainComplete (close_drain s) = map_option (\<lambda>_. True) (sv_drainComplete s)"
  by (simp add: close_drain_def split: option.split)

lemma startDraining_channel: "\<not> sv_draining s \<Longrightarrow> sv_drainComplete (startDraining s) = Some False"
  by (simp add: startDraining_def)

text \<open>A page step keeps the exchange where it is and the browser what it is.\<close>

lemma page_step_inv:
  assumes "drain_inv d" and "i < length (ds_pages d)"
  shows "ds_pages d ! i = PIdle \<Longrightarrow> drain_inv (page_check i d)"
    and "ds_pages d ! i = PChecked \<Longrightarrow> drain_inv (page_read i d)"
    and "ds_pages d ! i = PRead b \<Longrightarrow> drain_inv (page_count i b d)"
    and "ds_pages d ! i = PCounted n \<Longrightarrow> drain_inv (page_look i n d)"
    and "ds_pages d ! i = PClosing \<Longrightarrow> drain_inv (page_close i d)"
proof -
  note [simp] = drain_inv_def page_step_defs
  show "ds_pages d ! i = PIdle \<Longrightarrow> drain_inv (page_check i d)"
    using assms by simp
  show "ds_pages d ! i = PChecked \<Longrightarrow> drain_inv (page_read i d)"
    using assms by (simp split: option.split)
  show "drain_inv (page_count i b d)" if "ds_pages d ! i = PRead b"
  proof -
    have "tally in_use (ds_pages d) < int (length (ds_pages d))"
      using tally_le_length [of in_use "(ds_pages d)[i := PUsing b]"] assms(2) that by simp
    then show ?thesis using assms that by simp
  qed
  show "drain_inv (page_look i n d)" if "ds_pages d ! i = PCounted n"
    using assms that by (auto simp: is_waiting_def is_draining_def split: rotate_pc.splits)
  show "ds_pages d ! i = PClosing \<Longrightarrow> drain_inv (page_close i d)"
    using assms by (simp add: close_drain_channel)
qed

lemma page_uncount_inv:
  assumes "drain_inv d" and "i < length (ds_pages d)" and "ds_pages d ! i = PUsing b"
  shows "drain_inv (page_uncount i d)"
proof -
  have use: "0 < tally in_use (ds_pages d)" using tally_pos [OF assms(2), of in_use] assms(3) by simp
  have "tally in_use (ds_pages d) \<le> int (length (ds_pages d))" by (rule tally_le_length)
  with assms use have n: "int32 (sv_activePages (ds_s d) - 1) = tally in_use (ds_pages d) - 1"
    by (simp add: drain_inv_def)
  have "tally in_use (ds_pages d) \<le> tally owes_signal (ds_pages d)" by (rule tally_mono [OF in_use_owes])
  with assms use n show ?thesis
    by (auto simp: drain_inv_def page_uncount_def Let_def)
qed

text \<open>A step of the exchange keeps the pages.\<close>

lemma rot_step_inv:
  assumes "drain_inv d"
  shows "ds_rot d = RLocked m \<Longrightarrow> drain_inv (rot_begin m d)"
    and "ds_rot d = RDraining m \<Longrightarrow> drain_inv (rot_look m d)"
    and "ds_rot d = RReading m \<Longrightarrow> drain_inv (rot_channel m d)"
    and "ds_rot d = RReady m f \<Longrightarrow> (\<And>b. started = Inr b \<Longrightarrow> (br_proxy b \<noteq> None) = m) \<Longrightarrow> drain_inv (rot_swap m started d)"
    and "ds_rot d = RDrained m ok \<Longrightarrow> drain_inv (rot_unlock m ok now d)"
proof -
  note [simp] = drain_inv_def rot_step_defs pc_defs
  show "ds_rot d = RLocked m \<Longrightarrow> drain_inv (rot_begin m d)"
    using assms by (simp add: startDraining_channel)
  have "tally in_use (ds_pages d) \<le> tally owes_signal (ds_pages d)" by (rule tally_mono [OF in_use_owes])
  then show "ds_rot d = RDraining m \<Longrightarrow> drain_inv (rot_look m d)"
    using assms by auto
  show "ds_rot d = RReading m \<Longrightarrow> drain_inv (rot_channel m d)"
    using assms by simp
  show "drain_inv (rot_swap m started d)"
    if "ds_rot d = RReady m f" "\<And>b. started = Inr b \<Longrightarrow> (br_proxy b \<noteq> None) = m"
    using assms that by (cases started) simp_all
  show "ds_rot d = RDrained m ok \<Longrightarrow> drain_inv (rot_unlock m ok now d)"
    using assms by simp
qed

lemma drain_step_inv:
  assumes "drain_inv d" and "drain_step d d'"
  shows "drain_inv d'"
  using assms(2)
proof cases
  case (drained m ok)
  then show ?thesis using assms(1) by (simp add: drain_inv_def pc_defs)
next
  case (restart start)
  then have "mode_ok (snd (restartBrowserInstance start (ds_s d)))" by (intro restartBrowserInstance_mode)
  moreover have "sv_currentIsProxy (snd (restartBrowserInstance start (ds_s d))) = sv_currentIsProxy (ds_s d)"
    and "sv_activePages (snd (restartBrowserInstance start (ds_s d))) = sv_activePages (ds_s d)"
    and "sv_draining (snd (restartBrowserInstance start (ds_s d))) = sv_draining (ds_s d)"
    and "sv_drainComplete (snd (restartBrowserInstance start (ds_s d))) = sv_drainComplete (ds_s d)"
    by (simp_all add: restartBrowserInstance_def split: sum.split)
  ultimately show ?thesis
    using assms(1) restart by (simp add: drain_inv_def pc_defs mode_ok_def)
next
  case (swap m f started)
  then show ?thesis using rot_step_inv(4) [OF assms(1)] by blast
qed (use assms(1) in \<open>auto simp: page_step_inv page_uncount_inv rot_step_inv(1-3,5)
      , simp_all add: drain_inv_def pc_defs Shutdown_Service_def\<close>)

interpretation drain: invariant_system drain_start drain_step drain_inv
  by unfold_locales (blast intro: drain_inv_start drain_step_inv)+

section \<open>The wait is answered\<close>

text \<open>How many steps a page still has to do before its end is signalled.\<close>

definition steps_left :: "page_pc \<Rightarrow> nat" where
  "steps_left p = (case p of PUsing b \<Rightarrow> 3 | PCounted n \<Rightarrow> 2 | PClosing \<Rightarrow> 1 | _ \<Rightarrow> 0)"

lemma owing_page:
  assumes "drain_inv d" and "is_waiting (ds_rot d)" and "sv_drainComplete (ds_s d) \<noteq> Some True"
  obtains i where "i < length (ds_pages d)" and "owes_signal (ds_pages d ! i)"
proof -
  from assms have "0 < tally owes_signal (ds_pages d)"
    by (cases "ds_rot d") (auto simp: drain_inv_def pc_defs)
  then have "\<exists>p \<in> set (ds_pages d). owes_signal p" using tally_zero_iff [of owes_signal "ds_pages d"] by auto
  then show ?thesis using that by (metis in_set_conv_nth)
qed

text \<open>While an exchange waits, one step of an owing page closes the channel or leaves less to do.\<close>

lemma owing_page_step:
  assumes "drain_inv d" and "is_waiting (ds_rot d)" and "i < length (ds_pages d)" and "owes_signal (ds_pages d ! i)"
  obtains d' where "drain_step d d'" and "ds_rot d' = ds_rot d"
    and "sv_drainComplete (ds_s d') = Some True \<or>
         sum_list (map steps_left (ds_pages d')) < sum_list (map steps_left (ds_pages d))"
proof (cases "ds_pages d ! i")
  case (PUsing b)
  then show ?thesis
    using that [OF drain_step.uncount [OF assms(3)]] assms(3)
    by (simp add: page_uncount_def Let_def sum_list_less steps_left_def)
next
  case (PCounted n)
  moreover have "sv_draining (ds_s d)"
    using assms(1,2) by (auto simp: drain_inv_def pc_defs split: rotate_pc.splits)
  ultimately show ?thesis
    using that [OF drain_step.look [OF assms(3)]] assms(3,4)
    by (simp add: page_look_def sum_list_less steps_left_def)
next
  case PClosing
  moreover have "sv_drainComplete (ds_s d) \<noteq> None"
    using assms(1,2) by (auto simp: drain_inv_def pc_defs split: rotate_pc.splits)
  ultimately show ?thesis
    using that [OF drain_step.closing [OF assms(3)]]
    by (auto simp: page_close_def close_drain_channel)
qed (use assms(4) in simp_all)

lemma waiting_is_answered:
  "drain_inv d \<Longrightarrow> is_waiting (ds_rot d) \<Longrightarrow>
   \<exists>d'. drain_step\<^sup>*\<^sup>* d d' \<and> ds_rot d' = ds_rot d \<and> sv_drainComplete (ds_s d') = Some True"
proof (induction "sum_list (map steps_left (ds_pages d))" arbitrary: d rule: less_induct)
  case less
  show ?case
  proof (cases "sv_drainComplete (ds_s d) = Some True")
    case False
    then obtain i where "i < length (ds_pages d)" "owes_signal (ds_pages d ! i)"
      using owing_page less.prems by blast
    then obtain d' where d': "drain_step d d'" "ds_rot d' = ds_rot d"
      and *: "sv_drainComplete (ds_s d') = Some True \<or>
         sum_list (map steps_left (ds_pages d')) < sum_list (map steps_left (ds_pages d))"
      using owing_page_step less.prems by blast
    have "drain_inv d'" using drain_step_inv less.prems(1) d'(1) by blast
    then show ?thesis using less.hyps [of d'] less.prems(2) d' *
      by (metis converse_rtranclp_into_rtranclp r_into_rtranclp)
  qed auto
qed

section \<open>Properties\<close>

text \<open>
  C10. Draining does not hang on a lost signal. Whatever the interleaving of pages and exchanges,
  whenever an exchange waits for the pages, the pages that are still open can end by themselves and
  the channel is then closed while the exchange still waits; and when no page is open or at its end
  any more, the channel is closed already.
\<close>

theorem drain_wait_is_answered:
  assumes "drain_start d0" and "drain_step\<^sup>*\<^sup>* d0 d" and "ds_rot d = RWaiting m"
  shows "(\<exists>d'. drain_step\<^sup>*\<^sup>* d d' \<and> ds_rot d' = RWaiting m \<and> sv_drainComplete (ds_s d') = Some True) \<and>
         ((\<exists>p \<in> set (ds_pages d). owes_signal p) \<or> sv_drainComplete (ds_s d) = Some True)"
proof
  have inv: "drain_inv d" using drain.reachable_invar assms(1,2) .
  have wait: "is_waiting (ds_rot d)" using assms(3) by (simp add: is_waiting_def)
  show "\<exists>d'. drain_step\<^sup>*\<^sup>* d d' \<and> ds_rot d' = RWaiting m \<and> sv_drainComplete (ds_s d') = Some True"
    using waiting_is_answered [OF inv wait] assms(3) by simp
  show "(\<exists>p \<in> set (ds_pages d). owes_signal p) \<or> sv_drainComplete (ds_s d) = Some True"
    using owing_page [OF inv wait] by (metis nth_mem)
qed

text \<open>A service in direct mode, one page goroutine, and an exchange for the proxy.\<close>

definition direct_browser :: browser where
  "direct_browser = \<lparr>br_id = 1, br_proxy = None, br_auth = None\<rparr>"

definition proxy_browser :: browser where
  "proxy_browser = \<lparr>br_id = 2, br_proxy = Some ''http://proxy:8080'', br_auth = None\<rparr>"

definition fresh_service :: Service where
  "fresh_service =
     \<lparr>sv_browser = Some direct_browser, sv_currentIsProxy = False, sv_proxyCache = False, sv_proxyCacheUntil = zero_time,
      sv_forceProxyOnce = False, sv_taskCounter = 0, sv_restartCh = False,
      sv_TotalProcessed = 0, sv_TotalSucceeded = 0, sv_TotalFailed = 0, sv_TotalPanics = 0,
      sv_draining = False, sv_activePages = 0, sv_drainComplete = None,
      sv_cookieManager = NewCookieManager, sv_adaptiveThrottler = NewAdaptiveThrottler\<rparr>"

definition one_page :: drain_state where
  "one_page = \<lparr>ds_s = fresh_service, ds_pages = [PIdle], ds_rot = RIdle\<rparr>"

lemma one_page_start: "drain_start one_page"
  by (simp add: drain_start_def one_page_def fresh_service_def mode_ok_def direct_browser_def)

definition page_open :: drain_state where
  "page_open = page_count 0 direct_browser (page_read 0 (page_check 0 one_page))"

definition page_waited_for :: drain_state where
  "page_waited_for = rot_channel True (rot_look True (rot_begin True (set_rot (RLocked True) page_open)))"

lemmas run_defs = page_waited_for_def page_open_def one_page_def fresh_service_def page_step_defs rot_step_defs
  set_page_def set_service_def set_rot_def startDraining_def

lemma page_waited_for_reached: "drain_step\<^sup>*\<^sup>* one_page page_waited_for"
proof -
  have "drain_step one_page (page_check 0 one_page)"
    by (rule drain_step.check) (simp_all add: one_page_def)
  moreover have "drain_step (page_check 0 one_page) (page_read 0 (page_check 0 one_page))"
    by (rule drain_step.read) (simp_all add: run_defs)
  moreover have "drain_step (page_read 0 (page_check 0 one_page)) page_open"
    unfolding page_open_def by (rule drain_step.counted) (simp_all add: run_defs)
  moreover have "drain_step page_open (set_rot (RLocked True) page_open)"
    by (rule drain_step.lock) (simp add: run_defs)
  moreover have "drain_step (set_rot (RLocked True) page_open) (rot_begin True (set_rot (RLocked True) page_open))"
    by (rule drain_step.begin_drain) simp
  moreover have "drain_step (rot_begin True (set_rot (RLocked True) page_open))
      (rot_look True (rot_begin True (set_rot (RLocked True) page_open)))"
    by (rule drain_step.look_count) (simp add: run_defs)
  moreover have "drain_step (rot_look True (rot_begin True (set_rot (RLocked True) page_open))) page_waited_for"
    unfolding page_waited_for_def by (rule drain_step.get_channel) (simp add: run_defs)
  ultimately show ?thesis by (meson converse_rtranclp_into_rtranclp rtranclp.rtrancl_refl)
qed

theorem drain_wait_is_answered_witness:
  "(\<exists>d'. drain_step\<^sup>*\<^sup>* page_waited_for d' \<and> ds_rot d' = RWaiting True \<and> sv_drainComplete (ds_s d') = Some True) \<and>
   ((\<exists>p \<in> set (ds_pages page_waited_for). owes_signal p) \<or> sv_drainComplete (ds_s page_waited_for) = Some True)"
  by (rule drain_wait_is_answered [OF one_page_start page_waited_for_reached]) (simp add: run_defs)

text \<open>
  The mode the service reports is the mode of its browser, and the number of active pages is the
  number of pages in use, after every interleaving of pages, exchanges, restarts and shutdowns (while
  no exchange is under way, for the mode).
\<close>

theorem mode_and_page_count_are_true:
  assumes "drain_start d0" and "drain_step\<^sup>*\<^sup>* d0 d"
  shows "(ds_rot d = RIdle \<longrightarrow> mode_ok (ds_s d)) \<and> sv_activePages (ds_s d) = tally in_use (ds_pages d)"
  using drain.reachable_invar [OF assms] by (auto simp: drain_inv_def pc_defs mode_ok_def)

theorem mode_and_page_count_are_true_witness:
  "(ds_rot page_waited_for = RIdle \<longrightarrow> mode_ok (ds_s page_waited_for)) \<and>
   sv_activePages (ds_s page_waited_for) = tally in_use (ds_pages page_waited_for)"
  by (rule mode_and_page_count_are_true [OF one_page_start page_waited_for_reached])

text \<open>
  C38. A drain can miss a page. A page that has read the browser but not counted itself is not waited
  for: the exchange sees no active page, ends its wait without a timeout, and replaces the browser the
  page goes on to use.
\<close>

theorem drain_can_miss_a_page:
  "\<exists>d1 d. drain_step\<^sup>*\<^sup>* one_page d1 \<and> ds_rot d1 = RReady True False \<and> drain_step\<^sup>*\<^sup>* d1 d \<and>
     ds_pages d = [PUsing direct_browser] \<and> sv_browser (ds_s d) = Some proxy_browser \<and> ds_rot d = RIdle"
proof -
  define e1 where "e1 = page_read 0 (page_check 0 one_page)"
  define e2 where "e2 = rot_begin True (set_rot (RLocked True) e1)"
  define d1 where "d1 = rot_look True e2"
  define e3 where "e3 = rot_swap True (Inr proxy_browser) d1"
  define e4 where "e4 = set_rot (RDrained True True) (set_service completeDraining e3)"
  define e5 where "e5 = rot_unlock True True 0 e4"
  note defs = e5_def e4_def e3_def d1_def e2_def e1_def run_defs
  have a: "drain_step one_page (page_check 0 one_page)" "drain_step (page_check 0 one_page) e1"
    "drain_step e1 (set_rot (RLocked True) e1)" "drain_step (set_rot (RLocked True) e1) e2" "drain_step e2 d1"
    unfolding e1_def e2_def d1_def
    by (rule drain_step.check drain_step.read drain_step.lock drain_step.begin_drain drain_step.look_count;
        simp add: run_defs)+
  have b: "drain_step d1 e3" unfolding e3_def
    by (rule drain_step.swap [where forced = False]) (auto simp: d1_def e2_def e1_def run_defs proxy_browser_def)
  have c: "drain_step e3 e4" unfolding e4_def
    by (rule drain_step.drained) (simp add: e3_def rot_swap_def)
  have d: "drain_step e4 e5" unfolding e5_def
    by (rule drain_step.unlock) (simp add: e4_def)
  have e: "drain_step e5 (page_count 0 direct_browser e5)"
    by (rule drain_step.counted) (simp_all add: defs)
  have "drain_step\<^sup>*\<^sup>* one_page d1" using a by (meson converse_rtranclp_into_rtranclp rtranclp.rtrancl_refl)
  moreover have "drain_step\<^sup>*\<^sup>* d1 (page_count 0 direct_browser e5)"
    using b c d e by (meson converse_rtranclp_into_rtranclp rtranclp.rtrancl_refl)
  moreover have "ds_rot d1 = RReady True False" by (simp add: d1_def e2_def e1_def run_defs)
  moreover have "ds_pages (page_count 0 direct_browser e5) = [PUsing direct_browser] \<and>
      sv_browser (ds_s (page_count 0 direct_browser e5)) = Some proxy_browser \<and>
      ds_rot (page_count 0 direct_browser e5) = RIdle"
    by (simp add: defs)
  ultimately show ?thesis by blast
qed

end
