(* ===== verification/CrawlerGuarantees.thy ===== *)
theory CrawlerGuarantees
  imports Crawler QueueGuarantees Draining
begin

text \<open>
  What the crawler promises: a crawl returns the first readable items of the page, a task that has
  been crawled is reported and released while a task that timed out stays for the janitor, the
  proxy is activated exactly when enough failures have been counted and it is healthy, and the
  loop keeps its bound on the tasks it runs (but not on the crawls that outlive them).
\<close>

section \<open>Items\<close>

text \<open>The items a page shows, in its order: the elements that can be read, with platform and currency.\<close>

definition readable_items :: "(string \<Rightarrow> string) \<Rightarrow> 'e dom \<Rightarrow> int \<Rightarrow> 'e list \<Rightarrow> pb_Item list" where
  "readable_items ul d platform els =
     [it\<lparr>PI_Platform := platform, PI_Currency := ''JPY''\<rparr>. Inr it \<leftarrow> map (extractItem ul d) els]"

lemma collect_items_eq:
  assumes "int (length acc) \<le> limit"
  shows "collect_items ul d limit platform els acc =
    acc @ take (nat (limit - int (length acc))) (readable_items ul d platform els)"
  using assms
proof (induction els arbitrary: acc)
  case (Cons el els)
  show ?case
  proof (cases "limit \<le> int (length acc)")
    case False
    then have "nat (limit - int (length acc)) = Suc (nat (limit - int (length acc) - 1))" by simp
    then show ?thesis
      using Cons.IH [of acc] Cons.IH [of "acc @ [_]"] Cons.prems False
      by (auto simp: readable_items_def diff_diff_eq add.commute split: sum.split)
  qed (use Cons.prems in simp)
qed (simp add: readable_items_def)

text \<open>
  When the page shows elements, the answer of a crawl is the first items that can be read, in the
  order of the page, up to the configured number (50 if that is not positive); the total is their
  number.
\<close>

theorem crawl_returns_the_first_items:
  assumes "vs_elements v = Elements els" and "fetch_limit env < 2147483648"
  shows "fst (read_items env v req s w) =
    Inr \<lparr>FP_Items = take (nat (fetch_limit env)) (readable_items (ce_ul env) (vs_dom v) (FR_Platform req) els),
         FP_TotalFound = int (min (nat (fetch_limit env)) (length (readable_items (ce_ul env) (vs_dom v) (FR_Platform req) els))),
         FP_ErrorMessage = [], FP_TaskId = []\<rparr>"
proof -
  have pos: "0 < fetch_limit env" by (simp add: fetch_limit_def)
  have "collect_items (ce_ul env) (vs_dom v) (fetch_limit env) (FR_Platform req) els [] =
      take (nat (fetch_limit env)) (readable_items (ce_ul env) (vs_dom v) (FR_Platform req) els)"
    using pos by (subst collect_items_eq) simp_all
  moreover have "int32 (int (length (take (nat (fetch_limit env)) xs))) = int (min (nat (fetch_limit env)) (length xs))"
    for xs :: "pb_Item list"
    using assms(2) by (simp add: min_def)
  moreover have "readable_items (ce_ul env) (vs_dom v) (FR_Platform req) [] = []" by (simp add: readable_items_def)
  ultimately show ?thesis using assms(1)
    by (simp add: read_items_def ok_response_def Let_def case_prod_beta split: prod.split)
qed

section \<open>A task and its queue entry\<close>

lemma FetchItems_task_id: "fst (FetchItems env as req s w) = Inr r \<Longrightarrow> FP_TaskId r = FR_TaskId req"
  by (auto simp: FetchItems_def Let_def split: prod.splits sum.splits)

lemma task_reply_id:
  assumes "\<And>r. res = Some (Inr r) \<Longrightarrow> FP_TaskId r = FR_TaskId task"
  shows "FP_TaskId (task_reply task ctx res) = FR_TaskId task"
  using assms by (auto simp: task_reply_def split: option.split sum.split)

context queue_client
begin

lemma ack_view_of_entry:
  assumes good: "good mar unm d" and raw: "raw \<in> set (q_processing (Q d))"
    and i: "raw_id unm raw = i" and dec: "decimal i"
  shows "find (\<lambda>r. string_find lp r (taskid_pattern i)) (q_processing (Q d)) = Some raw"
proof -
  have match: "string_find lp r (taskid_pattern i) \<longleftrightarrow> raw_id unm r = i" if "r \<in> set (q_processing (Q d))" for r
    using that string_find_entry [OF codec good_entries(1) [OF good] dec] by (simp add: q_entries_def del: qview_of_sel)
  then obtain r where r: "find (\<lambda>r. string_find lp r (taskid_pattern i)) (q_processing (Q d)) = Some r"
    using find_Some_iff_ex raw i by (metis (no_types, lifting))
  then have "r \<in> set (q_processing (Q d))" "raw_id unm r = i" using find_SomeD [OF r] match by blast+
  moreover have "inj_on (raw_id unm) (set (q_entries (Q d)))"
    using good_entries(2) [OF good] by (simp add: distinct_map)
  ultimately have "r = raw" using raw i by (auto simp: q_entries_def inj_on_def simp del: qview_of_sel)
  with r show ?thesis by simp
qed

lemma AckTask_releases:
  assumes good: "good mar unm d" and raw: "raw \<in> set (q_processing (Q d))"
    and i: "raw_id unm raw = FR_TaskId t" and dec: "decimal (FR_TaskId t)"
  defines "d' \<equiv> snd (AckTask (Some S) lp Delivered (Some t) d)"
  shows "set (q_entries (Q d')) = set (q_entries (Q d)) - {raw}"
    and "q_pending (Q d') = q_pending (Q d) - {FR_TaskId t}"
    and "q_results (Q d') = q_results (Q d)"
proof -
  have typed: "queue_typed (view d)" using good by (simp add: good_def)
  have eff: "Q d' = ack_view (\<lambda>r. string_find lp r (taskid_pattern (FR_TaskId t))) (FR_TaskId t) (Q d)"
    using dec typed by (simp add: d'_def AckTask_state decimal_def ackTaskScript_effect(2))
  have "distinct (q_entries (Q d))" using good_entries(2) [OF good] by (simp add: distinct_map)
  then have "distinct (q_processing (Q d))" "raw \<notin> set (q_tasks (Q d))"
    using raw by (auto simp: q_entries_def simp del: qview_of_sel)
  then show "set (q_entries (Q d')) = set (q_entries (Q d)) - {raw}"
    using ack_view_of_entry [OF good raw i dec]
    by (auto simp: eff ack_view_def q_entries_def simp del: qview_of_sel)
  show "q_pending (Q d') = q_pending (Q d) - {FR_TaskId t}" and "q_results (Q d') = q_results (Q d)"
    by (simp_all add: eff ack_view_def del: qview_of_sel)
qed

lemma PushResult_only_results:
  assumes "queue_typed (view d)" and "marr r = Some data"
  defines "d' \<equiv> snd (PushResult (Some S) marr Delivered (Some r) d)"
  shows "Q d' = (Q d)\<lparr>q_results := data # q_results (Q d)\<rparr>" and "queue_typed (view d')"
  using assms(1,2) result_in_effect [OF assms(1), of data]
  by (simp_all add: d'_def PushResult_state del: qview_of_sel)

lemma run_task_effect:
  assumes good: "good mar unm d" and raw: "raw \<in> set (q_processing (Q d))"
    and i: "raw_id unm raw = FR_TaskId t" and dec: "decimal (FR_TaskId t)"
    and data: "marr (task_reply t ctx res) = Some data"
  defines "d' \<equiv> run_task (Some S) marr lp Delivered Delivered ctx t res d"
  shows "q_results (Q d') = data # q_results (Q d)"
    and "res \<noteq> None \<Longrightarrow> set (q_entries (Q d')) = set (q_entries (Q d)) - {raw} \<and> FR_TaskId t \<notin> q_pending (Q d')"
    and "res = None \<Longrightarrow> q_entries (Q d') = q_entries (Q d) \<and> q_pending (Q d') = q_pending (Q d)"
proof -
  let ?d1 = "snd (PushResult (Some S) marr Delivered (Some (task_reply t ctx res)) d)"
  have typed: "queue_typed (view d)" using good by (simp add: good_def)
  note push = PushResult_only_results [where marr = marr and r = "task_reply t ctx res", OF typed data]
  have same: "q_entries (Q ?d1) = q_entries (Q d)" "q_pending (Q ?d1) = q_pending (Q d)"
    "q_processing (Q ?d1) = q_processing (Q d)" "q_results (Q ?d1) = data # q_results (Q d)"
    by (simp_all add: push(1) q_entries_def del: qview_of_sel)
  have "good mar unm ?d1" using good push(2) same by (simp add: good_def queue_inv_def del: qview_of_sel)
  moreover have "raw \<in> set (q_processing (Q ?d1))" unfolding same by (rule raw)
  ultimately have ack: "set (q_entries (Q (snd (AckTask (Some S) lp Delivered (Some t) ?d1)))) = set (q_entries (Q d)) - {raw}"
      "q_pending (Q (snd (AckTask (Some S) lp Delivered (Some t) ?d1))) = q_pending (Q d) - {FR_TaskId t}"
      "q_results (Q (snd (AckTask (Some S) lp Delivered (Some t) ?d1))) = data # q_results (Q d)"
    using AckTask_releases [OF _ _ i dec] same by (simp_all del: qview_of_sel)
  show "q_results (Q d') = data # q_results (Q d)"
    using ack(3) same(4) by (cases res) (simp_all add: d'_def run_task_def Let_def del: qview_of_sel)
  show "res \<noteq> None \<Longrightarrow> set (q_entries (Q d')) = set (q_entries (Q d)) - {raw} \<and> FR_TaskId t \<notin> q_pending (Q d')"
    using ack(1,2) by (cases res) (simp_all add: d'_def run_task_def Let_def del: qview_of_sel)
  show "res = None \<Longrightarrow> q_entries (Q d') = q_entries (Q d) \<and> q_pending (Q d') = q_pending (Q d)"
    using same by (cases res) (simp_all add: d'_def run_task_def Let_def del: qview_of_sel)
qed

lemma run_task_typed:
  assumes "good mar unm d"
  shows "queue_typed (view (run_task (Some S) marr lp Delivered Delivered ctx t res d))"
proof -
  have push: "queue_typed (view (snd (PushResult (Some S) marr Delivered (Some r) d)))" for r
    using assms PushResult_only_results(2) by (cases "marr r") (auto simp: good_def PushResult_def)
  have "queue_typed (view (snd (AckTask (Some S) lp Delivered (Some t) d')))" if "queue_typed (view d')" for d'
    using that by (simp add: AckTask_state ackTaskScript_effect(3))
  with push show ?thesis by (simp add: run_task_def Let_def)
qed

end

text \<open>
  C5. A task that has been crawled is reported and released. For a task the crawler took from the
  queue, whatever the crawl did: the newest result carries its task id; when the crawl came to an end,
  its entry is gone from the queue, every other entry is still there and its id has left the pending
  set, so that it can be scheduled again; when its time ran out first, entries and pending set are
  unchanged, so that the janitor finds it and nobody schedules it twice.
\<close>

theorem crawled_task_is_reported_and_released:
  assumes "redis_server S view" and "protojson_codec mar unm" and "response_codec marr unmr"
    and "queue_typed (view d0)" and "q_entries (qview_of (view d0)) = []" and "(queue_step S view mar unm lp)\<^sup>*\<^sup>* d0 d"
    and "mar task = Some raw" and "decimal (FR_TaskId task)" and "raw \<in> set (q_processing (qview_of (view d)))"
    and "marr (task_reply task ctx (if late then None else Some (fst (FetchItems env as task s w)))) = Some data"
    and "d' = fst (process_task env as (Some S) marr lp Delivered Delivered ctx late task s w d)"
  shows "q_results (qview_of (view d')) = data # q_results (qview_of (view d)) \<and>
    map_option FP_TaskId (unmr data) = Some (FR_TaskId task) \<and>
    (if late
     then q_entries (qview_of (view d')) = q_entries (qview_of (view d)) \<and>
          q_pending (qview_of (view d')) = q_pending (qview_of (view d))
     else set (q_entries (qview_of (view d'))) = set (q_entries (qview_of (view d))) - {raw} \<and>
          FR_TaskId task \<notin> q_pending (qview_of (view d')))"
proof -
  note qc = queue_clientI [OF assms(1,2)]
  let ?res = "if late then None else Some (fst (FetchItems env as task s w))"
  have d': "d' = run_task (Some S) marr lp Delivered Delivered ctx task ?res d"
    using assms(11) by (simp add: process_task_def case_prod_beta)
  have good: "redis_server.good view mar unm d"
    using queue_client.reachable_good [OF qc assms(4-6)] .
  have i: "raw_id unm raw = FR_TaskId task" by (rule raw_id_marshal [OF assms(2,7)])
  note eff = queue_client.run_task_effect [where marr = marr and res = ?res and lp = lp, OF qc good assms(9) i assms(8,10), folded d']
  have "FP_TaskId (task_reply task ctx ?res) = FR_TaskId task"
    by (rule task_reply_id) (auto split: if_splits dest: FetchItems_task_id)
  moreover have "unmr data = Some (task_reply task ctx ?res)"
    using assms(3,10) by (simp add: response_codec_def)
  ultimately show ?thesis using eff by (cases late) (simp_all del: qview_of_sel)
qed

text \<open>
  The queue after a task was pushed and popped, and a crawl that fails because its context ends
  while it waits for the rate limiter.
\<close>

definition popped_ks :: keyspace where
  "popped_ks = snd (memory_server pushed_ks (BRPOPLPUSH KeyTaskQueue KeyTaskProcessingQueue))"

lemma popped_ks_reached: "(queue_step memory_server (\<lambda>ks. ks) mar1 unm1 (\<lambda>_ _. False))\<^sup>*\<^sup>* empty_keyspace popped_ks"
proof -
  have "queue_step memory_server (\<lambda>ks. ks) mar1 unm1 (\<lambda>_ _. False) empty_keyspace pushed_ks"
    using queue_step.push [of mar1 req1 raw1] by (simp add: pushed_ks_def)
  moreover have "queue_step memory_server (\<lambda>ks. ks) mar1 unm1 (\<lambda>_ _. False) pushed_ks popped_ks"
    unfolding popped_ks_def by (rule queue_step.pop)
  ultimately show ?thesis by (meson converse_rtranclp_into_rtranclp rtranclp.rtrancl_refl)
qed

lemma popped_ks_view:
  "qview_of popped_ks = \<lparr>q_tasks = [], q_processing = [raw1], q_results = [], q_pending = {''1001''}, q_started = []\<rparr>"
  using memory.pop_effect(2) [OF pushed_ks_view(2)]
  by (simp add: popped_ks_def pushed_ks_view pop_view_def del: qview_of_sel)

definition deadline :: crawl_err where
  "deadline = \<lparr>E_ctx = True, E_msg = ''context deadline exceeded''\<rparr>"

definition plain_start :: browser_start where
  "plain_start = \<lparr>bs_download = None, bs_launch = None, bs_connect = None, bs_id = 2\<rparr>"

definition demo_env :: "tkeyspace crawler_env" where
  "demo_env =
     \<lparr>ce_rdb = Some (\<lambda>t w c. map_prod Some id (memory_ttl t w c)), ce_rateLimited = True,
      ce_parse = \<lambda>u. Inr \<lparr>pu_Scheme = ''http'', pu_Host = u, pu_User = None\<rparr>, ce_BinPath = ''chrome'', ce_ProxyURL = ''proxy:8080'',
      ce_ProxyCooldown = 10 * Minute, ce_proxyFailureThreshold = 1, ce_proxyAutoSwitch = True,
      ce_maxTasks = 0, ce_maxFetchCount = 1, ce_marshal = \<lambda>_. Some [], ce_unmarshal = \<lambda>_. None, ce_ul = \<lambda>s. s\<rparr>"

definition demo_visit :: "rate_event list \<Rightarrow> string visit" where
  "demo_visit es =
     \<lparr>vs_now = 10, vs_rate = es, vs_ctx = deadline, vs_jitter_ended = False, vs_page = StepOk, vs_stealth = StepOk,
      vs_skip_cookies = False, vs_apply_ok = True, vs_navigate = StepOk, vs_info = Some (''Mercari'', ''https://jp.mercari.com''),
      vs_dom = cell, vs_root = ''cell'', vs_race_reply = Some (Inr HitItems), vs_race_ctx = deadline, vs_empties = Some 0,
      vs_elements = Elements [''x'', ''cell'', ''cell''], vs_cookies = Some [], vs_rnd = 0\<rparr>"

definition demo_health :: health_check where
  "demo_health = \<lparr>hc_ended = False, hc_start = plain_start, hc_page = True, hc_loaded = True, hc_title = Some ''httpbin'',
     hc_body = ''origin'', hc_interrupted = False\<rparr>"

definition demo_attempt :: "bool \<Rightarrow> nat \<Rightarrow> string attempt" where
  "demo_attempt ended i =
     \<lparr>at_now = int i * Second, at_started = int i * Second, at_start = plain_start,
      at_visit = demo_visit (if i = 0 then [Refused CtxDone] else [Allowed]), at_end = int i * Second,
      at_health = \<lambda>_. demo_health, at_ended = ended\<rparr>"

theorem crawl_returns_the_first_items_witness:
  "fst (read_items demo_env (demo_visit [Allowed]) req1 fresh_service empty_tks) =
    Inr \<lparr>FP_Items = take 1 (readable_items (\<lambda>s. s) cell (FR_Platform req1) [''x'', ''cell'', ''cell'']),
         FP_TotalFound = int (min 1 (length (readable_items (\<lambda>s. s) cell (FR_Platform req1) [''x'', ''cell'', ''cell'']))),
         FP_ErrorMessage = [], FP_TaskId = []\<rparr>"
  using crawl_returns_the_first_items [of "demo_visit [Allowed]" "[''x'', ''cell'', ''cell'']" demo_env req1 fresh_service empty_tks]
  by (simp add: demo_visit_def demo_env_def fetch_limit_def)

lemma crawlOnce_demo:
  "crawlOnce demo_env (demo_visit [Refused CtxDone]) req s w = (Inl (wrap_err ''rate limit wait timeout'' deadline), s, w)"
  by (simp add: crawlOnce_def demo_env_def demo_visit_def)

text \<open>The same crawler without the automatic switch: the crawl fails with the error of its only attempt.\<close>

definition direct_env :: "tkeyspace crawler_env" where
  "direct_env = demo_env\<lparr>ce_proxyAutoSwitch := False, ce_rdb := None\<rparr>"

lemma FetchItems_direct:
  "fst (FetchItems direct_env (demo_attempt False) req fresh_service w) = Inl (wrap_err ''rate limit wait timeout'' deadline)"
proof -
  have "crawlOnce direct_env (at_visit (demo_attempt False 0)) req s w = (Inl (wrap_err ''rate limit wait timeout'' deadline), s, w)" for s w
    by (simp add: crawlOnce_def direct_env_def demo_env_def demo_visit_def demo_attempt_def)
  moreover have "ensureBrowserState direct_env now later b (fresh_service\<lparr>sv_TotalProcessed := n\<rparr>) w =
      (None, fresh_service\<lparr>sv_TotalProcessed := n\<rparr>, w)" for now later b n w
    by (simp add: ensureBrowserState_def getProxyState_def direct_env_def demo_env_def fresh_service_def)
  moreover have "failed_attempt direct_env a i err s w = (Some err, s, w)" for a :: "string attempt" and i err s w
    by (simp add: failed_attempt_def direct_env_def incrConsecutiveFailures_def)
  moreover have "\<not> sv_forceProxyOnce (fresh_service\<lparr>sv_TotalProcessed := n\<rparr>)" for n
    by (simp add: fresh_service_def)
  ultimately show ?thesis
    by (simp add: FetchItems_def doCrawl.simps [of _ _ _ 0] Let_def)
qed

definition timeout_reply :: FetchResponse where
  "timeout_reply = \<lparr>FP_Items = [], FP_TotalFound = 0,
     FP_ErrorMessage = ''rate limit wait timeout: context deadline exceeded'', FP_TaskId = ''1001''\<rparr>"

lemma task_reply_direct:
  "task_reply req1 deadline (Some (fst (FetchItems direct_env (demo_attempt False) req1 fresh_service empty_tks))) = timeout_reply"
  by (simp add: FetchItems_direct task_reply_def timeout_reply_def wrap_err_def deadline_def)

theorem crawled_task_is_reported_and_released_witness:
  "q_results (qview_of (fst (process_task direct_env (demo_attempt False) (Some memory_server)
      (\<lambda>r. if r = timeout_reply then Some ''r'' else None) (\<lambda>_ _. False) Delivered Delivered deadline False
      req1 fresh_service empty_tks popped_ks))) = [''r''] \<and>
   ''1001'' \<notin> q_pending (qview_of (fst (process_task direct_env (demo_attempt False) (Some memory_server)
      (\<lambda>r. if r = timeout_reply then Some ''r'' else None) (\<lambda>_ _. False) Delivered Delivered deadline False
      req1 fresh_service empty_tks popped_ks)))"
proof -
  have codec: "response_codec (\<lambda>r. if r = timeout_reply then Some ''r'' else None) (\<lambda>_. Some timeout_reply)"
    by (simp add: response_codec_def)
  show ?thesis
    using crawled_task_is_reported_and_released [OF memory.redis_server_axioms example_codec codec _ _ popped_ks_reached,
        of req1 raw1 deadline False direct_env "demo_attempt False" fresh_service empty_tks "''r''"]
    by (simp add: task_reply_direct popped_ks_view del: qview_of_sel)
qed

section \<open>The proxy\<close>

text \<open>
  A crawl keeps the two keys the switch is decided by: it only writes the cookies and the count of
  blocks.
\<close>

lemma crawler_keys_distinct:
  "proxyCooldownKey \<noteq> consecutiveFailuresKey" "proxyCooldownKey \<noteq> cookieCacheKey" "proxyCooldownKey \<noteq> consecutiveBlockKey"
  "consecutiveFailuresKey \<noteq> cookieCacheKey" "consecutiveFailuresKey \<noteq> consecutiveBlockKey"
  "consecutiveFailuresKey \<noteq> proxyCooldownKey"
  by (simp_all add: proxyCooldownKey_def consecutiveFailuresKey_def cookieCacheKey_def consecutiveBlockKey_def)

text \<open>A connection over which every command reaches a server with the documented behaviour.\<close>

locale delivered_redis =
  fixes R :: "'w redis_conn" and rv :: "'w \<Rightarrow> tkeyspace"
  assumes conn_reply: "fst (R t w c) = Some (fst (ttl_doc t c (rv w)))"
    and conn_effect: "rv (snd (R t w c)) = snd (ttl_doc t c (rv w))"
begin

text \<open>What a step of the crawler leaves alone.\<close>

definition keeps :: "'w \<Rightarrow> 'w \<Rightarrow> bool" where
  "keeps w w' \<longleftrightarrow> rv w' proxyCooldownKey = rv w proxyCooldownKey \<and> rv w' consecutiveFailuresKey = rv w consecutiveFailuresKey"

lemma keeps_refl [simp]: "keeps w w"
  by (simp add: keeps_def)

lemma keeps_trans: "keeps w w1 \<Longrightarrow> keeps w1 w2 \<Longrightarrow> keeps w w2"
  by (simp add: keeps_def)

lemma keeps_commands [simp]:
  "keeps w (snd (R t w (SET cookieCacheKey v ttl)))" "keeps w (snd (R t w (TDEL cookieCacheKey)))"
  "keeps w (snd (R t w (GET cookieCacheKey)))" "keeps w (snd (R t w (INCR consecutiveBlockKey)))"
  "keeps w (snd (R t w (EXPIRE consecutiveBlockKey ttl)))" "keeps w (snd (R t w (TDEL consecutiveBlockKey)))"
  by (auto simp: keeps_def conn_effect crawler_keys_distinct split: option.split prod.split)

lemma keeps_SaveCookies: "keeps w (snd (snd (SaveCookies m (Some R) now page cm w)))"
  by (simp add: SaveCookies_def case_prod_beta conn_reply Let_def split: option.split)

lemma keeps_ClearCookies: "keeps w (snd (ClearCookies (Some R) now cm w))"
  by (simp add: ClearCookies_def)

lemma keeps_LoadCookies: "keeps w (snd (snd (LoadCookies u (Some R) now skip ok cm w)))"
  using keeps_ClearCookies [of w now cm] keeps_commands(3) [of w now]
  by (simp add: LoadCookies_def case_prod_beta Let_def split: option.split redis_reply.split)

lemma keeps_shared_count: "keeps w (snd (shared_count (Some R) now cnt w))"
  using keeps_trans [OF keeps_commands(4) keeps_commands(5)]
  by (simp add: shared_count_def case_prod_beta)

lemma keeps_RecordBlock: "keeps w (snd (snd (RecordBlock (Some R) now rnd th w)))"
  using keeps_shared_count [of w now "int32 (at_blocks th + 1)"]
  by (simp add: RecordBlock_def Let_def case_prod_beta)

lemma keeps_RecordSuccess: "keeps w (snd (RecordSuccess (Some R) now th w))"
  by (simp add: RecordSuccess_def)

text \<open>A crawl does not change the mode either.\<close>

definition frame :: "Service \<Rightarrow> 'w \<Rightarrow> 'r \<times> Service \<times> 'w \<Rightarrow> bool" where
  "frame s w r \<longleftrightarrow> sv_currentIsProxy (fst (snd r)) = sv_currentIsProxy s \<and> keeps w (snd (snd r))"

lemma frame_refl [simp]: "frame s w (x, s, w)"
  by (simp add: frame_def)

lemma frame_block_reply: "ce_rdb env = Some R \<Longrightarrow> frame s w (block_reply env v ty s w)"
  using keeps_RecordBlock keeps_trans [OF keeps_ClearCookies keeps_RecordBlock]
  by (simp add: frame_def block_reply_def handleBlockEvent_def case_prod_beta split: option.split)

lemma frame_read_items: "ce_rdb env = Some R \<Longrightarrow> frame s w (read_items env v req s w)"
  using keeps_RecordSuccess keeps_trans [OF keeps_SaveCookies keeps_RecordSuccess]
  by (simp add: frame_def read_items_def Let_def case_prod_beta split: elements_outcome.split)

lemma frame_inspect_page: "ce_rdb env = Some R \<Longrightarrow> frame s w (inspect_page env v req s w)"
  by (simp add: inspect_page_def no_items_reply_def frame_block_reply frame_read_items Let_def)

lemma frame_open_page:
  assumes "ce_rdb env = Some R"
  shows "frame s w (open_page env v req s w)"
proof -
  obtain x cm w1 where l: "LoadCookies (ce_unmarshal env) (Some R) (vs_now v) (vs_skip_cookies v) (vs_apply_ok v) (sv_cookieManager s) w = (x, cm, w1)"
    by (metis prod_cases3)
  then have k: "keeps w w1" using keeps_LoadCookies by (metis snd_conv)
  have "frame s w (inspect_page env v req (s\<lparr>sv_cookieManager := cm\<rparr>) w1)"
    using frame_inspect_page [OF assms, of "s\<lparr>sv_cookieManager := cm\<rparr>" w1 v req] keeps_trans [OF k] by (simp add: frame_def)
  then have "frame s w (visit_page env v req s w)"
    using k by (simp add: visit_page_def assms l frame_def Let_def split: step_outcome.split)
  then show ?thesis by (simp add: open_page_def split: step_outcome.split)
qed

lemma frame_crawlOnce:
  assumes "ce_rdb env = Some R"
  shows "frame s w (crawlOnce env v req s w)"
proof -
  have "frame s w (case open_page env v req (s\<lparr>sv_activePages := n\<rparr>) w of (r, s2, w2) \<Rightarrow> (r, trackPageEnd s2, w2))" for n
    using frame_open_page [OF assms, of "s\<lparr>sv_activePages := n\<rparr>" w v req] by (simp add: frame_def case_prod_beta)
  then show ?thesis by (simp add: crawlOnce_def trackPageStart_def split: option.split)
qed

text \<open>The counter of failures.\<close>

lemma incr_failures:
  assumes "ce_rdb env = Some R" and "live t (rv w) consecutiveFailuresKey = (if n = 0 then RNone else RStr (FormatInt n))"
    and "0 \<le> n" and "n < 9223372036854775807"
  shows "fst (incrConsecutiveFailures env t w) = n + 1"
    and "rv (snd (incrConsecutiveFailures env t w)) proxyCooldownKey = rv w proxyCooldownKey"
  using assms by (auto simp: incrConsecutiveFailures_def case_prod_beta conn_reply conn_effect crawler_keys_distinct)

lemma reset_failures_keeps_cooldown:
  "ce_rdb env = Some R \<Longrightarrow> rv (resetConsecutiveFailures env t w) proxyCooldownKey = rv w proxyCooldownKey"
  by (simp add: resetConsecutiveFailures_def conn_effect crawler_keys_distinct)

lemma any_incr_keeps_cooldown:
  "ce_rdb env = Some R \<Longrightarrow> rv (snd (incrConsecutiveFailures env t w)) proxyCooldownKey = rv w proxyCooldownKey"
  by (auto simp: incrConsecutiveFailures_def case_prod_beta conn_effect crawler_keys_distinct
      split: option.split prod.split redis_reply.split)

lemma exists_keeps: "rv (snd (R t w (EXISTS k))) = rv w"
  by (simp add: conn_effect)

lemma ensure_keeps: "ce_rdb env = Some R \<Longrightarrow> rv (snd (snd (ensureBrowserState env now later b s w))) = rv w"
  by (simp add: ensureBrowserState_def getProxyState_def case_prod_beta conn_reply exists_keeps split: option.split)

lemma ensure_stays_direct:
  assumes "ce_rdb env = Some R" and "\<not> sv_currentIsProxy s" and "sv_proxyCacheUntil s \<le> now"
    and "live now (rv w) proxyCooldownKey = RNone"
  obtains w1 where "ensureBrowserState env now later b s w =
      (None, s\<lparr>sv_proxyCache := False, sv_proxyCacheUntil := now + proxyCacheTTL\<rparr>, w1)" and "rv w1 = rv w"
proof
  show "ensureBrowserState env now later b s w =
      (None, s\<lparr>sv_proxyCache := False, sv_proxyCacheUntil := now + proxyCacheTTL\<rparr>, snd (R now w (EXISTS proxyCooldownKey)))"
    using assms by (simp add: ensureBrowserState_def getProxyState_def case_prod_beta conn_reply)
qed (rule exists_keeps)

lemma retry_keeps_cooldown:
  assumes "ce_rdb env = Some R"
  shows "rv (snd (snd (doCrawl env as req (Suc i) s w))) proxyCooldownKey = rv w proxyCooldownKey"
proof -
  obtain e s1 w1 where en: "ensureBrowserState env (at_now (as (Suc i))) (at_started (as (Suc i))) (at_start (as (Suc i))) s w = (e, s1, w1)"
    by (metis prod_cases3)
  then have w1: "rv w1 = rv w" using ensure_keeps [OF assms] by (metis snd_conv)
  obtain r s2 w2 where c: "crawlOnce env (at_visit (as (Suc i))) req s1 w1 = (r, s2, w2)" by (metis prod_cases3)
  then have w2: "rv w2 proxyCooldownKey = rv w1 proxyCooldownKey"
    using frame_crawlOnce [OF assms, of s1 w1] by (metis frame_def keeps_def snd_conv)
  show ?thesis
    using reset_failures_keeps_cooldown [OF assms] any_incr_keeps_cooldown [OF assms] w1 w2
    by (simp add: doCrawl.simps [of _ _ _ "Suc i"] en c failed_attempt_def case_prod_beta split: option.split sum.split)
qed

lemma cooldown_lives:
  assumes "ce_rdb env = Some R" and "0 < ce_ProxyCooldown env"
  shows "live t (rv (snd (snd (setProxyCooldown env t (ce_ProxyCooldown env) s w)))) proxyCooldownKey \<noteq> RNone"
  using assms by (auto simp: setProxyCooldown_def Let_def conn_effect expire_at_def pos_imp_zdiv_pos_iff)

text \<open>The switch, decided by the first attempt.\<close>

lemma first_attempt_decides:
  assumes rdb: "ce_rdb env = Some R" and cd: "0 < ce_ProxyCooldown env"
    and s: "\<not> sv_currentIsProxy s" "\<not> sv_forceProxyOnce s" "sv_proxyCacheUntil s \<le> at_now (as 0)"
    and none: "live (at_now (as 0)) (rv w) proxyCooldownKey = RNone" "at_now (as 0) \<le> at_end (as 0)"
    and n: "live (at_end (as 0)) (rv w) consecutiveFailuresKey = (if n = 0 then RNone else RStr (FormatInt n))"
      "0 \<le> n" "n < 9223372036854775807"
    and en: "ensureBrowserState env (at_now (as 0)) (at_started (as 0)) (at_start (as 0)) s w = (None, s1, w1)"
    and c: "crawlOnce env (at_visit (as 0)) req s1 w1 = (r, s2, w2)"
  shows "live (at_end (as 0)) (rv (snd (snd (doCrawl env as req 0 s w)))) proxyCooldownKey \<noteq> RNone \<longleftrightarrow>
    (\<exists>err. r = Inl err \<and> ce_proxyAutoSwitch env \<and> shouldActivateProxy (ce_ul env) (Some err) \<and>
       ce_proxyFailureThreshold env \<le> n + 1 \<and> checkProxyHealthWithRetry env (at_health (as 0)) 0 2)"
proof -
  let ?t = "at_end (as 0)"
  have s1: "s1 = s\<lparr>sv_proxyCache := False, sv_proxyCacheUntil := at_now (as 0) + proxyCacheTTL\<rparr>" and w1: "rv w1 = rv w"
    using ensure_stays_direct [OF rdb s(1,3) none(1), of "at_started (as 0)" "at_start (as 0)"] en by auto
  have fr: "frame s1 w1 (r, s2, w2)" using frame_crawlOnce [OF rdb, of s1 w1] c by metis
  then have direct: "\<not> isUsingProxy s2" using s(1) s1 by (simp add: frame_def isUsingProxy_def)
  have kept: "rv w2 proxyCooldownKey = rv w proxyCooldownKey" "rv w2 consecutiveFailuresKey = rv w consecutiveFailuresKey"
    using fr w1 by (simp_all add: frame_def keeps_def)
  have dead: "live ?t (rv w) proxyCooldownKey = RNone" by (rule live_expires [OF none])
  have n2: "live ?t (rv w2) consecutiveFailuresKey = (if n = 0 then RNone else RStr (FormatInt n))"
    using live_same [of "rv w2" consecutiveFailuresKey "rv w"] kept(2) n(1) by metis
  note incr = incr_failures [OF rdb n2 n(2,3)]
  have step: "doCrawl env as req 0 s w =
      (case r of Inr response \<Rightarrow> (Inr response, s2, resetConsecutiveFailures env ?t w2)
       | Inl err \<Rightarrow> (case failed_attempt env (as 0) 0 err s2 w2 of
             (Some e, s3, w3) \<Rightarrow> (Inl e, s3, w3)
           | (None, s3, w3) \<Rightarrow> doCrawl env as req (Suc 0) s3 w3))"
    using s(1,2) s1 c by (simp add: doCrawl.simps [of _ _ _ 0] en isUsingProxy_def split: sum.split option.split prod.split)
  have off: "live ?t (rv w') proxyCooldownKey = RNone" if "rv w' proxyCooldownKey = rv w proxyCooldownKey" for w'
    using live_same [of "rv w'" proxyCooldownKey "rv w"] that dead by metis
  show ?thesis
  proof (cases r)
    case (Inr response)
    then show ?thesis using off reset_failures_keeps_cooldown [OF rdb] kept(1) by (simp add: step)
  next
    case (Inl err)
    define go where "go \<longleftrightarrow> ce_proxyAutoSwitch env \<and> shouldActivateProxy (ce_ul env) (Some err) \<and>
       ce_proxyFailureThreshold env \<le> n + 1 \<and> checkProxyHealthWithRetry env (at_health (as 0)) 0 2"
    show ?thesis
    proof (cases go)
      case True
      obtain e s3 w3 where sp: "setProxyCooldown env ?t (ce_ProxyCooldown env) s2
          (resetConsecutiveFailures env ?t (snd (incrConsecutiveFailures env ?t w2))) = (e, s3, w3)" by (metis prod_cases3)
      then have lives: "live ?t (rv w3) proxyCooldownKey \<noteq> RNone"
        using cooldown_lives [OF rdb cd] by (metis snd_conv)
      have "snd (snd (doCrawl env as req 0 s w)) \<in> {w3, snd (snd (doCrawl env as req (Suc 0) s3 w3))}"
        using True direct incr(1) sp by (simp add: step Inl failed_attempt_def case_prod_beta go_def)
      then have "rv (snd (snd (doCrawl env as req 0 s w))) proxyCooldownKey = rv w3 proxyCooldownKey"
        using retry_keeps_cooldown [OF rdb] by auto
      then show ?thesis using lives live_same True Inl unfolding go_def by (metis (no_types, lifting))
    next
      case False
      then have "snd (snd (doCrawl env as req 0 s w)) = snd (incrConsecutiveFailures env ?t w2)"
        using direct incr(1) by (auto simp: step Inl failed_attempt_def case_prod_beta go_def)
      then show ?thesis using off incr(2) kept(1) False Inl unfolding go_def by (metis (no_types, lifting) sum.inject(1))
    qed
  qed
qed

end

interpretation ttl_conn: delivered_redis "\<lambda>t w c. map_prod Some id (memory_ttl t w c)" "\<lambda>ks. ks"
  by unfold_locales (simp_all add: memory_ttl_def)

sublocale services \<subseteq> conn: delivered_redis R rv
  by unfold_locales (rule redis_reply redis_effect)+

lemma FetchItems_world: "snd (snd (FetchItems env as req s w)) =
   snd (snd (doCrawl env as req 0 (s\<lparr>sv_TotalProcessed := int64 (sv_TotalProcessed s + 1)\<rparr>) w))"
  by (simp add: FetchItems_def Let_def case_prod_beta split: sum.split)



section \<open>The loop\<close>

definition worker_inv :: "loop_state \<Rightarrow> bool" where
  "worker_inv st \<longleftrightarrow>
     ws_sem st = length (ws_tasks st) + (if ws_loop st = LPop then 1 else 0) \<and> ws_sem st \<le> ws_limit st"

lemma worker_step_limit: "worker_step st st' \<Longrightarrow> ws_limit st' = ws_limit st"
  by (induction rule: worker_step.induct) (simp_all add: start_task_def pop_failed_def leave_task_def)

interpretation loop: invariant_system "\<lambda>st. \<exists>m. st = StartWorker m" worker_step worker_inv
proof
  fix st st' assume "worker_inv st" "worker_step st st'"
  then show "worker_inv st'"
    by (cases rule: worker_step.cases [OF \<open>worker_step st st'\<close>])
      (auto simp: worker_inv_def start_task_def pop_failed_def leave_task_def length_drop_nth)
qed (auto simp: worker_inv_def StartWorker_def)

lemma worker_steps_limit: "worker_step\<^sup>*\<^sup>* st st' \<Longrightarrow> ws_limit st' = ws_limit st"
  by (induction rule: rtranclp_induct) (simp_all add: worker_step_limit)

text \<open>
  The loop keeps its bound: at every moment the number of tasks in work is at most the configured
  concurrency (one if that is not positive), and the tokens taken are those of the tasks, plus one while
  a task is being fetched, so that no token is lost.
\<close>

theorem tasks_stay_within_concurrency:
  assumes "worker_step\<^sup>*\<^sup>* (StartWorker m) st"
  shows "int (length (ws_tasks st)) \<le> max 1 m \<and>
    ws_sem st = length (ws_tasks st) + (if ws_loop st = LPop then 1 else 0)"
proof -
  have "worker_inv st" using loop.reachable_invar assms by blast
  moreover have "int (ws_limit st) = max 1 m"
    using worker_steps_limit [OF assms] by (simp add: StartWorker_def)
  ultimately show ?thesis by (auto simp: worker_inv_def split: if_splits)
qed

theorem tasks_stay_within_concurrency_witness:
  "int (length (ws_tasks (start_task req1 ((StartWorker 0)\<lparr>ws_sem := 1, ws_loop := LPop\<rparr>)))) \<le> max 1 0 \<and>
   ws_sem (start_task req1 ((StartWorker 0)\<lparr>ws_sem := 1, ws_loop := LPop\<rparr>)) = 1"
proof -
  let ?st = "(StartWorker 0)\<lparr>ws_sem := 1, ws_loop := LPop\<rparr>"
  have "worker_step (StartWorker 0) ?st"
    using worker_step.acquire [of "StartWorker 0"] by (simp add: StartWorker_def)
  moreover have "worker_step ?st (start_task req1 ?st)" by (rule worker_step.popped) simp
  ultimately have "worker_step\<^sup>*\<^sup>* (StartWorker 0) (start_task req1 ?st)"
    by (meson converse_rtranclp_into_rtranclp rtranclp.rtrancl_refl)
  from tasks_stay_within_concurrency [OF this] show ?thesis by (simp add: start_task_def StartWorker_def)
qed

text \<open>
  The bound does not hold for the crawls themselves, whose pages it is meant to limit: a task that
  times out gives its token back while its crawl goes on, so that with a concurrency of one any number
  of crawls can be under way.
\<close>

theorem crawls_can_exceed_concurrency:
  "\<exists>st. worker_step\<^sup>*\<^sup>* (StartWorker 1) st \<and> running_crawls st = int n"
proof -
  have "\<exists>st. worker_step\<^sup>*\<^sup>* (StartWorker 1) st \<and> st = (StartWorker 1)\<lparr>ws_stray := n\<rparr>"
  proof (induction n)
    case 0
    show ?case by (intro exI [of _ "StartWorker 1"]) (simp add: StartWorker_def)
  next
    case (Suc n)
    define s0 where "s0 = (StartWorker 1)\<lparr>ws_stray := n\<rparr>"
    define s1 where "s1 = s0\<lparr>ws_sem := ws_sem s0 + 1, ws_loop := LPop\<rparr>"
    define s2 where "s2 = start_task empty_FetchRequest s1"
    define s3 where "s3 = (leave_task 0 s2)\<lparr>ws_stray := ws_stray s2 + 1\<rparr>"
    have "worker_step s0 s1" unfolding s1_def by (rule worker_step.acquire) (simp_all add: s0_def StartWorker_def)
    moreover have "worker_step s1 s2" unfolding s2_def by (rule worker_step.popped) (simp add: s1_def)
    moreover have "worker_step s2 s3" unfolding s3_def
      by (rule worker_step.timed_out [where t = empty_FetchRequest]) (simp_all add: s2_def s1_def s0_def start_task_def StartWorker_def)
    ultimately have "worker_step\<^sup>*\<^sup>* s0 s3" by (meson converse_rtranclp_into_rtranclp rtranclp.rtrancl_refl)
    moreover have "s3 = (StartWorker 1)\<lparr>ws_stray := Suc n\<rparr>"
      by (simp add: s3_def s2_def s1_def s0_def leave_task_def start_task_def StartWorker_def drop_nth_def)
    ultimately show ?case using Suc s0_def by (metis rtranclp_trans)
  qed
  then show ?thesis by (auto simp: running_crawls_def StartWorker_def)
qed

end
