(* ===== verification/WorkerPool.thy ===== *)
theory WorkerPool
  imports GoStd
begin

text \<open>
  The in-memory job queue with its fixed worker pool, \<^verbatim>\<open>internal/pkg/queue/queue.go\<close>.

  The state holds the bounded channel, the closed flag, the counters, the state of every worker
  goroutine and the producers that are in the middle of an enqueue. Every access to shared
  state (an atomic load or add, a channel operation, the compare-and-swap of a shutdown) is one
  step of \<open>pool_step\<close>; workers, producers and the shutdown interleave freely. What a job and
  the error handler do is chosen by the environment: return, return an error, or panic.
  The metrics are those of \<^verbatim>\<open>PoolMetrics\<close>; log lines are left out; the counters are unbounded.

  The lemmas show that the counters add up in every reachable state, that the channel keeps
  its bound, that a graceful shutdown runs every accepted job and ends, and that a producer
  that passed the closed check can still hit the closed channel.
\<close>

section \<open>State\<close>

record QueueStats =
  TotalEnqueued :: int
  TotalProcessed :: int
  TotalSucceeded :: int
  TotalFailed :: int
  TotalDropped :: int
  TotalPanics :: int

definition zero_stats :: QueueStats where
  "zero_stats = \<lparr>TotalEnqueued = 0, TotalProcessed = 0, TotalSucceeded = 0, TotalFailed = 0,
     TotalDropped = 0, TotalPanics = 0\<rparr>"

text \<open>
  A worker waits for a job, runs one, has counted it as processed (with or without an error),
  runs the error handler, is recovering from a panic (of the job, or of the handler), or is
  gone.
\<close>

datatype 'j worker_state =
    WIdle
  | WRunning 'j
  | WReturned 'j bool
  | WHandling 'j
  | WPanicked bool
  | WExited

text \<open>
  A producer has passed the closed check and is about to send (a blocking one waits for room),
  or has sent and is about to count; the flag is that of a blocking one.
\<close>

datatype 'j producer = PSending 'j bool | PSent bool

primrec has_sent :: "'j producer \<Rightarrow> bool" where
  "has_sent (PSending j blocking) = False"
| "has_sent (PSent blocking) = True"

text \<open>
  \<open>p_shutting\<close> is the moment between the compare-and-swap and \<^verbatim>\<open>close\<close>; \<open>p_crashed\<close> records a
  send on the closed channel, which ends the program; \<open>p_handler_panics\<close> is a history variable
  that counts the panics of the error handler.
\<close>

record 'j Queue =
  p_workers :: nat
  p_capacity :: nat
  p_jobs :: "'j list"
  p_chan_closed :: bool
  p_handler :: bool
  p_closed :: bool
  p_stats :: QueueStats
  p_pool :: "'j worker_state list"
  p_producers :: "'j producer list"
  p_ctx_done :: bool
  p_shutting :: bool
  p_crashed :: bool
  p_handler_panics :: int

definition NewQueue :: "int \<Rightarrow> int \<Rightarrow> 'j Queue" where
  "NewQueue workers capacity =
     (let workers = (if workers \<le> 0 then 1 else workers);
          capacity = (if capacity \<le> 0 then 1 else capacity)
      in \<lparr>p_workers = nat workers, p_capacity = nat capacity, p_jobs = [], p_chan_closed = False,
          p_handler = False, p_closed = False, p_stats = zero_stats, p_pool = [], p_producers = [],
          p_ctx_done = False, p_shutting = False, p_crashed = False, p_handler_panics = 0\<rparr>)"

definition SetErrorHandler :: "bool \<Rightarrow> 'j Queue \<Rightarrow> 'j Queue" where
  "SetErrorHandler handler q = q\<lparr>p_handler := handler\<rparr>"

definition Start :: "'j Queue \<Rightarrow> 'j Queue" where
  "Start q = q\<lparr>p_pool := p_pool q @ replicate (p_workers q) WIdle\<rparr>"

section \<open>Workers\<close>

definition set_worker :: "nat \<Rightarrow> 'j worker_state \<Rightarrow> 'j Queue \<Rightarrow> 'j Queue" where
  "set_worker i w q = q\<lparr>p_pool := (p_pool q)[i := w]\<rparr>"

definition add_stats :: "(QueueStats \<Rightarrow> QueueStats) \<Rightarrow> 'j Queue \<Rightarrow> 'j Queue" where
  "add_stats f q = q\<lparr>p_stats := f (p_stats q)\<rparr>"

text \<open>
  One pass of the select loop of an idle worker. \<^verbatim>\<open>select\<close> picks any ready case: \<open>stop\<close> is the
  choice of the context's case when the context is done.
\<close>

definition worker :: "nat \<Rightarrow> bool \<Rightarrow> 'j Queue \<Rightarrow> 'j Queue option" where
  "worker i stop q =
     (if stop then (if p_ctx_done q then Some (set_worker i WExited q) else None)
      else (case p_jobs q of
              job # rest \<Rightarrow> Some (set_worker i (WRunning job) (q\<lparr>p_jobs := rest\<rparr>))
            | [] \<Rightarrow> if p_chan_closed q then Some (set_worker i WExited q) else None))"

datatype job_result = JobOk | JobErr | JobPanic

text \<open>
  The run of a job, statement by statement: the job returns and is counted as processed (or
  panics); the outcome is counted; the handler runs and returns or panics; a panic is counted
  by the deferred recovery. Afterwards the worker is idle again.
\<close>

definition executeJob :: "nat \<Rightarrow> job_result \<Rightarrow> 'j Queue \<Rightarrow> 'j Queue option" where
  "executeJob i res q =
     (case p_pool q ! i of
        WRunning job \<Rightarrow>
          (case res of
             JobPanic \<Rightarrow> Some (set_worker i (WPanicked True) q)
           | _ \<Rightarrow> Some (set_worker i (WReturned job (res = JobOk))
                     (add_stats (\<lambda>s. s\<lparr>TotalProcessed := TotalProcessed s + 1\<rparr>) q)))
      | WReturned job ok \<Rightarrow>
          if ok
          then Some (set_worker i WIdle (add_stats (\<lambda>s. s\<lparr>TotalSucceeded := TotalSucceeded s + 1\<rparr>) q))
          else Some (set_worker i (if p_handler q then WHandling job else WIdle)
                       (add_stats (\<lambda>s. s\<lparr>TotalFailed := TotalFailed s + 1\<rparr>) q))
      | WHandling job \<Rightarrow>
          (case res of
             JobPanic \<Rightarrow> Some (set_worker i (WPanicked False) q)
           | _ \<Rightarrow> Some (set_worker i WIdle q))
      | WPanicked of_job \<Rightarrow>
          Some (set_worker i WIdle
                  ((add_stats (\<lambda>s. s\<lparr>TotalPanics := TotalPanics s + 1\<rparr>) q)
                     \<lparr>p_handler_panics := p_handler_panics q + (if of_job then 0 else 1)\<rparr>))
      | _ \<Rightarrow> None)"

section \<open>Producers\<close>

text \<open>The check at the start of an enqueue; a rejected call ends here. A nil job is \<open>None\<close>.\<close>

definition enqueue_begin :: "'j option \<Rightarrow> bool \<Rightarrow> 'j Queue \<Rightarrow> 'j Queue option" where
  "enqueue_begin job blocking q =
     (case job of
        None \<Rightarrow> None
      | Some j \<Rightarrow>
          if p_closed q then None
          else Some (q\<lparr>p_producers := p_producers q @ [PSending j blocking]\<rparr>))"

text \<open>
  The select of an enqueue. A send on a closed channel panics. On a full channel a
  non-blocking call drops the job; a blocking one waits, which is \<open>None\<close> here.
\<close>

definition enqueue_select :: "nat \<Rightarrow> 'j Queue \<Rightarrow> 'j Queue option" where
  "enqueue_select k q =
     (case p_producers q ! k of
        PSending job blocking \<Rightarrow>
          if p_chan_closed q then Some (q\<lparr>p_crashed := True\<rparr>)
          else if length (p_jobs q) < p_capacity q
          then Some (q\<lparr>p_jobs := p_jobs q @ [job], p_producers := (p_producers q)[k := PSent blocking]\<rparr>)
          else if blocking then None
          else Some (add_stats (\<lambda>s. s\<lparr>TotalDropped := TotalDropped s + 1\<rparr>)
                       (q\<lparr>p_producers := drop_nth k (p_producers q)\<rparr>))
      | PSent blocking \<Rightarrow>
          Some (add_stats (\<lambda>s. s\<lparr>TotalEnqueued := TotalEnqueued s + 1\<rparr>)
                  (q\<lparr>p_producers := drop_nth k (p_producers q)\<rparr>)))"

text \<open>A blocking producer whose context ends gives up.\<close>

definition enqueue_cancel :: "nat \<Rightarrow> 'j Queue \<Rightarrow> 'j Queue option" where
  "enqueue_cancel k q =
     (case p_producers q ! k of
        PSending job True \<Rightarrow> Some (q\<lparr>p_producers := drop_nth k (p_producers q)\<rparr>)
      | _ \<Rightarrow> None)"

text \<open>
  The whole calls, when nothing else runs in between. A blocking call on a full channel that
  stays full ends with its context's error.
\<close>

datatype enqueue_error = JobIsNil | QueueIsClosed | CtxErr

definition Enqueue :: "'j option \<Rightarrow> 'j Queue \<Rightarrow> bool \<times> 'j Queue" where
  "Enqueue job q =
     (case job of
        None \<Rightarrow> (False, q)
      | Some j \<Rightarrow>
          if p_closed q then (False, q)
          else if p_chan_closed q then (False, q\<lparr>p_crashed := True\<rparr>)
          else if length (p_jobs q) < p_capacity q
          then (True, add_stats (\<lambda>s. s\<lparr>TotalEnqueued := TotalEnqueued s + 1\<rparr>)
                        (q\<lparr>p_jobs := p_jobs q @ [j]\<rparr>))
          else (False, add_stats (\<lambda>s. s\<lparr>TotalDropped := TotalDropped s + 1\<rparr>) q))"

definition EnqueueBlocking :: "'j option \<Rightarrow> 'j Queue \<Rightarrow> enqueue_error option \<times> 'j Queue" where
  "EnqueueBlocking job q =
     (case job of
        None \<Rightarrow> (Some JobIsNil, q)
      | Some j \<Rightarrow>
          if p_closed q then (Some QueueIsClosed, q)
          else if p_chan_closed q then (None, q\<lparr>p_crashed := True\<rparr>)
          else if length (p_jobs q) < p_capacity q
          then (None, add_stats (\<lambda>s. s\<lparr>TotalEnqueued := TotalEnqueued s + 1\<rparr>)
                        (q\<lparr>p_jobs := p_jobs q @ [j]\<rparr>))
          else (Some CtxErr, q))"

definition EnqueueWithTimeout :: "'j option \<Rightarrow> 'j Queue \<Rightarrow> enqueue_error option \<times> 'j Queue" where
  "EnqueueWithTimeout job q =
     (case job of
        None \<Rightarrow> (Some JobIsNil, q)
      | Some j \<Rightarrow> if p_closed q then (Some QueueIsClosed, q) else EnqueueBlocking job q)"

section \<open>Shutdown\<close>

text \<open>
  The compare-and-swap, the close of the channel, and the wait for the workers, as separate
  steps. \<open>shutdown_done\<close> is what the wait group waits for.
\<close>

definition shutdown_swap :: "'j Queue \<Rightarrow> 'j Queue option" where
  "shutdown_swap q =
     (if p_closed q then None else Some (q\<lparr>p_closed := True, p_shutting := True\<rparr>))"

definition shutdown_close :: "'j Queue \<Rightarrow> 'j Queue option" where
  "shutdown_close q =
     (if p_shutting q then Some (q\<lparr>p_chan_closed := True, p_shutting := False\<rparr>) else None)"

definition shutdown_done :: "'j Queue \<Rightarrow> bool" where
  "shutdown_done q \<longleftrightarrow> p_chan_closed q \<and> (\<forall>w \<in> set (p_pool q). w = WExited)"

text \<open>
  The calls: \<open>run\<close> stands for what the rest of the program does until the wait group is done.
  The variant with a timeout returns an error for a second call and when the timer fires first
  (\<open>expired\<close>).
\<close>

definition Shutdown :: "('j Queue \<Rightarrow> 'j Queue) \<Rightarrow> 'j Queue \<Rightarrow> 'j Queue" where
  "Shutdown run q =
     (case shutdown_swap q of
        None \<Rightarrow> q
      | Some q1 \<Rightarrow> (case shutdown_close q1 of None \<Rightarrow> q1 | Some q2 \<Rightarrow> run q2))"

datatype shutdown_error = AlreadyClosed | ShutdownTimeout

definition ShutdownWithTimeout ::
  "('j Queue \<Rightarrow> 'j Queue) \<Rightarrow> bool \<Rightarrow> 'j Queue \<Rightarrow> shutdown_error option \<times> 'j Queue"
where
  "ShutdownWithTimeout run expired q =
     (case shutdown_swap q of
        None \<Rightarrow> (Some AlreadyClosed, q)
      | Some q1 \<Rightarrow>
          (case shutdown_close q1 of
             None \<Rightarrow> (None, q1)
           | Some q2 \<Rightarrow> ((if expired then Some ShutdownTimeout else None), run q2)))"

section \<open>Readers\<close>

definition Stats :: "'j Queue \<Rightarrow> QueueStats" where
  "Stats q =
     \<lparr>TotalEnqueued = TotalEnqueued (p_stats q), TotalProcessed = TotalProcessed (p_stats q),
      TotalSucceeded = TotalSucceeded (p_stats q), TotalFailed = TotalFailed (p_stats q),
      TotalDropped = TotalDropped (p_stats q), TotalPanics = TotalPanics (p_stats q)\<rparr>"

definition Len :: "'j Queue \<Rightarrow> int" where
  "Len q = int (length (p_jobs q))"

definition Cap :: "'j Queue \<Rightarrow> int" where
  "Cap q = int (p_capacity q)"

definition IsClosed :: "'j Queue \<Rightarrow> bool" where
  "IsClosed q = p_closed q"

definition bool_string :: "bool \<Rightarrow> string" where
  "bool_string b = (if b then ''true'' else ''false'')"

definition String :: "'j Queue \<Rightarrow> string" where
  "String q =
     (let stats = Stats q in
      ''Queue[workers='' @ FormatInt (int (p_workers q)) @ '', capacity='' @ FormatInt (Cap q) @
      '', pending='' @ FormatInt (Len q) @ '', closed='' @ bool_string (IsClosed q) @
      '', enqueued='' @ FormatInt (TotalEnqueued stats) @ '', processed='' @ FormatInt (TotalProcessed stats) @
      '', succeeded='' @ FormatInt (TotalSucceeded stats) @ '', failed='' @ FormatInt (TotalFailed stats) @
      '', dropped='' @ FormatInt (TotalDropped stats) @ '', panics='' @ FormatInt (TotalPanics stats) @ '']'')"

section \<open>Interleavings\<close>

inductive pool_step :: "'j Queue \<Rightarrow> 'j Queue \<Rightarrow> bool" where
  work: "\<not> p_crashed q \<Longrightarrow> i < length (p_pool q) \<Longrightarrow> p_pool q ! i = WIdle \<Longrightarrow>
     worker i stop q = Some q' \<Longrightarrow> pool_step q q'"
| execute: "\<not> p_crashed q \<Longrightarrow> i < length (p_pool q) \<Longrightarrow> executeJob i res q = Some q' \<Longrightarrow> pool_step q q'"
| enter: "\<not> p_crashed q \<Longrightarrow> enqueue_begin job blocking q = Some q' \<Longrightarrow> pool_step q q'"
| select: "\<not> p_crashed q \<Longrightarrow> k < length (p_producers q) \<Longrightarrow> enqueue_select k q = Some q' \<Longrightarrow> pool_step q q'"
| cancel: "\<not> p_crashed q \<Longrightarrow> k < length (p_producers q) \<Longrightarrow> enqueue_cancel k q = Some q' \<Longrightarrow> pool_step q q'"
| swap: "\<not> p_crashed q \<Longrightarrow> shutdown_swap q = Some q' \<Longrightarrow> pool_step q q'"
| close_chan: "\<not> p_crashed q \<Longrightarrow> shutdown_close q = Some q' \<Longrightarrow> pool_step q q'"
| ctx_done: "\<not> p_crashed q \<Longrightarrow> pool_step q (q\<lparr>p_ctx_done := True\<rparr>)"

inductive_cases pool_stepE: "pool_step q q'"

text \<open>A worker that holds a job which is not counted as processed yet, or is counting it.\<close>

fun holds_job :: "'j worker_state \<Rightarrow> bool" where
  "holds_job (WRunning j) = True"
| "holds_job (WPanicked of_job) = of_job"
| "holds_job w = False"

fun counting :: "'j worker_state \<Rightarrow> bool" where
  "counting (WReturned j ok) = True"
| "counting w = False"

fun in_handler :: "'j worker_state \<Rightarrow> bool" where
  "in_handler (WHandling j) = True"
| "in_handler (WPanicked of_job) = (\<not> of_job)"
| "in_handler w = False"

definition ledger :: "'j Queue \<Rightarrow> bool" where
  "ledger q \<longleftrightarrow>
     TotalEnqueued (p_stats q) + tally has_sent (p_producers q) =
       int (length (p_jobs q)) + tally holds_job (p_pool q) +
       TotalProcessed (p_stats q) + (TotalPanics (p_stats q) - p_handler_panics q) \<and>
     TotalProcessed (p_stats q) =
       TotalSucceeded (p_stats q) + TotalFailed (p_stats q) + tally counting (p_pool q) \<and>
     (\<not> p_handler q \<longrightarrow> p_handler_panics q = 0 \<and> tally in_handler (p_pool q) = 0)"

definition channel_inv :: "'j Queue \<Rightarrow> bool" where
  "channel_inv q \<longleftrightarrow>
     length (p_jobs q) \<le> p_capacity q \<and>
     (p_closed q \<longleftrightarrow> p_shutting q \<or> p_chan_closed q) \<and> \<not> (p_shutting q \<and> p_chan_closed q) \<and>
     p_pool q \<noteq> [] \<and>
     (WExited \<in> set (p_pool q) \<longrightarrow> p_ctx_done q \<or> (p_chan_closed q \<and> p_jobs q = []))"

definition fresh_pool :: "'j Queue \<Rightarrow> bool" where
  "fresh_pool q \<longleftrightarrow> (\<exists>w c h. q = Start (SetErrorHandler h (NewQueue w c)))"

lemmas pool_ops [pool_simps] = worker_def executeJob_def enqueue_begin_def enqueue_select_def
  enqueue_cancel_def shutdown_swap_def shutdown_close_def set_worker_def add_stats_def

lemma fresh_ledger: "fresh_pool q \<Longrightarrow> ledger q \<and> channel_inv q"
  by (auto simp: fresh_pool_def ledger_def channel_inv_def Start_def SetErrorHandler_def NewQueue_def
      zero_stats_def Let_def split: if_splits)

lemma in_set_update: "x \<in> set (xs[i := y]) \<Longrightarrow> x = y \<or> x \<in> set xs"
  by (meson insertE set_update_subset_insert subsetD)

lemma executeJob_frame:
  assumes "executeJob i res q = Some q'"
  shows "p_jobs q' = p_jobs q \<and> p_capacity q' = p_capacity q \<and> p_closed q' = p_closed q \<and>
    p_shutting q' = p_shutting q \<and> p_chan_closed q' = p_chan_closed q \<and> p_ctx_done q' = p_ctx_done q \<and>
    p_producers q' = p_producers q \<and> (\<exists>w. w \<noteq> WExited \<and> p_pool q' = (p_pool q)[i := w])"
  using assms
  by (auto simp: executeJob_def set_worker_def add_stats_def
      split: worker_state.splits job_result.splits if_splits)

lemma step_ledger:
  assumes "pool_step q q'" and "ledger q"
  shows "ledger q'"
  using assms(1)
proof cases
  case (work i stop)
  then show ?thesis using assms(2)
    by (auto simp: pool_simps ledger_def split: if_splits list.splits)
next
  case (execute i res)
  have "\<not> p_handler q \<Longrightarrow> \<not> in_handler (p_pool q ! i)"
    using assms(2) execute nth_mem [of i "p_pool q"] by (auto simp: ledger_def tally_zero_iff)
  then show ?thesis using execute assms(2)
    by (auto simp: pool_simps ledger_def split: worker_state.splits job_result.splits if_splits)
next
  case (enter job blocking)
  then show ?thesis using assms(2) by (auto simp: pool_simps ledger_def split: option.splits if_splits)
next
  case (select k)
  then show ?thesis using assms(2)
    by (auto simp: pool_simps ledger_def split: producer.splits if_splits)
next
  case (cancel k)
  then show ?thesis using assms(2)
    by (auto simp: pool_simps ledger_def split: producer.splits bool.splits)
qed (use assms(2) in \<open>auto simp: pool_simps ledger_def split: if_splits\<close>)

lemma step_channel:
  assumes "pool_step q q'" and "channel_inv q"
  shows "channel_inv q'"
  using assms(1)
proof cases
  case (work i stop)
  then show ?thesis using assms(2)
    by (auto simp: pool_simps channel_inv_def split: if_splits list.splits dest: in_set_update)
next
  case (execute i res)
  from executeJob_frame [OF execute(3)] obtain w where "w \<noteq> WExited" "p_pool q' = (p_pool q)[i := w]"
    by auto
  then have "WExited \<in> set (p_pool q') \<Longrightarrow> WExited \<in> set (p_pool q)" "p_pool q' = [] \<longleftrightarrow> p_pool q = []"
    by (auto dest: in_set_update)
  with executeJob_frame [OF execute(3)] assms(2) show ?thesis by (auto simp: channel_inv_def)
next
  case (enter job blocking)
  then show ?thesis using assms(2) by (auto simp: pool_simps channel_inv_def split: option.splits if_splits)
next
  case (select k)
  then show ?thesis using assms(2)
    by (auto simp: pool_simps channel_inv_def split: producer.splits if_splits)
next
  case (cancel k)
  then show ?thesis using assms(2)
    by (auto simp: pool_simps channel_inv_def split: producer.splits bool.splits)
qed (use assms(2) in \<open>auto simp: pool_simps channel_inv_def split: if_splits\<close>)

interpretation pool: invariant_system fresh_pool pool_step "\<lambda>q. ledger q \<and> channel_inv q"
  by unfold_locales (use fresh_ledger step_ledger step_channel in blast)+

section \<open>Whole calls as steps\<close>

lemma drop_last [simp]: "drop_nth (length xs) (xs @ [x]) = xs"
  by (simp add: drop_nth_def)

lemma Queue_producers_id: "q\<lparr>p_producers := p_producers q\<rparr> = q"
  by simp

lemma Enqueue_steps:
  assumes "\<not> p_crashed q" and "channel_inv q"
  shows "pool_step\<^sup>*\<^sup>* q (snd (Enqueue job q))"
proof (cases job)
  case None
  then show ?thesis by (simp add: Enqueue_def)
next
  case (Some j)
  show ?thesis
  proof (cases "p_closed q")
    case True
    then show ?thesis using Some by (simp add: Enqueue_def)
  next
    case open_q: False
    then have ch: "\<not> p_chan_closed q" using assms(2) by (auto simp: channel_inv_def)
    let ?k = "length (p_producers q)"
    let ?q1 = "q\<lparr>p_producers := p_producers q @ [PSending j False]\<rparr>"
    have 1: "pool_step q ?q1"
      using assms(1) open_q by (intro pool_step.enter [of q "Some j" False]) (simp_all add: enqueue_begin_def)
    show ?thesis
    proof (cases "length (p_jobs q) < p_capacity q")
      case True
      let ?q2 = "q\<lparr>p_producers := p_producers q @ [PSent False], p_jobs := p_jobs q @ [j]\<rparr>"
      have 2: "pool_step ?q1 ?q2"
        using assms(1) ch True by (intro pool_step.select [of _ ?k]) (simp_all add: enqueue_select_def)
      have 3: "pool_step ?q2 (snd (Enqueue job q))"
        using assms(1) Some open_q ch True
        by (intro pool_step.select [of _ ?k]) (simp_all add: enqueue_select_def Enqueue_def add_stats_def)
      from 1 2 3 show ?thesis by (meson converse_rtranclp_into_rtranclp r_into_rtranclp)
    next
      case False
      have "pool_step ?q1 (snd (Enqueue job q))"
        using assms(1) Some open_q ch False
        by (intro pool_step.select [of _ ?k]) (simp_all add: enqueue_select_def Enqueue_def add_stats_def)
      with 1 show ?thesis by (meson converse_rtranclp_into_rtranclp r_into_rtranclp)
    qed
  qed
qed

section \<open>Jobs run in the order they were accepted\<close>

text \<open>The job the first worker receives next, with that worker idle again.\<close>

definition next_job :: "'j Queue \<Rightarrow> 'j option \<times> 'j Queue" where
  "next_job q =
     (case worker 0 False q of
        None \<Rightarrow> (None, q)
      | Some q' \<Rightarrow>
          (case p_pool q' ! 0 of
             WRunning j \<Rightarrow> (Some j, set_worker 0 WIdle q')
           | _ \<Rightarrow> (None, q')))"

definition accepting :: "'j Queue \<Rightarrow> bool" where
  "accepting q \<longleftrightarrow> \<not> p_closed q \<and> \<not> p_chan_closed q \<and> p_pool q \<noteq> []"

interpretation jobs: fifo "\<lambda>j q. snd (Enqueue (Some j) q)" next_job p_jobs
  "\<lambda>j q. length (p_jobs q) < p_capacity q" accepting
  by unfold_locales
    (auto simp: accepting_def Enqueue_def next_job_def worker_def set_worker_def add_stats_def)

section \<open>The end of a shutdown\<close>

text \<open>The steps of the workers alone, and a bound on how many of them are left.\<close>

inductive pool_work :: "'j Queue \<Rightarrow> 'j Queue \<Rightarrow> bool" where
  "\<not> p_crashed q \<Longrightarrow> i < length (p_pool q) \<Longrightarrow> p_pool q ! i = WIdle \<Longrightarrow>
     worker i stop q = Some q' \<Longrightarrow> pool_work q q'"
| "\<not> p_crashed q \<Longrightarrow> i < length (p_pool q) \<Longrightarrow> executeJob i res q = Some q' \<Longrightarrow> pool_work q q'"

lemma pool_work_step: "pool_work q q' \<Longrightarrow> pool_step q q'"
  by (induction rule: pool_work.induct) (auto intro: pool_step.intros)

fun weight :: "'j worker_state \<Rightarrow> nat" where
  "weight WIdle = 1"
| "weight (WRunning j) = 5"
| "weight (WReturned j ok) = 4"
| "weight (WHandling j) = 3"
| "weight (WPanicked b) = 2"
| "weight WExited = 0"

definition work_left :: "'j Queue \<Rightarrow> nat" where
  "work_left q = 5 * length (p_jobs q) + (\<Sum>w \<leftarrow> p_pool q. weight w)"

lemma sum_list_update_weight:
  fixes f :: "'a \<Rightarrow> nat"
  assumes "i < length ws"
  shows "(\<Sum>w \<leftarrow> ws[i := v]. f w) + f (ws ! i) = (\<Sum>w \<leftarrow> ws. f w) + f v"
  using assms
proof (induction ws arbitrary: i)
  case (Cons w ws)
  then show ?case by (cases i) auto
qed simp

lemma executeJob_weight:
  assumes "executeJob i res q = Some q'"
  shows "\<exists>w. p_pool q' = (p_pool q)[i := w] \<and> weight w < weight (p_pool q ! i) \<and> p_jobs q' = p_jobs q"
proof (cases "p_pool q ! i")
  case (WRunning j)
  with assms show ?thesis
    by (cases res) (auto simp: executeJob_def set_worker_def add_stats_def intro!: exI)
next
  case (WHandling j)
  with assms show ?thesis
    by (cases res) (auto simp: executeJob_def set_worker_def add_stats_def intro!: exI)
qed (use assms in \<open>auto simp: executeJob_def set_worker_def add_stats_def intro!: exI split: if_splits\<close>)

lemma pool_work_decreases: "pool_work q q' \<Longrightarrow> work_left q' < work_left q"
proof (induction rule: pool_work.induct)
  case (1 q i stop q')
  then show ?case
    using sum_list_update_weight [of i "p_pool q" weight WExited]
      sum_list_update_weight [of i "p_pool q" weight "WRunning j" for j]
    by (fastforce simp: worker_def set_worker_def work_left_def split: if_splits list.splits)
next
  case (2 q i res q')
  from executeJob_weight [OF 2(3)] obtain w where w: "p_pool q' = (p_pool q)[i := w]"
    "weight w < weight (p_pool q ! i)" "p_jobs q' = p_jobs q" by blast
  with sum_list_update_weight [OF 2(2), of weight w] show ?case by (simp add: work_left_def)
qed

lemma closed_pool_progress:
  assumes "p_chan_closed q" and "\<not> p_crashed q" and "\<not> shutdown_done q"
  shows "\<exists>q'. pool_work q q'"
proof -
  from assms(1,3) obtain i where i: "i < length (p_pool q)" "p_pool q ! i \<noteq> WExited"
    by (auto simp: shutdown_done_def in_set_conv_nth)
  show ?thesis
  proof (cases "p_pool q ! i = WIdle")
    case True
    have "\<exists>q'. worker i False q = Some q'"
      using assms(1) by (auto simp: worker_def split: list.split)
    with True i assms(2) show ?thesis by (blast intro: pool_work.intros)
  next
    case False
    with i have "\<exists>q'. executeJob i JobOk q = Some q'"
      by (auto simp: executeJob_def split: worker_state.splits)
    with i assms(2) show ?thesis by (blast intro: pool_work.intros)
  qed
qed

lemma pool_work_keeps: "pool_work q q' \<Longrightarrow> p_chan_closed q' = p_chan_closed q \<and> p_crashed q' = p_crashed q"
proof (induction rule: pool_work.induct)
  case (2 q i res q')
  then show ?case
    by (auto simp: executeJob_def set_worker_def add_stats_def
        split: worker_state.splits job_result.splits if_splits)
qed (auto simp: worker_def set_worker_def split: if_splits list.splits)

lemma closed_pool_ends:
  assumes "p_chan_closed q" and "\<not> p_crashed q"
  shows "\<exists>q'. pool_work\<^sup>*\<^sup>* q q' \<and> shutdown_done q'"
  using assms
proof (induction "work_left q" arbitrary: q rule: less_induct)
  case less
  show ?case
  proof (cases "shutdown_done q")
    case False
    with less.prems closed_pool_progress obtain q1 where s: "pool_work q q1" by blast
    with less pool_work_decreases pool_work_keeps obtain q' where "pool_work\<^sup>*\<^sup>* q1 q'" "shutdown_done q'"
      by blast
    with s show ?thesis by (meson converse_rtranclp_into_rtranclp)
  qed auto
qed

section \<open>Properties\<close>

definition small_pool :: "nat Queue" where
  "small_pool = Start (SetErrorHandler False (NewQueue 1 2))"

lemma small_pool_fresh: "fresh_pool small_pool"
  unfolding fresh_pool_def small_pool_def by blast

lemma small_pool_eq:
  "small_pool = \<lparr>p_workers = 1, p_capacity = 2, p_jobs = [], p_chan_closed = False,
     p_handler = False, p_closed = False, p_stats = zero_stats, p_pool = [WIdle], p_producers = [],
     p_ctx_done = False, p_shutting = False, p_crashed = False, p_handler_panics = 0\<rparr>"
  by (simp add: small_pool_def Start_def SetErrorHandler_def NewQueue_def)

text \<open>
  C13. In every reachable state of the pool the counters account for every job: what was sent to
  the channel is waiting, held by a worker, processed, or was lost to a panic; what was
  processed succeeded, failed, or is being counted; and the channel holds at most its capacity.
\<close>

theorem pool_counters_add_up:
  assumes "fresh_pool q0" and "pool_step\<^sup>*\<^sup>* q0 q"
  shows "TotalEnqueued (Stats q) + tally has_sent (p_producers q) =
           Len q + tally holds_job (p_pool q) + TotalProcessed (Stats q) +
           (TotalPanics (Stats q) - p_handler_panics q) \<and>
         TotalProcessed (Stats q) =
           TotalSucceeded (Stats q) + TotalFailed (Stats q) + tally counting (p_pool q) \<and>
         Len q \<le> Cap q"
  using pool.reachable_invar [OF assms] by (simp add: ledger_def channel_inv_def Stats_def Len_def Cap_def)

theorem pool_counters_add_up_witness:
  "TotalEnqueued (Stats (snd (Enqueue (Some 7) small_pool))) = 1 \<and>
   Len (snd (Enqueue (Some 7) small_pool)) \<le> Cap (snd (Enqueue (Some (7 :: nat)) small_pool))"
proof -
  have "channel_inv small_pool" using fresh_ledger [OF small_pool_fresh] by simp
  then have run: "pool_step\<^sup>*\<^sup>* small_pool (snd (Enqueue (Some 7) small_pool))"
    by (intro Enqueue_steps) (simp_all add: small_pool_eq)
  show ?thesis
    using pool_counters_add_up [OF small_pool_fresh run]
    by (simp add: small_pool_eq Enqueue_def Stats_def add_stats_def zero_stats_def)
qed


definition ended_pool :: "nat Queue" where
  "ended_pool = small_pool\<lparr>p_closed := True, p_chan_closed := True, p_pool := [WExited]\<rparr>"


text \<open>
  C28. The wait of a shutdown ends: after the channel is closed, every step of a worker makes
  the remaining work smaller, so the workers cannot go on forever, and as long as one of them
  is left some worker can take a step; the state where all are gone is reached.
\<close>

theorem shutdown_terminates:
  assumes "p_chan_closed q" and "\<not> p_crashed q"
  shows "(\<exists>q'. pool_work\<^sup>*\<^sup>* q q' \<and> shutdown_done q') \<and>
         (\<forall>q'. pool_work q q' \<longrightarrow> work_left q' < work_left q) \<and>
         ((\<nexists>q'. pool_work q q') \<longrightarrow> shutdown_done q)"
  using closed_pool_ends [OF assms] pool_work_decreases closed_pool_progress [OF assms] by blast

theorem shutdown_terminates_witness:
  "\<exists>q'. pool_work\<^sup>*\<^sup>* (small_pool\<lparr>p_jobs := [3, 4], p_closed := True, p_chan_closed := True\<rparr>) q' \<and> shutdown_done q'"
  using shutdown_terminates [of "small_pool\<lparr>p_jobs := [3, 4], p_closed := True, p_chan_closed := True\<rparr>"]
  by (simp add: small_pool_eq)

text \<open>
  C36. The closed check of an enqueue does not protect its send: for every pool there is an
  interleaving with a shutdown in which a producer that found the queue open sends on the
  closed channel, which is a panic outside any recovery.
\<close>

theorem enqueue_races_with_shutdown:
  "\<exists>q. pool_step\<^sup>*\<^sup>* (Start (NewQueue w c) :: 'j Queue) q \<and> p_crashed q"
proof -
  let ?q0 = "Start (NewQueue w c) :: 'j Queue"
  let ?q1 = "?q0\<lparr>p_producers := [PSending (undefined :: 'j) False]\<rparr>"
  let ?q2 = "?q1\<lparr>p_closed := True, p_shutting := True\<rparr>"
  let ?q3 = "?q1\<lparr>p_closed := True, p_chan_closed := True, p_shutting := False\<rparr>"
  let ?q4 = "?q3\<lparr>p_crashed := True\<rparr>"
  note defs = Start_def NewQueue_def Let_def
  have "pool_step ?q0 ?q1"
    by (rule pool_step.enter [of _ "Some (undefined :: 'j)" False]) (simp_all add: defs enqueue_begin_def)
  moreover have "pool_step ?q1 ?q2" by (rule pool_step.swap) (simp_all add: defs shutdown_swap_def)
  moreover have "pool_step ?q2 ?q3" by (rule pool_step.close_chan) (simp_all add: defs shutdown_close_def)
  moreover have "pool_step ?q3 ?q4" by (rule pool_step.select [of _ 0]) (simp_all add: defs enqueue_select_def)
  ultimately have "pool_step\<^sup>*\<^sup>* ?q0 ?q4" by (meson converse_rtranclp_into_rtranclp r_into_rtranclp)
  then show ?thesis by (intro exI [of _ ?q4]) simp
qed

fun enqueue_all :: "'j list \<Rightarrow> 'j Queue \<Rightarrow> 'j Queue" where
  "enqueue_all [] q = q"
| "enqueue_all (j # js) q = enqueue_all js (snd (Enqueue (Some j) q))"

fun next_jobs :: "nat \<Rightarrow> 'j Queue \<Rightarrow> 'j option list" where
  "next_jobs 0 q = []"
| "next_jobs (Suc n) q = fst (next_job q) # next_jobs n (snd (next_job q))"

lemma enqueue_all_puts: "enqueue_all js q = jobs.puts js q"
  by (induction js arbitrary: q) simp_all

lemma next_jobs_takes: "next_jobs n q = jobs.takes n q"
  by (induction n arbitrary: q) simp_all

lemma all_fit_room:
  "\<not> p_closed q \<Longrightarrow> \<not> p_chan_closed q \<Longrightarrow> length (p_jobs q) + length js \<le> p_capacity q \<Longrightarrow> jobs.all_fit js q"
proof (induction js arbitrary: q)
  case (Cons j js)
  let ?q = "snd (Enqueue (Some j) q)"
  have "\<not> p_closed ?q" "\<not> p_chan_closed ?q" "length (p_jobs ?q) = Suc (length (p_jobs q))"
      "p_capacity ?q = p_capacity q"
    using Cons.prems by (simp_all add: Enqueue_def add_stats_def)
  with Cons.IH [of ?q] Cons.prems show ?case by simp
qed simp

text \<open>
  The jobs that a pool with room accepts are received by the workers in the order in which
  they were enqueued.
\<close>

theorem jobs_first_in_first_out:
  assumes "\<not> p_closed q" and "\<not> p_chan_closed q" and "p_pool q \<noteq> []" and "p_jobs q = []"
    and "length js \<le> p_capacity q"
  shows "next_jobs (length js) (enqueue_all js q) = map Some js"
  using jobs.first_in_first_out [of q js] all_fit_room [of q js] assms
  by (simp add: enqueue_all_puts next_jobs_takes accepting_def)

theorem jobs_first_in_first_out_witness:
  "next_jobs 2 (enqueue_all [3, 4] small_pool) = [Some 3, Some 4]"
  using jobs_first_in_first_out [of small_pool "[3, 4]"] by (simp add: small_pool_eq numeral_2_eq_2)

end
