(* ===== verification/Scheduler.thy ===== *)
theory Scheduler
  imports Database RedisQueue WorkerPool
begin

text \<open>
  The scheduler of \<^verbatim>\<open>internal/api/scheduler/scheduler.go\<close>: it dispatches running tasks to the
  crawlers through the worker pool and the Redis queue, receives the crawl results, and keeps
  the items of every task.

  The environment record holds what the scheduler was built with: the database, the Redis
  connection, the mailer, the queue client and its codec, the network, the case tables of
  \<^verbatim>\<open>strings.ToLower\<close>, and the configured limits. Clock readings are arguments.
\<close>

section \<open>The environment\<close>

record 'w Scheduler =
  S_db :: "'w database"
  S_rdb :: "'w redis_conn"
  S_notifier :: "'w mailer option"
  S_redisQueue :: "'w Client"
  S_marshal :: request_marshal
  S_unmarshal :: request_unmarshal
  S_net :: "'w \<Rightarrow> outcome"
  S_ul :: "string \<Rightarrow> string"
  S_ctx_err :: "'w \<Rightarrow> bool"
  S_interval :: duration
  S_newItemDuration :: duration
  S_maxItemsPerTask :: int
  S_batchSize :: int
  S_janitorInterval :: duration
  S_janitorTimeout :: duration

text \<open>The defaults; the second component is the worker pool the scheduler starts with.\<close>

definition NewScheduler ::
  "'w Scheduler \<Rightarrow> duration \<Rightarrow> duration \<Rightarrow> int \<Rightarrow> int \<Rightarrow> int \<Rightarrow> int \<Rightarrow> duration \<Rightarrow> duration \<Rightarrow> 'w Scheduler \<times> 'j Queue"
where
  "NewScheduler deps interval newItemDuration maxItems workers capacity batchSize janitorInterval janitorTimeout =
     (let workers = (if workers \<le> 0 then 50 else workers);
          maxItems = (if maxItems \<le> 0 then 300 else maxItems);
          capacity = (if capacity \<le> 0 then 1000 else capacity);
          q = SetErrorHandler True (NewQueue workers capacity);
          batchSize = (if batchSize \<le> 0 then 100 else batchSize);
          janitorInterval = (if janitorInterval \<le> 0 then 10 * Minute else janitorInterval);
          janitorTimeout = (if janitorTimeout \<le> 0 then 30 * Minute else janitorTimeout)
      in (deps\<lparr>S_interval := interval, S_newItemDuration := newItemDuration, S_maxItemsPerTask := maxItems,
               S_batchSize := batchSize, S_janitorInterval := janitorInterval,
               S_janitorTimeout := janitorTimeout\<rparr>, q))"

section \<open>Conversions\<close>

text \<open>\<^verbatim>\<open>uint\<close> has 64 bits.\<close>

definition intToString :: "nat \<Rightarrow> string" where
  "intToString v = FormatUint v"

datatype task_id_error = TaskIdEmpty | TaskIdInvalid num_err

definition parseTaskID :: "string \<Rightarrow> task_id_error + nat" where
  "parseTaskID v =
     (if TrimSpace v = [] then Inl TaskIdEmpty
      else case ParseUint 64 v of (parsed, None) \<Rightarrow> Inr parsed | (_, Some e) \<Rightarrow> Inl (TaskIdInvalid e))"

definition atoi32 :: "string \<Rightarrow> int \<times> num_err option" where
  "atoi32 s = (case Atoi s of (i, err) \<Rightarrow> (int32 i, err))"

definition classifyResult :: "FetchResponse option \<Rightarrow> string \<times> string" where
  "classifyResult resp =
     (case resp of
        None \<Rightarrow> (''failed'', ''empty response'')
      | Some r \<Rightarrow>
          if FP_ErrorMessage r \<noteq> [] \<and> FP_ErrorMessage r \<noteq> ''no_items'' then (''failed'', FP_ErrorMessage r)
          else if FP_ErrorMessage r = ''no_items'' \<or> FP_Items r = [] then (''no_items'', ''no items found'')
          else (''success'', []))"

section \<open>Dispatching\<close>

definition task_request :: "gotime \<Rightarrow> Task \<Rightarrow> FetchRequest" where
  "task_request now task = empty_FetchRequest\<lparr>
     FR_TaskId := intToString (T_ID task),
     FR_Platform := int32 (T_Platform task),
     FR_Keyword := T_Keyword task,
     FR_MinPrice := T_MinPrice task,
     FR_MaxPrice := T_MaxPrice task,
     FR_OnlyOnSale := True,
     FR_Sort := int32 (T_SortBy task),
     FR_Order := int32 (T_SortOrder task),
     FR_CreatedAt := Unix now\<rparr>"

definition handleTask :: "'w Scheduler \<Rightarrow> gotime \<Rightarrow> Task \<Rightarrow> 'w \<Rightarrow> rq_error option \<times> 'w" where
  "handleTask s now task w =
     (case S_redisQueue s of
        None \<Rightarrow> (Some ErrNotInitialized, w)
      | Some S \<Rightarrow>
          (case PushTask (Some S) (S_marshal s) (S_net s w) (Some (task_request now task)) w of
             (Some ErrTaskExists, w') \<Rightarrow> (None, w')
           | (err, w') \<Rightarrow> (err, w')))"

definition handleTaskByID :: "'w Scheduler \<Rightarrow> gotime \<Rightarrow> nat \<Rightarrow> 'w \<Rightarrow> rq_error option \<times> 'w" where
  "handleTaskByID s now taskID w =
     (case S_db s w (FindTasks (\<lambda>t. T_ID t = taskID \<and> T_Status t = ''running'')) of
        (r, w1) \<Rightarrow>
          (case first_task r of
             None \<Rightarrow> (None, w1)
           | Some task \<Rightarrow> handleTask s now task w1))"

definition enqueueTaskID :: "nat \<Rightarrow> nat Queue \<Rightarrow> nat Queue" where
  "enqueueTaskID taskID q = snd (EnqueueBlocking (Some taskID) q)"

definition StartTask :: "Task option \<Rightarrow> nat Queue \<Rightarrow> nat Queue" where
  "StartTask task q =
     (case task of
        None \<Rightarrow> q
      | Some t \<Rightarrow> if T_Status t \<noteq> ''running'' then q else enqueueTaskID (T_ID t) q)"

definition effective_batch :: "'w Scheduler \<Rightarrow> 'j Queue \<Rightarrow> int" where
  "effective_batch s q =
     (let batchSize = (if S_batchSize s \<le> 0 then 100 else S_batchSize s);
          capLimit = quot (Cap q) 5
      in if 0 < capLimit \<and> capLimit < batchSize then capLimit else batchSize)"

text \<open>
  The page after \<open>lastID\<close>, and the loop over the ids of a page (which stops when the context has
  ended; the first component says so).
\<close>

definition running_page :: "'w Scheduler \<Rightarrow> nat \<Rightarrow> int \<Rightarrow> 'w \<Rightarrow> nat list option \<times> 'w" where
  "running_page s lastID batchSize w =
     (case S_db s w (FindTasks (\<lambda>t. T_Status t = ''running'' \<and> lastID < T_ID t)) of
        (Some (RTasks ts), w1) \<Rightarrow> (Some (map T_ID (take (nat batchSize) (sort_key T_ID ts))), w1)
      | (_, w1) \<Rightarrow> (None, w1))"

fun enqueue_page :: "'w Scheduler \<Rightarrow> 'w \<Rightarrow> nat list \<Rightarrow> nat \<times> nat Queue \<Rightarrow> bool \<times> nat \<times> nat Queue" where
  "enqueue_page s w [] (lastID, q) = (True, lastID, q)"
| "enqueue_page s w (i # ids) (lastID, q) =
     (if S_ctx_err s w then (False, lastID, q)
      else enqueue_page s w ids (i, enqueueTaskID i q))"

text \<open>
  The loop over the pages runs as long as the database returns rows; \<open>fuel\<close> bounds the number
  of pages, and \<open>None\<close> is a loop that did not end within it.
\<close>

fun enqueue_pages :: "nat \<Rightarrow> 'w Scheduler \<Rightarrow> int \<Rightarrow> nat \<Rightarrow> nat Queue \<Rightarrow> 'w \<Rightarrow> (nat Queue \<times> 'w) option" where
  "enqueue_pages 0 s batchSize lastID q w = None"
| "enqueue_pages (Suc fuel) s batchSize lastID q w =
     (if S_ctx_err s w then Some (q, w)
      else case running_page s lastID batchSize w of
             (None, w1) \<Rightarrow> Some (q, w1)
           | (Some ids, w1) \<Rightarrow>
               if ids = [] then Some (q, w1)
               else (case enqueue_page s w1 ids (lastID, q) of
                       (False, _, q1) \<Rightarrow> Some (q1, w1)
                     | (True, lastID1, q1) \<Rightarrow> enqueue_pages fuel s batchSize lastID1 q1 w1))"

definition enqueueRunningTasks :: "nat \<Rightarrow> 'w Scheduler \<Rightarrow> nat Queue \<Rightarrow> 'w \<Rightarrow> (nat Queue \<times> 'w) option" where
  "enqueueRunningTasks fuel s q w = enqueue_pages fuel s (effective_batch s q) 0 q w"

text \<open>The events the dispatch loop waits for; the start dispatches once before the first.\<close>

datatype dispatch_event = DispatchTick | StatsTick

definition dispatch_start :: "nat \<Rightarrow> 'w Scheduler \<Rightarrow> nat Queue \<Rightarrow> 'w \<Rightarrow> (nat Queue \<times> 'w) option" where
  "dispatch_start fuel s q w =
     (case S_redisQueue s of
        None \<Rightarrow> Some (q, w)
      | Some _ \<Rightarrow> enqueueRunningTasks fuel s (Start q) w)"

fun dispatch_loop :: "nat \<Rightarrow> 'w Scheduler \<Rightarrow> dispatch_event list \<Rightarrow> nat Queue \<Rightarrow> 'w \<Rightarrow> (nat Queue \<times> 'w) option" where
  "dispatch_loop fuel s [] q w = Some (q, w)"
| "dispatch_loop fuel s (StatsTick # es) q w = dispatch_loop fuel s es q w"
| "dispatch_loop fuel s (DispatchTick # es) q w =
     (case enqueueRunningTasks fuel s q w of
        None \<Rightarrow> None
      | Some (q1, w1) \<Rightarrow> dispatch_loop fuel s es q1 w1)"

text \<open>
  Until the context ends; then the pool is shut down (\<open>run\<close> and \<open>expired\<close> as in \<^verbatim>\<open>WorkerPool\<close>). The
  ticker of the loop panics when the interval is not positive, after the first round.
\<close>

definition DispatchTasks ::
  "nat \<Rightarrow> 'w Scheduler \<Rightarrow> dispatch_event list \<Rightarrow> (nat Queue \<Rightarrow> nat Queue) \<Rightarrow> bool \<Rightarrow> nat Queue \<Rightarrow> 'w \<Rightarrow>
   (nat Queue \<times> 'w) ending option"
where
  "DispatchTasks fuel s events run expired q w =
     (case S_redisQueue s of
        None \<Rightarrow> Some (Returned (q, w))
      | Some _ \<Rightarrow>
          (case dispatch_start fuel s q w of
             None \<Rightarrow> None
           | Some (q1, w1) \<Rightarrow>
               if S_interval s \<le> 0 then Some (Panicked (q1, w1))
               else (case dispatch_loop fuel s events q1 w1 of
                       None \<Rightarrow> None
                     | Some (q2, w2) \<Rightarrow> Some (Returned (snd (ShutdownWithTimeout run expired q2), w2)))))"

section \<open>The janitor\<close>

definition runRescue :: "'w Scheduler \<Rightarrow> gotime \<Rightarrow> outcome list \<Rightarrow> 'w \<Rightarrow> 'w" where
  "runRescue s now nets w =
     (case S_redisQueue s of
        None \<Rightarrow> w
      | Some S \<Rightarrow>
          (case RescueStuckTasks (Some S) (S_unmarshal s) now (S_janitorTimeout s)
                  (S_net s w) (S_net s w) nets w of
             (Inl _, w1) \<Rightarrow> w1
           | (Inr _, w1) \<Rightarrow>
               snd (S_db s w1 (UpdateTasks
                      (\<lambda>t. T_Status t = ''queued'' \<and> T_UpdatedAt t < now - S_janitorTimeout s)
                      (\<lambda>t. t\<lparr>T_Status := ''running'', T_UpdatedAt := now\<rparr>)))))"

section \<open>Every running task once\<close>

lemma map_sort_key_same: "map f (sort_key f xs) = sort (map f xs)"
  by (rule properties_for_sort [symmetric]) simp_all

lemma filter_after_page:
  assumes "sorted_wrt (<) (xs :: nat list)" and "take n xs \<noteq> []"
  shows "filter (\<lambda>x. last (take n xs) < x) xs = drop n xs"
proof -
  let ?l = "last (take n xs)"
  have split: "xs = take n xs @ drop n xs" by simp
  have sep: "\<forall>x \<in> set (take n xs). \<forall>y \<in> set (drop n xs). x < y" and srt: "sorted_wrt (<) (take n xs)"
    using assms(1) split by (metis sorted_wrt_append)+
  have "\<not> ?l < x" if "x \<in> set (take n xs)" for x
  proof -
    have "take n xs = butlast (take n xs) @ [?l]" using assms(2) by simp
    then have "x \<in> set (butlast (take n xs)) \<or> x = ?l" "sorted_wrt (<) (butlast (take n xs) @ [?l])"
      using that srt by (metis Un_iff empty_iff insert_iff list.set set_append)+
    then show ?thesis by (auto simp: sorted_wrt_append)
  qed
  moreover have "?l < y" if "y \<in> set (drop n xs)" for y
    using sep that last_in_set [OF assms(2)] by blast
  ultimately have "filter (\<lambda>x. ?l < x) (take n xs) = []" "filter (\<lambda>x. ?l < x) (drop n xs) = drop n xs"
    by (simp_all add: filter_empty_conv filter_id_conv)
  then show ?thesis by (metis append_Nil filter_append split)
qed

lemma enqueueTaskID_room:
  assumes "\<not> p_closed q" "\<not> p_chan_closed q" "length (p_jobs q) < p_capacity q"
  shows "p_jobs (enqueueTaskID i q) = p_jobs q @ [i] \<and> p_capacity (enqueueTaskID i q) = p_capacity q \<and>
    \<not> p_closed (enqueueTaskID i q) \<and> \<not> p_chan_closed (enqueueTaskID i q)"
  using assms by (simp add: enqueueTaskID_def EnqueueBlocking_def add_stats_def)

lemma enqueue_page_room:
  assumes "\<not> S_ctx_err s w" and "\<not> p_closed q" and "\<not> p_chan_closed q"
    and "length (p_jobs q) + length ids \<le> p_capacity q"
  shows "\<exists>q'. enqueue_page s w ids (l, q) = (True, last (l # ids), q') \<and> p_jobs q' = p_jobs q @ ids \<and>
    p_capacity q' = p_capacity q \<and> \<not> p_closed q' \<and> \<not> p_chan_closed q'"
  using assms
proof (induction ids arbitrary: l q)
  case (Cons i ids)
  have "\<not> p_closed q" "\<not> p_chan_closed q" "length (p_jobs q) < p_capacity q" using Cons.prems by simp_all
  from enqueueTaskID_room [OF this, of i] Cons.IH [of "enqueueTaskID i q" i] Cons.prems
  show ?case by auto
qed simp

definition running_ids :: "tables \<Rightarrow> nat list" where
  "running_ids db = sort (map T_ID (filter (\<lambda>t. T_Status t = ''running'') (tasks db)))"

context services
begin

lemma running_page_effect:
  assumes "S_db s = D"
  shows "fst (running_page s l n w) = Some (take (nat n) (filter (\<lambda>x. l < x) (running_ids (dbv w))))"
    and "dbv (snd (running_page s l n w)) = dbv w"
proof -
  have "map T_ID (sort_key T_ID (filter (\<lambda>t. T_Status t = ''running'' \<and> l < T_ID t) (tasks (dbv w)))) =
      filter (\<lambda>x. l < x) (running_ids (dbv w))"
    by (simp add: map_sort_key_same running_ids_def filter_sort filter_map o_def conj_commute)
  then show "fst (running_page s l n w) = Some (take (nat n) (filter (\<lambda>x. l < x) (running_ids (dbv w))))"
    by (simp add: running_page_def assms case_prod_beta db_reply take_map [symmetric])
  show "dbv (snd (running_page s l n w)) = dbv w"
    by (simp add: running_page_def assms case_prod_beta db_reply db_effect)
qed

lemma enqueue_pages_complete:
  assumes db: "S_db s = D" and ctx: "\<And>w. \<not> S_ctx_err s w" and n: "0 < n"
    and dist: "sorted_wrt (<) (running_ids (dbv w))"
  shows "\<not> p_closed q \<Longrightarrow> \<not> p_chan_closed q \<Longrightarrow>
    length (p_jobs q) + length (filter (\<lambda>x. l < x) (running_ids (dbv w))) \<le> p_capacity q \<Longrightarrow>
    length (filter (\<lambda>x. l < x) (running_ids (dbv w))) < fuel \<Longrightarrow>
    \<exists>q' w'. enqueue_pages fuel s n l q w = Some (q', w') \<and>
      p_jobs q' = p_jobs q @ filter (\<lambda>x. l < x) (running_ids (dbv w)) \<and> dbv w' = dbv w"
  using dist
proof (induction fuel arbitrary: l q w)
  case (Suc fuel)
  let ?all = "filter (\<lambda>x. l < x) (running_ids (dbv w))"
  let ?ids = "take (nat n) ?all"
  obtain w1 where page: "running_page s l n w = (Some ?ids, w1)" and w1: "dbv w1 = dbv w"
    using running_page_effect [OF db, of l n w] by (metis prod.collapse)
  show ?case
  proof (cases "?all = []")
    case True
    then show ?thesis using page w1 ctx by simp
  next
    case False
    then have ne: "?ids \<noteq> []" using n by simp
    have "length (p_jobs q) + length ?ids \<le> p_capacity q" using Suc.prems(3) by simp
    from enqueue_page_room [OF ctx [of w1] Suc.prems(1,2) this, of l]
    obtain q1 where q1: "enqueue_page s w1 ?ids (l, q) = (True, last ?ids, q1)" "p_jobs q1 = p_jobs q @ ?ids"
      "p_capacity q1 = p_capacity q" "\<not> p_closed q1" "\<not> p_chan_closed q1" using ne by auto
    have "l < last ?ids" using in_set_takeD [OF last_in_set [OF ne]] by simp
    then have "filter (\<lambda>x. last ?ids < x) (running_ids (dbv w)) = filter (\<lambda>x. last ?ids < x) ?all"
      by (auto intro: filter_cong)
    also have "\<dots> = drop (nat n) ?all"
      using Suc.prems(5) by (intro filter_after_page ne) (rule sorted_wrt_filter)
    finally have rest: "filter (\<lambda>x. last ?ids < x) (running_ids (dbv w1)) = drop (nat n) ?all" by (simp add: w1)
    have "length (p_jobs q1) + length (drop (nat n) ?all) \<le> p_capacity q1" using Suc.prems(3) q1 by simp
    moreover have "length (drop (nat n) ?all) < fuel" 
    proof -
      have "0 < length ?all" "0 < nat n" using False n by simp_all
      then show ?thesis using Suc.prems(4) unfolding length_drop by linarith
    qed
    moreover have "sorted_wrt (<) (running_ids (dbv w1))" using Suc.prems(5) w1 by simp
    ultimately obtain q' w' where end_run: "enqueue_pages fuel s n (last ?ids) q1 w1 = Some (q', w')"
      "p_jobs q' = p_jobs q1 @ drop (nat n) ?all" "dbv w' = dbv w1"
      using Suc.IH [of q1 "last ?ids" w1] q1(4,5) unfolding rest by blast
    have "enqueue_pages (Suc fuel) s n l q w = enqueue_pages fuel s n (last ?ids) q1 w1"
      by (simp only: enqueue_pages.simps ctx if_False page prod.case option.case ne q1(1) bool.case)
    moreover have "p_jobs q' = p_jobs q @ ?all"
      by (simp only: end_run(2) q1(2) append_assoc append_take_drop_id)
    ultimately show ?thesis using end_run(1,3) w1 by metis
  qed
qed simp

end

section \<open>A concrete scheduler\<close>

definition plain_scheduler :: "world Scheduler" where
  "plain_scheduler = \<lparr>S_db = world_db, S_rdb = world_redis, S_notifier = Some world_mail, S_redisQueue = None,
     S_marshal = (\<lambda>_. None), S_unmarshal = (\<lambda>_. None), S_net = (\<lambda>_. Delivered), S_ul = id,
     S_ctx_err = (\<lambda>_. False), S_interval = Minute, S_newItemDuration = Hour, S_maxItemsPerTask = 2,
     S_batchSize = 100, S_janitorInterval = 10 * Minute, S_janitorTimeout = 30 * Minute\<rparr>"

definition task7 :: Task where
  "task7 = \<lparr>T_ID = 7, T_CreatedAt = 0, T_UpdatedAt = 0, T_UserID = 1, T_Keyword = ''lens'', T_MinPrice = 0,
     T_MaxPrice = 0, T_Platform = 1, T_SortBy = 0, T_SortOrder = 0, T_Type = ''monitor'', T_Status = ''stopped'',
     T_LastRunAt = None, T_NotifyEnabled = True, T_BaselineAt = Some 5\<rparr>"

section \<open>Properties\<close>

text \<open>
  Task ids survive the way through the queue: the id a request carries as text is the one
  the result handler reads back, for every id of 64 bits.
\<close>

theorem task_id_round_trip:
  assumes "n < 2 ^ 64"
  shows "parseTaskID (intToString n) = Inr n"
proof -
  have "TrimSpace (FormatUint n) = FormatUint n"
    using FormatUint_digits [of _ n] by (intro TrimSpace_printable) simp
  with assms show ?thesis by (simp add: parseTaskID_def intToString_def)
qed

theorem task_id_round_trip_witness: "parseTaskID (intToString 18446744073709551615) = Inr 18446744073709551615"
  by (rule task_id_round_trip) simp


definition two_tasks :: world where
  "two_tasks = \<lparr>w_db = empty_tables\<lparr>tasks := [task7, task7\<lparr>T_ID := 8, T_Status := ''running''\<rparr>,
     task7\<lparr>T_ID := 9, T_Status := ''running''\<rparr>]\<rparr>, w_redis = empty_tks, w_mail = []\<rparr>"


end
