(* ===== verification/ResultProcessing.thy ===== *)
theory ResultProcessing
  imports Scheduler
begin

text \<open>
  What the scheduler does with a crawl result (\<^verbatim>\<open>handleResult\<close> and below in
  \<^verbatim>\<open>internal/api/scheduler/scheduler.go\<close>): the status of the crawl, the items of the task with
  their price cache in Redis, the notifications, and the removal of old links.

  The lemmas show which notifications are sent, what the price cache and the tables hold
  afterwards, what the clean-up keeps, and the status a task ends in.
\<close>

section \<open>Status of a crawl\<close>

definition setTaskCrawlStatus :: "'w Scheduler \<Rightarrow> gotime \<Rightarrow> nat \<Rightarrow> string \<Rightarrow> string \<Rightarrow> 'w \<Rightarrow> 'w" where
  "setTaskCrawlStatus s t taskID status message w =
     (if status = [] then w
      else let key = ''task:crawl_status:'' @ intToString taskID;
               msgKey = ''task:crawl_message:'' @ intToString taskID;
               w1 = snd (S_rdb s t w (SET key status (24 * Hour)))
           in if message \<noteq> [] then snd (S_rdb s t w1 (SET msgKey message (24 * Hour)))
              else snd (S_rdb s t w1 (TDEL msgKey)))"

section \<open>Items\<close>

text \<open>The reply of a single-value read: an error, missing, or the value.\<close>

definition read_reply :: "redis_reply option \<Rightarrow> unit + string option" where
  "read_reply r = (case r of Some (RBulk v) \<Rightarrow> Inr v | _ \<Rightarrow> Inl ())"

definition item_row :: "gotime \<Rightarrow> pb_Item \<Rightarrow> Item" where
  "item_row now it =
     \<lparr>I_ID = 0, I_CreatedAt = now, I_UpdatedAt = now, I_SourceID = PI_SourceId it, I_Title = PI_Title it,
      I_Price = PI_Price it, I_ImageURL = PI_ImageUrl it, I_ItemURL = PI_ItemUrl it\<rparr>"

definition upsertItem :: "'w Scheduler \<Rightarrow> gotime \<Rightarrow> pb_Item \<Rightarrow> 'w \<Rightarrow> nat option \<times> 'w" where
  "upsertItem s now it w =
     (case S_db s w (UpsertItem (item_row now it)) of
        (Some (RId i), w1) \<Rightarrow>
          if i = 0
          then (case S_db s w1 (FindItems (\<lambda>x. I_SourceID x = PI_SourceId it)) of
                  (r, w2) \<Rightarrow> (case first_item r of None \<Rightarrow> (None, w2) | Some x \<Rightarrow> (Some (I_ID x), w2)))
          else (Some i, w1)
      | (_, w1) \<Rightarrow> (None, w1))"

definition linkTaskItem :: "'w Scheduler \<Rightarrow> nat \<Rightarrow> nat \<Rightarrow> int \<Rightarrow> gotime \<Rightarrow> 'w \<Rightarrow> 'w" where
  "linkTaskItem s taskID itemID rank linkedAt w =
     snd (S_db s w (UpsertTaskItem
       \<lparr>TI_TaskID = taskID, TI_ItemID = itemID, TI_CreatedAt = linkedAt, TI_Rank = rank\<rparr>))"

definition dedup_key :: "nat \<Rightarrow> string" where
  "dedup_key taskID = ''dedup:'' @ intToString taskID"

definition notify_mail :: "'w Scheduler \<Rightarrow> bool \<Rightarrow> string \<Rightarrow> Task \<Rightarrow> pb_Item \<Rightarrow> string \<Rightarrow> int \<Rightarrow> 'w \<Rightarrow> 'w" where
  "notify_mail s notify userEmail task it reason oldPrice w =
     (case S_notifier s of
        None \<Rightarrow> w
      | Some N \<Rightarrow>
          if notify \<and> userEmail \<noteq> []
          then snd (N w \<lparr>M_To = userEmail, M_Reason = reason, M_Keyword = T_Keyword task,
                         M_SourceID = PI_SourceId it, M_Price = PI_Price it, M_OldPrice = oldPrice\<rparr>)
          else w)"

text \<open>
  The body of the loop, split as the code splits it: the anchor of a known item, a new item, a
  known item. \<open>batchTime\<close> is the clock at the start of the batch, \<open>touch\<close> the clock at this item;
  the anchor is \<open>lastKnownTime\<close>.
\<close>

definition known_anchor :: "'w Scheduler \<Rightarrow> Task \<Rightarrow> pb_Item \<Rightarrow> gotime \<Rightarrow> 'w \<Rightarrow> gotime \<times> 'w" where
  "known_anchor s task it lastKnownTime w =
     (case S_db s w (FindItems (\<lambda>x. I_SourceID x = PI_SourceId it)) of
        (r, w1) \<Rightarrow>
          (case first_item r of
             None \<Rightarrow> (lastKnownTime, w1)
           | Some item \<Rightarrow>
               (case S_db s w1 (FindTaskItems (\<lambda>x. TI_TaskID x = T_ID task \<and> TI_ItemID x = I_ID item)) of
                  (r2, w2) \<Rightarrow>
                    (case first_link r2 of
                       None \<Rightarrow> (lastKnownTime, w2)
                     | Some ti \<Rightarrow> (TI_CreatedAt ti, w2)))))"

definition process_new ::
  "'w Scheduler \<Rightarrow> Task \<Rightarrow> bool \<Rightarrow> string \<Rightarrow> gotime \<Rightarrow> gotime \<Rightarrow> int \<Rightarrow> pb_Item \<Rightarrow> gotime \<Rightarrow> 'w \<Rightarrow> 'w"
where
  "process_new s task notify userEmail batchTime touch idx it linkTime w =
     (case upsertItem s touch it w of
        (None, w1) \<Rightarrow> w1
      | (Some itemID, w1) \<Rightarrow>
          let w2 = snd (S_rdb s touch w1 (HSETF (dedup_key (T_ID task)) (PI_SourceId it) (FormatInt (PI_Price it))));
              w3 = linkTaskItem s (T_ID task) itemID (idx + 1) linkTime w2
          in if linkTime = batchTime then notify_mail s notify userEmail task it ''Found New Item'' 0 w3
             else w3)"

definition process_known ::
  "'w Scheduler \<Rightarrow> Task \<Rightarrow> bool \<Rightarrow> string \<Rightarrow> gotime \<Rightarrow> gotime \<Rightarrow> int \<Rightarrow> pb_Item \<Rightarrow> string \<Rightarrow> 'w \<Rightarrow> 'w"
where
  "process_known s task notify userEmail batchTime touch idx it oldPriceStr w =
     (let oldPrice = fst (atoi32 oldPriceStr); newPrice = PI_Price it in
      if newPrice = oldPrice
      then (case S_db s w (FindItems (\<lambda>x. I_SourceID x = PI_SourceId it)) of
              (r, w1) \<Rightarrow>
                (case first_item r of
                   None \<Rightarrow> w1
                 | Some item \<Rightarrow> linkTaskItem s (T_ID task) (I_ID item) (idx + 1) batchTime w1))
      else (case upsertItem s touch it w of
              (None, w1) \<Rightarrow> w1
            | (Some itemID, w1) \<Rightarrow>
                let w2 = linkTaskItem s (T_ID task) itemID (idx + 1) batchTime w1;
                    w3 = snd (S_rdb s touch w2
                           (HSETF (dedup_key (T_ID task)) (PI_SourceId it) (FormatInt newPrice)))
                in if newPrice < oldPrice
                   then let w4 = snd (S_db s w3 (UpdateTaskItems
                                   (\<lambda>x. TI_TaskID x = T_ID task \<and> TI_ItemID x = itemID)
                                   (\<lambda>x. x\<lparr>TI_CreatedAt := touch\<rparr>)))
                        in notify_mail s notify userEmail task it ''Price Drop Detected'' oldPrice w4
                   else w3))"

definition process_item ::
  "'w Scheduler \<Rightarrow> Task \<Rightarrow> bool \<Rightarrow> string \<Rightarrow> gotime \<Rightarrow> gotime \<Rightarrow> int \<Rightarrow> pb_Item \<Rightarrow> gotime \<times> 'w \<Rightarrow> gotime \<times> 'w"
where
  "process_item s task notify userEmail batchTime touch idx it st =
     (if TrimSpace (PI_SourceId it) = [] then st
      else case S_rdb s touch (snd st) (HGETF (dedup_key (T_ID task)) (PI_SourceId it)) of
             (r, w1) \<Rightarrow>
               (case read_reply r of
                  Inl _ \<Rightarrow> (fst st, w1)
                | Inr None \<Rightarrow>
                    let linkTime = (if \<not> IsZero (fst st) then fst st else batchTime)
                    in (fst st, process_new s task notify userEmail batchTime touch idx it linkTime w1)
                | Inr (Some oldPriceStr) \<Rightarrow>
                    (case known_anchor s task it (fst st) w1 of
                       (lastKnownTime, w2) \<Rightarrow>
                         (lastKnownTime,
                          process_known s task notify userEmail batchTime touch idx it oldPriceStr w2))))"

fun process_loop ::
  "'w Scheduler \<Rightarrow> Task \<Rightarrow> bool \<Rightarrow> string \<Rightarrow> gotime \<Rightarrow> (nat \<Rightarrow> gotime) \<Rightarrow> nat \<Rightarrow> pb_Item list \<Rightarrow>
   gotime \<times> 'w \<Rightarrow> gotime \<times> 'w"
where
  "process_loop s task notify userEmail batchTime clk idx [] st = st"
| "process_loop s task notify userEmail batchTime clk idx (it # its) st =
     process_loop s task notify userEmail batchTime clk (Suc idx) its
       (process_item s task notify userEmail batchTime (clk idx) (int idx) it st)"

section \<open>Clean-up\<close>

definition cleanupOldItems :: "'w Scheduler \<Rightarrow> nat \<Rightarrow> 'w \<Rightarrow> 'w" where
  "cleanupOldItems s taskID w =
     (if S_maxItemsPerTask s \<le> 0 then w
      else case S_db s w (FindTaskItems (\<lambda>x. TI_TaskID x = taskID)) of
             (Some (RTaskItems counted), w1) \<Rightarrow>
               if int (length counted) \<le> S_maxItemsPerTask s then w1
               else (case S_db s w1 (FindTaskItems (\<lambda>x. TI_TaskID x = taskID)) of
                       (Some (RTaskItems rows), w2) \<Rightarrow>
                         (case drop (nat (S_maxItemsPerTask s)) (sort_key link_recency rows) of
                            [] \<Rightarrow> w2
                          | row # rest \<Rightarrow>
                              let cutoffTime = TI_CreatedAt row in
                              if IsZero cutoffTime then w2
                              else snd (S_db s w2 (DeleteTaskItems
                                     (\<lambda>x. TI_TaskID x = taskID \<and> TI_CreatedAt x \<le> cutoffTime))))
                     | (_, w2) \<Rightarrow> w2)
           | (_, w1) \<Rightarrow> w1)"

definition processItems ::
  "'w Scheduler \<Rightarrow> (nat \<Rightarrow> gotime) \<Rightarrow> gotime \<Rightarrow> Task \<Rightarrow> pb_Item list \<Rightarrow> bool \<Rightarrow> string \<Rightarrow> 'w \<Rightarrow> 'w"
where
  "processItems s clk batchTime task its notify userEmail w =
     cleanupOldItems s (T_ID task)
       (snd (process_loop s task notify userEmail batchTime clk 0 its (zero_time, w)))"

section \<open>Handling a result\<close>

definition guest_active_key :: "nat \<Rightarrow> string" where
  "guest_active_key userID = ''guest:active:'' @ intToString userID"

datatype result_error = BadTaskId task_id_error | TaskNotLoaded

definition load_user :: "'w Scheduler \<Rightarrow> Task \<Rightarrow> 'w \<Rightarrow> (string \<times> string) \<times> 'w" where
  "load_user s task w =
     (case S_db s w (FindUsers (\<lambda>u. U_ID u = T_UserID task)) of
        (r, w1) \<Rightarrow>
          (case first_user r of
             None \<Rightarrow> (([], []), w1)
           | Some u \<Rightarrow> ((U_Email u, ToLower (S_ul s) (TrimSpace (U_Role u))), w1)))"

definition set_status :: "'w Scheduler \<Rightarrow> gotime \<Rightarrow> nat \<Rightarrow> string \<Rightarrow> 'w \<Rightarrow> 'w" where
  "set_status s now taskID status w =
     snd (S_db s w (UpdateTasks (\<lambda>t. T_ID t = taskID) (\<lambda>t. t\<lparr>T_Status := status, T_UpdatedAt := now\<rparr>)))"

definition finish_run :: "'w Scheduler \<Rightarrow> gotime \<Rightarrow> Task \<Rightarrow> bool \<Rightarrow> string \<Rightarrow> 'w \<Rightarrow> 'w" where
  "finish_run s now task firstRun status w =
     (let w1 = snd (S_db s w (UpdateTasks (\<lambda>t. T_ID t = T_ID task)
                 (\<lambda>t. t\<lparr>T_LastRunAt := Some now,
                         T_BaselineAt := (if firstRun \<and> status \<noteq> ''failed'' then Some now else T_BaselineAt t),
                         T_UpdatedAt := now\<rparr>)));
          finalStatus = (if T_Type task = TaskTypeOneShot then ''completed'' else ''running'')
      in set_status s now (T_ID task) finalStatus w1)"

definition is_first_run :: "Task \<Rightarrow> bool" where
  "is_first_run task = (case T_BaselineAt task of None \<Rightarrow> True | Some b \<Rightarrow> IsZero b)"

definition handleResult ::
  "'w Scheduler \<Rightarrow> (nat \<Rightarrow> gotime) \<Rightarrow> gotime \<Rightarrow> gotime \<Rightarrow> FetchResponse \<Rightarrow> 'w \<Rightarrow> result_error option \<times> 'w"
where
  "handleResult s clk batchTime now resp w =
     (case parseTaskID (FP_TaskId resp) of
        Inl e \<Rightarrow> (Some (BadTaskId e), w)
      | Inr taskID \<Rightarrow>
          (case S_db s w (FindTasks (\<lambda>t. T_ID t = taskID)) of
             (r, w1) \<Rightarrow>
               (case first_task r of
                  None \<Rightarrow> (Some TaskNotLoaded, w1)
                | Some task \<Rightarrow>
                    let (status, message) = classifyResult (Some resp);
                        w2 = setTaskCrawlStatus s batchTime (T_ID task) status message w1;
                        firstRun = is_first_run task;
                        notifyAllowed = (\<not> firstRun \<and> T_NotifyEnabled task);
                        ((userEmail, userRole), w3) = load_user s task w2;
                        continue = (\<lambda>w.
                          (let w5 = (if status \<noteq> ''failed''
                                     then processItems s clk batchTime task (FP_Items resp) notifyAllowed userEmail w
                                     else w)
                           in (None, finish_run s now task firstRun status w5)))
                    in if userRole = ''guest''
                       then (case S_rdb s batchTime w3 (GET (guest_active_key (T_UserID task))) of
                               (Some (RBulk None), w4) \<Rightarrow> (None, set_status s now (T_ID task) ''stopped'' w4)
                             | (_, w4) \<Rightarrow> continue w4)
                       else continue w3)))"

text \<open>
  One turn of the listener: whether it goes on, and the world after a result was popped and
  handled. The whole loop, with its handlers running concurrently, is \<^verbatim>\<open>ResultListener\<close>.
\<close>

definition listener_turn ::
  "'w Scheduler \<Rightarrow> (string \<Rightarrow> FetchResponse option) \<Rightarrow> (nat \<Rightarrow> gotime) \<Rightarrow> gotime \<Rightarrow> gotime \<Rightarrow> 'w \<Rightarrow> bool \<times> 'w"
where
  "listener_turn s unmr clk batchTime now w =
     (if S_ctx_err s w then (False, w)
      else case PopResult (S_redisQueue s) unmr (S_net s w) w of
             (Inl _, w1) \<Rightarrow> (\<not> S_ctx_err s w1, w1)
           | (Inr resp, w1) \<Rightarrow> (True, snd (handleResult s clk batchTime now resp w1)))"

section \<open>Guest mode without the database\<close>

text \<open>
  \<^verbatim>\<open>processItemsGuest\<close>, which keeps the items of a guest's task in one Redis value. The JSON codec
  of the list is an argument (\<open>enc\<close> and \<open>dec\<close>).
\<close>

record guestItem =
  G_ID :: string
  G_SourceID :: string
  G_Title :: string
  G_Price :: int
  G_ImageURL :: string
  G_ItemURL :: string
  G_CreatedAt :: gotime
  G_IsNew :: bool

definition guest_existing :: "(string \<Rightarrow> guestItem list option) \<Rightarrow> redis_reply option \<Rightarrow> string \<Rightarrow> guestItem option" where
  "guest_existing dec r =
     (case r of
        Some (RBulk (Some raw)) \<Rightarrow>
          (if raw = [] then Map.empty
           else case dec raw of
                  None \<Rightarrow> Map.empty
                | Some cached \<Rightarrow>
                    fold (\<lambda>it m. if G_SourceID it \<noteq> [] then m(G_SourceID it \<mapsto> it) else m) cached Map.empty)
      | _ \<Rightarrow> Map.empty)"

text \<open>Whether the item is marked as new: found after the baseline, recently, and near the top.\<close>

definition guest_is_new :: "'w Scheduler \<Rightarrow> Task \<Rightarrow> gotime \<Rightarrow> gotime \<Rightarrow> bool \<Rightarrow> nat \<Rightarrow> bool" where
  "guest_is_new s task now createdAt isNewFlag i =
     (case T_BaselineAt task of
        None \<Rightarrow> False
      | Some b \<Rightarrow>
          if IsZero b then False
          else if isNewFlag then i < 30
          else b < createdAt \<and> now - createdAt \<le> S_newItemDuration s)"

definition guest_entry ::
  "'w Scheduler \<Rightarrow> Task \<Rightarrow> gotime \<Rightarrow> (string \<Rightarrow> guestItem option) \<Rightarrow> nat \<Rightarrow> pb_Item \<Rightarrow> bool \<Rightarrow> guestItem"
where
  "guest_entry s task now existing i it isNewFlag =
     (let createdAt = (case existing (PI_SourceId it) of
                         Some c \<Rightarrow> if \<not> isNewFlag then G_CreatedAt c else now
                       | None \<Rightarrow> now)
      in \<lparr>G_ID = PI_SourceId it, G_SourceID = PI_SourceId it, G_Title = PI_Title it, G_Price = PI_Price it,
          G_ImageURL = PI_ImageUrl it, G_ItemURL = PI_ItemUrl it, G_CreatedAt = createdAt,
          G_IsNew = guest_is_new s task now createdAt isNewFlag i\<rparr>)"

fun guest_loop ::
  "'w Scheduler \<Rightarrow> Task \<Rightarrow> gotime \<Rightarrow> (string \<Rightarrow> guestItem option) \<Rightarrow> nat \<Rightarrow> pb_Item list \<Rightarrow>
   guestItem list \<times> 'w \<Rightarrow> guestItem list \<times> 'w"
where
  "guest_loop s task now existing i [] st = st"
| "guest_loop s task now existing i (it # its) (result, w) =
     (if TrimSpace (PI_SourceId it) = [] then guest_loop s task now existing (Suc i) its (result, w)
      else case S_rdb s now w (HGETF (dedup_key (T_ID task)) (PI_SourceId it)) of
             (r, w1) \<Rightarrow>
               let store = (\<lambda>w. snd (S_rdb s now w
                      (HSETF (dedup_key (T_ID task)) (PI_SourceId it) (FormatInt (PI_Price it)))))
               in (case read_reply r of
                     Inl _ \<Rightarrow> guest_loop s task now existing (Suc i) its (result, w1)
                   | Inr None \<Rightarrow>
                       guest_loop s task now existing (Suc i) its
                         (result @ [guest_entry s task now existing i it True], store w1)
                   | Inr (Some oldPriceStr) \<Rightarrow>
                       (case atoi32 oldPriceStr of
                          (_, Some e) \<Rightarrow> guest_loop s task now existing (Suc i) its (result, w1)
                        | (oldPrice, None) \<Rightarrow>
                            if PI_Price it < oldPrice
                            then guest_loop s task now existing (Suc i) its
                                   (result @ [guest_entry s task now existing i it True], store w1)
                            else guest_loop s task now existing (Suc i) its
                                   (result @ [guest_entry s task now existing i it False], w1))))"

definition processItemsGuest ::
  "'w Scheduler \<Rightarrow> (guestItem list \<Rightarrow> string option) \<Rightarrow> (string \<Rightarrow> guestItem list option) \<Rightarrow>
   gotime \<Rightarrow> Task \<Rightarrow> pb_Item list \<Rightarrow> 'w \<Rightarrow> 'w"
where
  "processItemsGuest s enc dec now task its w =
     (let cacheKey = ''guest:task:'' @ intToString (T_ID task) @ '':items'' in
      case S_rdb s now w (GET cacheKey) of
        (r, w1) \<Rightarrow>
          (case guest_loop s task now (guest_existing dec r) 0 its ([], w1) of
             (result, w2) \<Rightarrow>
               (case enc (take 100 result) of
                  None \<Rightarrow> w2
                | Some payload \<Rightarrow> snd (S_rdb s now w2 (SET cacheKey payload (10 * Minute))))))"

section \<open>What one item does\<close>

text \<open>The specification of one turn of the loop: the price cache after it.\<close>

definition cache_step :: "pb_Item \<Rightarrow> (string \<times> string) list \<Rightarrow> (string \<times> string) list" where
  "cache_step it h =
     (if TrimSpace (PI_SourceId it) = [] then h
      else case map_of h (PI_SourceId it) of
             Some old \<Rightarrow> if PI_Price it = fst (atoi32 old) then h
                          else AList.update (PI_SourceId it) (FormatInt (PI_Price it)) h
           | None \<Rightarrow> AList.update (PI_SourceId it) (FormatInt (PI_Price it)) h)"

text \<open>The notification of one item, as a function of the cache and the anchor before it.\<close>

definition item_mail :: "Task \<Rightarrow> bool \<Rightarrow> string \<Rightarrow> gotime \<Rightarrow> pb_Item \<Rightarrow> gotime \<Rightarrow> (string \<times> string) list \<Rightarrow> mail list" where
  "item_mail task notify userEmail batchTime it anchor h =
     (if TrimSpace (PI_SourceId it) = [] \<or> \<not> notify \<or> userEmail = [] then []
      else case map_of h (PI_SourceId it) of
             None \<Rightarrow> if IsZero anchor \<or> anchor = batchTime
                      then [\<lparr>M_To = userEmail, M_Reason = ''Found New Item'', M_Keyword = T_Keyword task,
                             M_SourceID = PI_SourceId it, M_Price = PI_Price it, M_OldPrice = 0\<rparr>]
                      else []
           | Some old \<Rightarrow> if PI_Price it < fst (atoi32 old)
                      then [\<lparr>M_To = userEmail, M_Reason = ''Price Drop Detected'', M_Keyword = T_Keyword task,
                             M_SourceID = PI_SourceId it, M_Price = PI_Price it, M_OldPrice = fst (atoi32 old)\<rparr>]
                      else [])"

lemma cache_step_other: "PI_SourceId it \<noteq> src \<Longrightarrow> map_of (cache_step it h) src = map_of h src"
  by (auto simp: cache_step_def update_conv split: option.split)

lemma cache_fold_other: "src \<notin> PI_SourceId ` set its \<Longrightarrow> map_of (fold cache_step its h) src = map_of h src"
  by (induction its arbitrary: h) (auto simp: cache_step_other)

lemma atoi32_FormatInt: "- 2147483648 \<le> p \<Longrightarrow> p \<le> 2147483647 \<Longrightarrow> atoi32 (FormatInt p) = (p, None)"
  by (simp add: atoi32_def Atoi_def)

lemma cache_step_price:
  assumes "TrimSpace (PI_SourceId it) \<noteq> []" and "- 2147483648 \<le> PI_Price it" and "PI_Price it \<le> 2147483647"
  shows "\<exists>v. map_of (cache_step it h) (PI_SourceId it) = Some v \<and> fst (atoi32 v) = PI_Price it"
  using assms by (auto simp: cache_step_def update_conv atoi32_FormatInt split: option.split)

text \<open>In a list sorted by recency, the links newer than the one at a position come before it.\<close>

lemma newer_before:
  assumes "sorted (map link_recency rows)" and "k < length rows"
  shows "length (filter (\<lambda>x. TI_CreatedAt (rows ! k) < TI_CreatedAt x) rows) \<le> k"
proof -
  let ?P = "\<lambda>x. TI_CreatedAt (rows ! k) < TI_CreatedAt x"
  have "\<not> ?P x" if "x \<in> set (drop k rows)" for x
  proof -
    from that obtain j' where "j' < length rows - k" "x = rows ! (k + j')"
      by (auto simp: in_set_conv_nth)
    then obtain j where j: "k \<le> j" "j < length rows" "x = rows ! j" by (auto intro: that [of "k + j'"])
    then have "link_recency (rows ! k) \<le> link_recency x"
      using assms sorted_nth_mono [OF assms(1), of k j] by simp
    then show ?thesis by (auto simp: link_recency_def)
  qed
  then have none: "filter ?P (drop k rows) = []" by (simp add: filter_empty_conv)
  have "filter ?P rows = filter ?P (take k rows) @ filter ?P (drop k rows)"
    by (metis append_take_drop_id filter_append)
  then have "filter ?P rows = filter ?P (take k rows)" by (simp add: none)
  then have "length (filter ?P rows) \<le> length (take k rows)" by (metis length_filter_le)
  with assms(2) show ?thesis by simp
qed

section \<open>Effects with working services\<close>

text \<open>
  The scheduler over services that answer as documented; the mailer may be missing. The effect
  of each step is given on the three views.
\<close>

locale scheduler_services = services D R N dbv rv outbox
  for D :: "'w database" and R :: "'w redis_conn" and N :: "'w mailer"
    and dbv :: "'w \<Rightarrow> tables" and rv :: "'w \<Rightarrow> tkeyspace" and outbox :: "'w \<Rightarrow> mail list" +
  fixes s :: "'w Scheduler"
  assumes uses_db: "S_db s = D" and uses_redis: "S_rdb s = R" and uses_mail: "S_notifier s = Some N \<or> S_notifier s = None"
begin

lemmas env_simps = uses_db uses_redis

lemma setTaskCrawlStatus_frame [simp]:
  "dbv (setTaskCrawlStatus s t i st msg w) = dbv w" "outbox (setTaskCrawlStatus s t i st msg w) = outbox w"
  by (simp_all add: setTaskCrawlStatus_def env_simps sql_simps Let_def)

lemma upsertItem_frame [simp]:
  "rv (snd (upsertItem s now it w)) = rv w" "outbox (snd (upsertItem s now it w)) = outbox w"
  by (simp_all add: upsertItem_def env_simps sql_simps prod.case_eq_if split: option.splits sql_reply.splits)

lemma linkTaskItem_frame [simp]:
  "rv (linkTaskItem s i j r t w) = rv w" "outbox (linkTaskItem s i j r t w) = outbox w"
  by (simp_all add: linkTaskItem_def env_simps sql_simps)

lemma notify_mail_frame [simp]:
  "rv (notify_mail s b e task it reason p w) = rv w" "dbv (notify_mail s b e task it reason p w) = dbv w"
  using uses_mail by (auto simp: notify_mail_def sql_simps)

lemma notify_mail_silent [simp]: "notify_mail s False e task it reason p w = w"
  by (simp add: notify_mail_def split: option.split)

lemma known_anchor_frame [simp]:
  "rv (snd (known_anchor s task it a w)) = rv w" "outbox (snd (known_anchor s task it a w)) = outbox w"
  "dbv (snd (known_anchor s task it a w)) = dbv w"
  by (simp_all add: known_anchor_def env_simps sql_simps prod.case_eq_if split: option.splits)

lemma cleanup_frame [simp]:
  "rv (cleanupOldItems s i w) = rv w" "outbox (cleanupOldItems s i w) = outbox w"
  by (simp_all add: cleanupOldItems_def env_simps sql_simps prod.case_eq_if Let_def split: list.splits)

lemma cleanup_effect:
  "dbv (cleanupOldItems s i w) =
     (let rows = filter (\<lambda>x. TI_TaskID x = i) (task_items (dbv w)); k = nat (S_maxItemsPerTask s);
          cutoff = TI_CreatedAt (sort_key link_recency rows ! k)
      in if S_maxItemsPerTask s \<le> 0 \<or> length rows \<le> k \<or> IsZero cutoff then dbv w
         else (dbv w)\<lparr>task_items := filter (\<lambda>x. \<not> (TI_TaskID x = i \<and> TI_CreatedAt x \<le> cutoff)) (task_items (dbv w))\<rparr>)"
proof (cases "S_maxItemsPerTask s \<le> 0")
  case True
  then show ?thesis by (simp add: cleanupOldItems_def Let_def)
next
  case pos: False
  define rows where "rows = filter (\<lambda>x. TI_TaskID x = i) (task_items (dbv w))"
  define k where "k = nat (S_maxItemsPerTask s)"
  have k: "S_maxItemsPerTask s = int k" using pos by (simp add: k_def)
  show ?thesis
  proof (cases "length rows \<le> k")
    case True
    then show ?thesis
      using pos
      by (simp add: cleanupOldItems_def env_simps sql_simps prod.case_eq_if Let_def k rows_def [symmetric])
  next
    case False
    then have "drop k (sort_key link_recency rows) =
        sort_key link_recency rows ! k # drop (Suc k) (sort_key link_recency rows)"
      by (intro Cons_nth_drop_Suc [symmetric]) simp
    with False pos show ?thesis
      by (simp add: cleanupOldItems_def env_simps sql_simps prod.case_eq_if Let_def k rows_def [symmetric])
  qed
qed

lemma cleanup_limit:
  fixes w :: 'w and i :: nat
  assumes max: "0 < S_maxItemsPerTask s" and nz: "\<forall>x \<in> set (task_items (dbv w)). \<not> IsZero (TI_CreatedAt x)"
  defines "rows \<equiv> filter (\<lambda>x. TI_TaskID x = i) (task_items (dbv w))"
    and "rest \<equiv> filter (\<lambda>x. TI_TaskID x = i) (task_items (dbv (cleanupOldItems s i w)))"
    and "k \<equiv> nat (S_maxItemsPerTask s)"
  shows "int (length rest) \<le> S_maxItemsPerTask s \<and>
         rest = (if length rows \<le> k then rows
                 else filter (\<lambda>x. TI_CreatedAt (sort_key link_recency rows ! k) < TI_CreatedAt x) rows) \<and>
         filter (\<lambda>x. TI_TaskID x \<noteq> i) (task_items (dbv (cleanupOldItems s i w))) =
           filter (\<lambda>x. TI_TaskID x \<noteq> i) (task_items (dbv w)) \<and>
         (dbv (cleanupOldItems s i w))\<lparr>task_items := []\<rparr> = (dbv w)\<lparr>task_items := []\<rparr>"
proof (cases "length rows \<le> k")
  case True
  then have "dbv (cleanupOldItems s i w) = dbv w"
    unfolding cleanup_effect by (simp add: Let_def rows_def k_def)
  then show ?thesis using True max by (simp add: rest_def rows_def k_def le_nat_iff)
next
  case False
  let ?srt = "sort_key link_recency rows" and ?cut = "TI_CreatedAt (sort_key link_recency rows ! k)"
  have "?srt ! k \<in> set rows" using False by (metis length_sort not_le nth_mem set_sort)
  then have "\<not> IsZero ?cut" using nz by (simp add: rows_def)
  then have db: "dbv (cleanupOldItems s i w) = (dbv w)\<lparr>task_items :=
      filter (\<lambda>x. \<not> (TI_TaskID x = i \<and> TI_CreatedAt x \<le> ?cut)) (task_items (dbv w))\<rparr>"
    unfolding cleanup_effect using False max by (simp add: Let_def rows_def [symmetric] k_def [symmetric])
  have rest: "rest = filter (\<lambda>x. ?cut < TI_CreatedAt x) rows"
    by (auto simp: rest_def rows_def db intro!: filter_cong)
  have "length (filter (\<lambda>x. ?cut < TI_CreatedAt x) ?srt) \<le> k"
    using newer_before [of ?srt k] False by simp
  moreover have "length (filter (\<lambda>x. ?cut < TI_CreatedAt x) ?srt) = length (filter (\<lambda>x. ?cut < TI_CreatedAt x) rows)"
    by (metis mset_filter mset_sort size_mset)
  ultimately show ?thesis
    using False max rest by (auto simp: db k_def intro!: filter_cong)
qed

lemma silent_process_item:
  "outbox (snd (process_item s task False e bt tch idx it st)) = outbox (snd st)"
  by (auto simp: process_item_def process_new_def process_known_def env_simps sql_simps prod.case_eq_if Let_def
      split: sum.split option.split)

lemma silent_process_loop:
  "outbox (snd (process_loop s task False e bt clk idx its st)) = outbox (snd st)"
  by (induction its arbitrary: idx st) (simp_all add: silent_process_item)

lemma silent_processItems: "outbox (processItems s clk bt task its False e w) = outbox w"
  by (simp add: processItems_def silent_process_loop)

lemma finish_frame [simp]:
  "rv (finish_run s now task f st w) = rv w" "outbox (finish_run s now task f st w) = outbox w"
  "rv (set_status s now i st w) = rv w" "outbox (set_status s now i st w) = outbox w"
  by (simp_all add: finish_run_def set_status_def env_simps sql_simps Let_def)

lemma load_user_frame [simp]:
  "dbv (snd (load_user s task w)) = dbv w" "rv (snd (load_user s task w)) = rv w"
  "outbox (snd (load_user s task w)) = outbox w"
  by (simp_all add: load_user_def env_simps sql_simps prod.case_eq_if split: option.splits)

lemma item_steps_keep_tasks [simp]:
  "tasks (dbv (snd (upsertItem s now it w))) = tasks (dbv w)"
  "tasks (dbv (linkTaskItem s i j r t w)) = tasks (dbv w)"
  "tasks (dbv (cleanupOldItems s i w)) = tasks (dbv w)"
  "users (dbv (snd (upsertItem s now it w))) = users (dbv w)"
  "users (dbv (linkTaskItem s i j r t w)) = users (dbv w)"
  "users (dbv (cleanupOldItems s i w)) = users (dbv w)"
  by (simp_all add: upsertItem_def linkTaskItem_def cleanup_effect env_simps sql_simps prod.case_eq_if Let_def
      split: option.splits sql_reply.splits)

lemma process_item_keeps_tasks [simp]:
  "tasks (dbv (snd (process_item s task b e bt tch idx it st))) = tasks (dbv (snd st))"
  by (auto simp: process_item_def process_new_def process_known_def env_simps sql_simps prod.case_eq_if Let_def
      split: sum.split option.split)

lemma processItems_keeps_tasks [simp]: "tasks (dbv (processItems s clk bt task its b e w)) = tasks (dbv w)"
proof -
  have "tasks (dbv (snd (process_loop s task b e bt clk idx its st))) = tasks (dbv (snd st))" for idx st
    by (induction its arbitrary: idx st) simp_all
  then show ?thesis by (simp add: processItems_def)
qed

lemma finish_run_tasks:
  "tasks (dbv (finish_run s now task f st w)) =
     update_where (\<lambda>t. T_ID t = T_ID task)
       (\<lambda>t. t\<lparr>T_LastRunAt := Some now,
               T_BaselineAt := (if f \<and> st \<noteq> ''failed'' then Some now else T_BaselineAt t),
               T_UpdatedAt := now,
               T_Status := (if T_Type task = TaskTypeOneShot then ''completed'' else ''running'')\<rparr>)
       (tasks (dbv w))"
  by (simp add: finish_run_def set_status_def env_simps sql_simps update_where_def Let_def)

definition guest_idle :: "gotime \<Rightarrow> Task \<Rightarrow> 'w \<Rightarrow> bool" where
  "guest_idle t task w \<longleftrightarrow>
     snd (fst (load_user s task w)) = ''guest'' \<and>
     live t (rv w) (guest_active_key (T_UserID task)) = RNone"

lemma handleResult_loaded:
  assumes "parseTaskID (FP_TaskId resp) = Inr i" and "filter (\<lambda>t. T_ID t = i) (tasks (dbv w)) = task # rest"
  shows "\<exists>w3. dbv w3 = dbv w \<and> outbox w3 = outbox w \<and>
    (\<forall>k. k \<noteq> ''task:crawl_status:'' @ intToString (T_ID task) \<longrightarrow> k \<noteq> ''task:crawl_message:'' @ intToString (T_ID task) \<longrightarrow>
       rv w3 k = rv w k) \<and>
    handleResult s clk bt now resp w =
      (None,
       (if snd (fst (load_user s task w)) = ''guest'' \<and>
           fst (ttl_doc bt (GET (guest_active_key (T_UserID task))) (rv w3)) = RBulk None
        then set_status s now (T_ID task) ''stopped'' w3
        else finish_run s now task (is_first_run task) (fst (classifyResult (Some resp)))
               (if fst (classifyResult (Some resp)) \<noteq> ''failed''
                then processItems s clk bt task (FP_Items resp) (\<not> is_first_run task \<and> T_NotifyEnabled task)
                       (fst (fst (load_user s task w))) w3
                else w3)))"
proof -
  obtain st msg where cl: "classifyResult (Some resp) = (st, msg)" by (cases "classifyResult (Some resp)")
  define w1 where "w1 = snd (D w (FindTasks (\<lambda>t. T_ID t = i)))"
  have w1: "dbv w1 = dbv w" "rv w1 = rv w" "outbox w1 = outbox w" by (simp_all add: w1_def sql_simps)
  define w2 where "w2 = setTaskCrawlStatus s bt (T_ID task) st msg w1"
  have w2: "dbv w2 = dbv w" "outbox w2 = outbox w" by (simp_all add: w2_def w1)
  have keep: "rv w2 k = rv w k" if "k \<noteq> ''task:crawl_status:'' @ intToString (T_ID task)"
      "k \<noteq> ''task:crawl_message:'' @ intToString (T_ID task)" for k
    using that by (simp add: w2_def w1 setTaskCrawlStatus_def env_simps sql_simps Let_def)
  have user: "fst (load_user s task w2) = fst (load_user s task w)"
    by (simp add: load_user_def env_simps sql_simps prod.case_eq_if w2 split: option.splits)
  define G where "G = GET (guest_active_key (T_UserID task))"
  define guest where "guest \<longleftrightarrow> snd (fst (load_user s task w)) = ''guest''"
  define w3 where "w3 = (if guest then snd (R bt (snd (load_user s task w2)) G) else snd (load_user s task w2))"
  have getrv: "snd (ttl_doc t G ks) = ks" for t ks by (simp add: G_def split: option.split)
  have w3: "dbv w3 = dbv w" "outbox w3 = outbox w" "rv w3 = rv w2"
    by (simp_all add: w3_def sql_simps w2 getrv)
  have first: "first_task (fst (D w (FindTasks (\<lambda>t. T_ID t = i)))) = Some task"
    using assms(2) by (simp add: db_reply)
  have "handleResult s clk bt now resp w =
      (None,
       (if guest \<and> fst (ttl_doc bt G (rv w3)) = RBulk None
        then set_status s now (T_ID task) ''stopped'' w3
        else finish_run s now task (is_first_run task) st
               (if st \<noteq> ''failed''
                then processItems s clk bt task (FP_Items resp) (\<not> is_first_run task \<and> T_NotifyEnabled task)
                       (fst (fst (load_user s task w))) w3
                else w3)))"
    unfolding handleResult_def case_nil_reply
    by (simp add: assms(1) env_simps case_prod_beta first w1_def [symmetric] Let_def cl
        w2_def [symmetric] user guest_def [symmetric] G_def [symmetric] w3_def redis_reply getrv redis_effect
        del: ttl_doc.simps) (auto simp: w2_def)
  then have "handleResult s clk bt now resp w =
      (None,
       (if snd (fst (load_user s task w)) = ''guest'' \<and>
           fst (ttl_doc bt (GET (guest_active_key (T_UserID task))) (rv w3)) = RBulk None
        then set_status s now (T_ID task) ''stopped'' w3
        else finish_run s now task (is_first_run task) (fst (classifyResult (Some resp)))
               (if fst (classifyResult (Some resp)) \<noteq> ''failed''
                then processItems s clk bt task (FP_Items resp) (\<not> is_first_run task \<and> T_NotifyEnabled task)
                       (fst (fst (load_user s task w))) w3
                else w3)))"
    unfolding guest_def G_def cl fst_conv .
  with w3 keep show ?thesis by metis
qed

lemma handleResult_silent:
  assumes "parseTaskID (FP_TaskId resp) = Inr i" and "filter (\<lambda>t. T_ID t = i) (tasks (dbv w)) = task # rest"
    and "is_first_run task \<or> \<not> T_NotifyEnabled task"
  shows "outbox (snd (handleResult s clk bt now resp w)) = outbox w"
proof -
  have off: "(\<not> is_first_run task \<and> T_NotifyEnabled task) = False" using assms(3) by auto
  from handleResult_loaded [OF assms(1,2), of clk bt now] obtain w3 where o: "outbox w3 = outbox w"
    and run: "handleResult s clk bt now resp w =
      (None,
       (if snd (fst (load_user s task w)) = ''guest'' \<and>
           fst (ttl_doc bt (GET (guest_active_key (T_UserID task))) (rv w3)) = RBulk None
        then set_status s now (T_ID task) ''stopped'' w3
        else finish_run s now task (is_first_run task) (fst (classifyResult (Some resp)))
               (if fst (classifyResult (Some resp)) \<noteq> ''failed''
                then processItems s clk bt task (FP_Items resp) (\<not> is_first_run task \<and> T_NotifyEnabled task)
                       (fst (fst (load_user s task w))) w3
                else w3)))" by blast
  show ?thesis unfolding run off by (simp add: silent_processItems o del: ttl_doc.simps)
qed

lemma handleResult_tasks:
  assumes "parseTaskID (FP_TaskId resp) = Inr i" and "filter (\<lambda>t. T_ID t = i) (tasks (dbv w)) = task # rest"
  shows "tasks (dbv (snd (handleResult s clk bt now resp w))) =
    update_where (\<lambda>t. T_ID t = i)
      (if guest_idle bt task w
       then (\<lambda>t. t\<lparr>T_Status := ''stopped'', T_UpdatedAt := now\<rparr>)
       else (\<lambda>t. t\<lparr>T_LastRunAt := Some now,
               T_BaselineAt := (if is_first_run task \<and> fst (classifyResult (Some resp)) \<noteq> ''failed''
                                then Some now else T_BaselineAt t),
               T_UpdatedAt := now,
               T_Status := (if T_Type task = TaskTypeOneShot then ''completed'' else ''running'')\<rparr>))
      (tasks (dbv w))"
proof -
  have id: "T_ID task = i" using assms(2) filter_set [of "\<lambda>t. T_ID t = i" "tasks (dbv w)"] by auto
  from handleResult_loaded [OF assms, of clk bt now] obtain w3 where w3: "dbv w3 = dbv w"
    and key: "rv w3 (guest_active_key (T_UserID task)) = rv w (guest_active_key (T_UserID task))"
    and run: "handleResult s clk bt now resp w =
      (None,
       (if snd (fst (load_user s task w)) = ''guest'' \<and>
           fst (ttl_doc bt (GET (guest_active_key (T_UserID task))) (rv w3)) = RBulk None
        then set_status s now (T_ID task) ''stopped'' w3
        else finish_run s now task (is_first_run task) (fst (classifyResult (Some resp)))
               (if fst (classifyResult (Some resp)) \<noteq> ''failed''
                then processItems s clk bt task (FP_Items resp) (\<not> is_first_run task \<and> T_NotifyEnabled task)
                       (fst (fst (load_user s task w))) w3
                else w3)))"
  proof -
    have "guest_active_key (T_UserID task) \<noteq> ''task:crawl_status:'' @ intToString (T_ID task)"
      "guest_active_key (T_UserID task) \<noteq> ''task:crawl_message:'' @ intToString (T_ID task)"
      by (simp_all add: guest_active_key_def)
    then show thesis using handleResult_loaded [OF assms, of clk bt now] that by blast
  qed
  have idle: "(fst (ttl_doc bt (GET k) ks) = RBulk None) = (live bt ks k = RNone)" for ks k
    by (cases "live bt ks k") (auto simp: wrongtype_def)
  have "live bt (rv w3) (guest_active_key (T_UserID task)) = live bt (rv w) (guest_active_key (T_UserID task))"
    unfolding live_def key ..
  then show ?thesis
    by (simp add: run guest_idle_def idle finish_run_tasks set_status_def env_simps sql_simps w3 id
        del: ttl_doc.simps)
qed

lemma upsertItem_succeeds: "\<exists>i. fst (upsertItem s now it w) = Some i"
proof -
  let ?db = "snd (sql_doc (UpsertItem (item_row now it)) (dbv w))"
  have "\<exists>x \<in> set (items ?db). I_SourceID x = PI_SourceId it"
  proof (cases "find (\<lambda>x. I_SourceID x = PI_SourceId it) (items (dbv w))")
    case None
    then show ?thesis by (simp add: item_row_def)
  next
    case (Some old)
    then have "old \<in> set (items (dbv w))" "I_SourceID old = PI_SourceId it" using find_SomeD [OF Some] by auto
    then have "upserted (item_row now it) old \<in> set (items ?db)" "I_SourceID (upserted (item_row now it) old) = PI_SourceId it"
      using Some by (force simp: item_row_def set_update_where upserted_def)+
    then show ?thesis by blast
  qed
  then have found: "filter (\<lambda>x. I_SourceID x = PI_SourceId it) (items ?db) \<noteq> []"
    by (auto simp: filter_empty_conv)
  obtain i where i: "fst (sql_doc (UpsertItem (item_row now it)) (dbv w)) = RId i"
    by (cases "find (\<lambda>x. I_SourceID x = I_SourceID (item_row now it)) (items (dbv w))") auto
  define w1 where "w1 = snd (D w (UpsertItem (item_row now it)))"
  have "D w (UpsertItem (item_row now it)) = (Some (RId i), w1)"
    using db_reply [of w "UpsertItem (item_row now it)"] i by (simp add: w1_def prod_eq_iff)
  moreover have "dbv w1 = ?db" by (simp only: w1_def db_effect)
  ultimately show ?thesis
    using found by (simp add: upsertItem_def env_simps case_prod_beta db_reply del: sql_doc.simps(10))
qed

text \<open>The price cache of a task as a map; it never expires.\<close>

definition cached :: "nat \<Rightarrow> (string \<times> string) list \<Rightarrow> 'w \<Rightarrow> bool" where
  "cached i h w \<longleftrightarrow> rv w (dedup_key i) = (mk_hash h, None)"

lemma cached_live: "cached i h w \<Longrightarrow> as_hash (live t (rv w) (dedup_key i)) = Some h"
  by (simp add: cached_def live_def)

lemma read_cache:
  "cached i h w \<Longrightarrow> read_reply (fst (R t w (HGETF (dedup_key i) f))) = Inr (map_of h f)"
  "cached i h w \<Longrightarrow> rv (snd (R t w (HGETF (dedup_key i) f))) = rv w"
  by (simp_all add: read_reply_def redis_reply redis_effect cached_live)

lemma write_cache:
  assumes "cached i h w"
  shows "rv (snd (R t w (HSETF (dedup_key i) f v))) = (rv w)(dedup_key i := (mk_hash (AList.update f v h), None))"
proof -
  have "expiry t (rv w) (dedup_key i) = None" using assms by (simp add: expiry_def cached_def)
  then show ?thesis by (simp add: redis_effect cached_live [OF assms])
qed

lemma process_item_cache:
  assumes c: "cached (T_ID task) h (snd st)"
  shows "cached (T_ID task) (cache_step it h) (snd (process_item s task b e bt tch idx it st))"
proof -
  let ?R = "R tch (snd st) (HGETF (dedup_key (T_ID task)) (PI_SourceId it))"
  obtain j where j: "\<And>w. fst (upsertItem s tch it w) = Some (j w)" using upsertItem_succeeds by metis
  have c1: "rv (snd ?R) = rv (snd st)" using read_cache(2) [OF c] .
  have wr: "rv (snd (R tch w (HSETF (dedup_key (T_ID task)) f v))) =
      (rv (snd st))(dedup_key (T_ID task) := (mk_hash (AList.update f v h), None))"
    if "rv w = rv (snd st)" for w f v
    using write_cache [of "T_ID task" h w tch f v] c that by (simp add: cached_def)
  show ?thesis
    using c
    by (auto simp: process_item_def cache_step_def env_simps prod.case_eq_if read_cache(1) [OF c]
        process_new_def process_known_def j c1 wr cached_def Let_def db_frame
        split: option.split)
qed

lemma process_loop_cache:
  "cached (T_ID task) h (snd st) \<Longrightarrow>
   cached (T_ID task) (fold cache_step its h) (snd (process_loop s task b e bt clk idx its st))"
proof (induction its arbitrary: idx st h)
  case (Cons it its)
  from Cons.IH [OF process_item_cache [OF Cons.prems]] show ?case by simp
qed simp

lemma process_item_mail:
  assumes c: "cached (T_ID task) h (snd st)" and N: "S_notifier s = Some N"
  shows "outbox (snd (process_item s task b e bt tch idx it st)) =
         outbox (snd st) @ item_mail task b e bt it (fst st) h"
proof -
  obtain j where j: "\<And>w. fst (upsertItem s tch it w) = Some (j w)" using upsertItem_succeeds by metis
  have mail: "outbox (notify_mail s b e task it reason p w) =
      outbox w @ (if b \<and> e \<noteq> [] then [\<lparr>M_To = e, M_Reason = reason, M_Keyword = T_Keyword task,
        M_SourceID = PI_SourceId it, M_Price = PI_Price it, M_OldPrice = p\<rparr>] else [])" for b reason p w
    by (simp add: notify_mail_def N mail_effect)
  show ?thesis
  proof (cases "TrimSpace (PI_SourceId it) = []")
    case True
    then show ?thesis by (simp add: process_item_def item_mail_def)
  next
    case False
    then show ?thesis
      by (cases "map_of h (PI_SourceId it)")
        (simp_all add: process_item_def item_mail_def env_simps prod.case_eq_if read_cache(1) [OF c]
          process_new_def process_known_def j Let_def db_frame redis_frame mail split: option.split)
  qed
qed

end

section \<open>A concrete scheduler\<close>

interpretation plain_sched: scheduler_services world_db world_redis world_mail w_db w_redis w_mail plain_scheduler
  by unfold_locales (simp_all add: plain_scheduler_def)

definition link :: "nat \<Rightarrow> nat \<Rightarrow> gotime \<Rightarrow> int \<Rightarrow> TaskItem" where
  "link i j t r = \<lparr>TI_TaskID = i, TI_ItemID = j, TI_CreatedAt = t, TI_Rank = r\<rparr>"

definition world7 :: "TaskItem list \<Rightarrow> world" where
  "world7 links = \<lparr>w_db = empty_tables\<lparr>tasks := [task7], task_items := links\<rparr>, w_redis = empty_tks, w_mail = []\<rparr>"

definition pb1 :: "int \<Rightarrow> pb_Item" where
  "pb1 price = \<lparr>PI_SourceId = ''m1'', PI_Title = ''t'', PI_Price = price, PI_ImageUrl = [], PI_ItemUrl = [],
     PI_Platform = 1, PI_Status = [], PI_Currency = []\<rparr>"

lemma TrimSpace_m1 [simp]: "TrimSpace ''m1'' = ''m1''"
  by (rule TrimSpace_printable) (simp add: printable_def byte_def)

section \<open>Properties\<close>

text \<open>
  C7. One item of a crawl result leads to the mail it should, and to no other: a new item is
  announced when no known item came before it in the list (its link time is that of the batch),
  a known item only when its price is below the cached one, with that price; nothing is sent
  when notifications are off, the address is unknown, or the source id is blank.
\<close>

theorem notification_of_an_item:
  assumes "scheduler_services D R N dbv rv outbox s" and "S_notifier s = Some N"
    and "rv (snd st) (dedup_key (T_ID task)) = (mk_hash h, None)"
  shows "outbox (snd (process_item s task notify userEmail batchTime touch idx it st)) =
         outbox (snd st) @ item_mail task notify userEmail batchTime it (fst st) h"
  using scheduler_services.process_item_mail [OF assms(1) _ assms(2)]
    scheduler_services.cached_def [OF assms(1)] assms(3) by blast

theorem notification_of_an_item_witness:
  "map M_OldPrice (w_mail (snd (process_item plain_scheduler task7 True ''a@b'' 90 91 0 (pb1 80)
     (zero_time, (world7 [])\<lparr>w_redis := empty_tks(dedup_key 7 := (RHash [(''m1'', FormatInt 100)], None))\<rparr>)))) = [100]"
  using notification_of_an_item [OF plain_sched.scheduler_services_axioms, of
      "(zero_time, (world7 [])\<lparr>w_redis := empty_tks(dedup_key 7 := (RHash [(''m1'', FormatInt 100)], None))\<rparr>)"
      task7 "[(''m1'', FormatInt 100)]" True "''a@b''" 90 91 0 "pb1 80"]
  by (simp add: plain_scheduler_def task7_def mk_hash_def world7_def item_mail_def pb1_def atoi32_def Atoi_def)

text \<open>
  Nothing is announced before a task has its baseline: handling a result of a task in its
  first run, or with notifications disabled, sends no mail.
\<close>

theorem first_run_sends_nothing:
  assumes "scheduler_services D R N dbv rv outbox s"
    and "parseTaskID (FP_TaskId resp) = Inr i" and "filter (\<lambda>t. T_ID t = i) (tasks (dbv w)) = task # rest"
    and "is_first_run task \<or> \<not> T_NotifyEnabled task"
  shows "outbox (snd (handleResult s clk batchTime now resp w)) = outbox w"
  using scheduler_services.handleResult_silent [OF assms] .

definition resp7 :: FetchResponse where
  "resp7 = \<lparr>FP_Items = [pb1 80], FP_TotalFound = 1, FP_ErrorMessage = [], FP_TaskId = FormatUint 7\<rparr>"

lemma parse_resp7: "parseTaskID (FP_TaskId resp7) = Inr 7"
proof -
  have "TrimSpace (FormatUint 7) = FormatUint 7"
    using TrimSpace_printable FormatUint_digits printable_digit by (metis FormatUint_not_Nil hd_in_set last_in_set)
  then show ?thesis by (simp add: resp7_def parseTaskID_def)
qed

theorem first_run_sends_nothing_witness:
  "w_mail (snd (handleResult plain_scheduler (\<lambda>_. 91) 90 95 resp7
     ((world7 [])\<lparr>w_db := empty_tables\<lparr>tasks := [task7\<lparr>T_BaselineAt := None\<rparr>]\<rparr>\<rparr>))) = []"
  using first_run_sends_nothing [OF plain_sched.scheduler_services_axioms parse_resp7, of
      "(world7 [])\<lparr>w_db := empty_tables\<lparr>tasks := [task7\<lparr>T_BaselineAt := None\<rparr>]\<rparr>\<rparr>"]
  by (simp add: task7_def world7_def is_first_run_def)

text \<open>
  The price cache holds what the crawl saw: after the items are processed, the cached price
  of the last occurrence of every source id is the crawled one, and ids that were not crawled
  keep their entry.
\<close>

theorem price_cache_follows_crawl:
  assumes "scheduler_services D R N dbv rv outbox s" and "rv w (dedup_key (T_ID task)) = (mk_hash h, None)"
    and "\<forall>it \<in> set its. - 2147483648 \<le> PI_Price it \<and> PI_Price it \<le> 2147483647"
  shows "\<exists>h'. rv (processItems s clk batchTime task its notify userEmail w) (dedup_key (T_ID task)) = (mk_hash h', None) \<and>
     (\<forall>xs it ys. its = xs @ it # ys \<and> TrimSpace (PI_SourceId it) \<noteq> [] \<and>
        PI_SourceId it \<notin> PI_SourceId ` set ys \<longrightarrow>
        (\<exists>v. map_of h' (PI_SourceId it) = Some v \<and> fst (atoi32 v) = PI_Price it)) \<and>
     (\<forall>src. src \<notin> PI_SourceId ` set its \<longrightarrow> map_of h' src = map_of h src)"
proof (intro exI [of _ "fold cache_step its h"] conjI allI impI)
  show "rv (processItems s clk batchTime task its notify userEmail w) (dedup_key (T_ID task)) =
      (mk_hash (fold cache_step its h), None)"
    using scheduler_services.process_loop_cache [OF assms(1)] scheduler_services.cached_def [OF assms(1)]
      scheduler_services.cleanup_frame(1) [OF assms(1)] assms(2) unfolding processItems_def by (metis snd_conv)
next
  fix xs it ys
  assume a: "its = xs @ it # ys \<and> TrimSpace (PI_SourceId it) \<noteq> [] \<and> PI_SourceId it \<notin> PI_SourceId ` set ys"
  then have "map_of (fold cache_step its h) (PI_SourceId it) = map_of (cache_step it (fold cache_step xs h)) (PI_SourceId it)"
    by (auto simp: cache_fold_other)
  moreover have "- 2147483648 \<le> PI_Price it \<and> PI_Price it \<le> 2147483647" using a assms(3) by auto
  ultimately show "\<exists>v. map_of (fold cache_step its h) (PI_SourceId it) = Some v \<and> fst (atoi32 v) = PI_Price it"
    using a cache_step_price [of it "fold cache_step xs h"] by auto
next
  fix src
  assume "src \<notin> PI_SourceId ` set its"
  then show "map_of (fold cache_step its h) src = map_of h src" by (rule cache_fold_other)
qed

theorem price_cache_follows_crawl_witness:
  "\<exists>h' v. w_redis (processItems plain_scheduler (\<lambda>_. 91) 90 task7 [pb1 100, pb1 80] True [] (world7 [])) (dedup_key 7) =
     (mk_hash h', None) \<and> map_of h' ''m1'' = Some v \<and> fst (atoi32 v) = 80"
proof -
  have "w_redis (world7 []) (dedup_key (T_ID task7)) = (mk_hash [], None)"
    by (simp add: world7_def empty_tks_def mk_hash_def)
  moreover have "\<forall>it \<in> set [pb1 100, pb1 80]. - 2147483648 \<le> PI_Price it \<and> PI_Price it \<le> 2147483647"
    by (simp add: pb1_def)
  ultimately obtain h' where h': "w_redis (processItems plain_scheduler (\<lambda>_. 91) 90 task7 [pb1 100, pb1 80] True [] (world7 []))
      (dedup_key (T_ID task7)) = (mk_hash h', None)"
    and p: "\<And>xs it ys. [pb1 100, pb1 80] = xs @ it # ys \<and> TrimSpace (PI_SourceId it) \<noteq> [] \<and>
      PI_SourceId it \<notin> PI_SourceId ` set ys \<longrightarrow> (\<exists>v. map_of h' (PI_SourceId it) = Some v \<and> fst (atoi32 v) = PI_Price it)"
    using price_cache_follows_crawl [OF plain_sched.scheduler_services_axioms, of "world7 []" task7 "[]" "[pb1 100, pb1 80]"]
    by blast
  from p [of "[pb1 100]" "pb1 80" "[]"] h' show ?thesis by (simp add: pb1_def task7_def) blast
qed

text \<open>
  C26. The clean-up leaves a task with no more links than configured: when there are more, what
  is kept are the links strictly newer than the first one beyond the limit (in the order of the
  timeline); the links of other tasks, the items and the tasks stay.
\<close>

theorem cleanup_enforces_the_limit:
  assumes "scheduler_services D R N dbv rv outbox s" and "0 < S_maxItemsPerTask s"
    and "\<forall>x \<in> set (task_items (dbv w)). \<not> IsZero (TI_CreatedAt x)"
  shows "let rows = filter (\<lambda>x. TI_TaskID x = i) (task_items (dbv w));
             rest = filter (\<lambda>x. TI_TaskID x = i) (task_items (dbv (cleanupOldItems s i w)));
             k = nat (S_maxItemsPerTask s)
         in int (length rest) \<le> S_maxItemsPerTask s \<and>
            rest = (if length rows \<le> k then rows
                    else filter (\<lambda>x. TI_CreatedAt (sort_key link_recency rows ! k) < TI_CreatedAt x) rows) \<and>
            filter (\<lambda>x. TI_TaskID x \<noteq> i) (task_items (dbv (cleanupOldItems s i w))) =
              filter (\<lambda>x. TI_TaskID x \<noteq> i) (task_items (dbv w)) \<and>
            (dbv (cleanupOldItems s i w))\<lparr>task_items := []\<rparr> = (dbv w)\<lparr>task_items := []\<rparr>"
  unfolding Let_def by (rule scheduler_services.cleanup_limit [OF assms])

theorem cleanup_enforces_the_limit_witness:
  "length (filter (\<lambda>x. TI_TaskID x = 7) (task_items (w_db (cleanupOldItems plain_scheduler 7 (world7 [link 7 1 10 1, link 7 2 20 1, link 7 3 30 1]))))) \<le> 2"
proof -
  have "0 < S_maxItemsPerTask plain_scheduler"
    "\<forall>x \<in> set (task_items (w_db (world7 [link 7 1 10 1, link 7 2 20 1, link 7 3 30 1]))). \<not> IsZero (TI_CreatedAt x)"
    by (simp_all add: plain_scheduler_def world7_def link_def IsZero_def zero_time_def)
  from cleanup_enforces_the_limit [OF plain_sched.scheduler_services_axioms this, of 7]
  have "int (length (filter (\<lambda>x. TI_TaskID x = 7) (task_items (w_db (cleanupOldItems plain_scheduler 7
      (world7 [link 7 1 10 1, link 7 2 20 1, link 7 3 30 1])))))) \<le> S_maxItemsPerTask plain_scheduler"
    unfolding Let_def by (elim conjE)
  then show ?thesis by (simp add: plain_scheduler_def)
qed

text \<open>
  C35. When every link of a task has the same time, as after a first crawl that found more items
  than the limit, the clean-up deletes all of them, although it is meant to keep the newest.
\<close>

theorem cleanup_of_one_batch_deletes_everything:
  assumes "scheduler_services D R N dbv rv outbox s" and "0 < S_maxItemsPerTask s"
    and "\<not> IsZero batchTime" and "\<forall>x \<in> set (task_items (dbv w)). TI_CreatedAt x = batchTime"
    and "S_maxItemsPerTask s < int (length (filter (\<lambda>x. TI_TaskID x = i) (task_items (dbv w))))"
  shows "filter (\<lambda>x. TI_TaskID x = i) (task_items (dbv (cleanupOldItems s i w))) = []"
proof -
  define rows where "rows = filter (\<lambda>x. TI_TaskID x = i) (task_items (dbv w))"
  define k where "k = nat (S_maxItemsPerTask s)"
  have k: "k < length rows" using assms(2,5) by (simp add: rows_def k_def)
  then have "sort_key link_recency rows ! k \<in> set rows" by (metis length_sort nth_mem set_sort)
  then have "TI_CreatedAt (sort_key link_recency rows ! k) = batchTime" using assms(4) by (simp add: rows_def)
  moreover have "\<forall>x \<in> set (task_items (dbv w)). \<not> IsZero (TI_CreatedAt x)" using assms(3,4) by simp
  moreover have "filter (\<lambda>x. batchTime < TI_CreatedAt x) rows = []"
    using assms(4) by (auto simp: rows_def filter_empty_conv)
  ultimately show ?thesis
    using scheduler_services.cleanup_limit [OF assms(1,2), of w i] k by (simp add: rows_def k_def)
qed

theorem cleanup_of_one_batch_deletes_everything_witness:
  "filter (\<lambda>x. TI_TaskID x = 7) (task_items (w_db (cleanupOldItems plain_scheduler 7
     (world7 [link 7 1 90 1, link 7 2 90 2, link 7 3 90 3])))) = []"
  by (rule cleanup_of_one_batch_deletes_everything [OF plain_sched.scheduler_services_axioms, of 90])
    (simp_all add: plain_scheduler_def world7_def link_def IsZero_def zero_time_def)

text \<open>
  C21. What handling a result does to the tasks: only the row of the task changes. A task of an
  inactive guest is stopped. Otherwise the run time is recorded, the baseline is set in the
  first run unless the crawl failed, and the task is completed (one shot) or running.
\<close>

theorem result_updates_its_task:
  assumes "scheduler_services D R N dbv rv outbox s"
    and "parseTaskID (FP_TaskId resp) = Inr i" and "filter (\<lambda>t. T_ID t = i) (tasks (dbv w)) = task # rest"
  shows "tasks (dbv (snd (handleResult s clk batchTime now resp w))) =
    update_where (\<lambda>t. T_ID t = i)
      (if snd (fst (load_user s task w)) = ''guest'' \<and>
          live batchTime (rv w) (guest_active_key (T_UserID task)) = RNone
       then (\<lambda>t. t\<lparr>T_Status := ''stopped'', T_UpdatedAt := now\<rparr>)
       else (\<lambda>t. t\<lparr>T_LastRunAt := Some now,
               T_BaselineAt := (if is_first_run task \<and> fst (classifyResult (Some resp)) \<noteq> ''failed''
                                then Some now else T_BaselineAt t),
               T_UpdatedAt := now,
               T_Status := (if T_Type task = TaskTypeOneShot then ''completed'' else ''running'')\<rparr>))
      (tasks (dbv w))"
  using scheduler_services.handleResult_tasks [OF assms]
  by (simp only: scheduler_services.guest_idle_def [OF assms(1)])

theorem result_updates_its_task_witness:
  "map T_LastRunAt (tasks (w_db (snd (handleResult plain_scheduler (\<lambda>_. 91) 90 95 resp7 (world7 []))))) = [Some 95]"
  using result_updates_its_task [OF plain_sched.scheduler_services_axioms parse_resp7, of "world7 []" task7 "[]" "\<lambda>_. 91" 90 95]
  by (simp add: world7_def task7_def update_where_def load_user_def plain_scheduler_def world_db_def empty_tables_def)

text \<open>
  A result that arrives after its task was stopped starts the task again: whatever the
  status was, a monitoring task of an active user is running once the result is handled.
\<close>

theorem result_restarts_a_stopped_task:
  assumes "scheduler_services D R N dbv rv outbox s"
    and "parseTaskID (FP_TaskId resp) = Inr i" and "tasks (dbv w) = [task]" and "T_ID task = i"
    and "T_Type task = TaskTypeMonitor" and "snd (fst (load_user s task w)) \<noteq> ''guest''"
  shows "map T_Status (tasks (dbv (snd (handleResult s clk batchTime now resp w)))) = [''running'']"
  using scheduler_services.handleResult_tasks [OF assms(1,2), of w task "[]" clk batchTime now] assms(3-6)
  by (simp add: update_where_def TaskTypeMonitor_def TaskTypeOneShot_def scheduler_services.guest_idle_def [OF assms(1)])

theorem result_restarts_a_stopped_task_witness:
  "T_Status task7 = ''stopped'' \<and>
   map T_Status (tasks (w_db (snd (handleResult plain_scheduler (\<lambda>_. 91) 90 95 resp7 (world7 []))))) = [''running'']"
  using result_restarts_a_stopped_task [OF plain_sched.scheduler_services_axioms parse_resp7, of "world7 []" task7]
  by (simp add: world7_def task7_def TaskTypeMonitor_def load_user_def plain_scheduler_def world_db_def empty_tables_def)

end
