(* ===== verification/Journey.thy ===== *)
theory Journey
  imports CrawlerGuarantees ResultProcessing
begin

text \<open>
  A task on its whole way: from its row in the database through the queue to a crawler, and from the
  crawler's report back to the row. The queue and the database are two services of one world; what the
  operations of \<^verbatim>\<open>redisqueue\<close> do to the queue cannot be seen in the other services
  (\<open>separate_queue\<close>).
\<close>

section \<open>The queue next to the other services\<close>

locale separate_queue =
  fixes S :: "'w server" and look :: "'w \<Rightarrow> 'v"
  assumes unseen: "look (snd (S w c)) = look w"
begin

lemma redis_call_unseen:
  "(\<And>r w. look (snd (cont r w)) = look w) \<Longrightarrow> look (snd (redis_call S c cont w)) = look w"
  using unseen [of w c] by (auto simp: redis_call_def split: prod.split redis_reply.split)

lemma client_call_unseen: "(\<And>w. look (snd (f w)) = look w) \<Longrightarrow> look (snd (client_call net f w)) = look w"
  by (cases net) simp_all

lemma ack_scan_unseen:
  "(\<And>n w. look (snd (cont n w)) = look w) \<Longrightarrow> look (snd (ack_scan S lp queue i cont raws w)) = look w"
  by (induction raws) (simp_all add: redis_call_unseen)

lemma scripts_unseen:
  "look (snd (pushTaskScript S KEYS ARGV w)) = look w"
  "look (snd (ackTaskScript S lp KEYS ARGV w)) = look w"
  by (auto simp: pushTaskScript_def ackTaskScript_def Let_def intro!: redis_call_unseen ack_scan_unseen)

lemma operations_unseen [simp]:
  "look (snd (PushTask (Some S) mar net (Some t) w)) = look w"
  "look (snd (PopTask (Some S) unm now net1 net2 w)) = look w"
  "look (snd (PushResult (Some S) marr net (Some r) w)) = look w"
  "look (snd (PopResult (Some S) unmr net w)) = look w"
  "look (snd (AckTask (Some S) lp net (Some t) w)) = look w"
proof -
  note ops = client_call_unseen unseen scripts_unseen
  have call: "look w1 = look w" if "client_call net f w = (r, w1)" "\<And>w. look (snd (f w)) = look w" for net f r w1 w
    using client_call_unseen [of f net w] that by simp
  note splits = prod.split option.split redis_reply.split
  show "look (snd (PushTask (Some S) mar net (Some t) w)) = look w"
    by (auto simp: PushTask_def Let_def scripts_unseen dest: call split: splits)
  show "look (snd (PopTask (Some S) unm now net1 net2 w)) = look w"
    by (auto simp: PopTask_def ops dest: call split: splits)
  show "look (snd (PushResult (Some S) marr net (Some r) w)) = look w"
    by (auto simp: PushResult_def ops dest: call split: splits)
  show "look (snd (PopResult (Some S) unmr net w)) = look w"
    by (auto simp: PopResult_def ops dest: call split: splits)
  show "look (snd (AckTask (Some S) lp net (Some t) w)) = look w"
    by (auto simp: AckTask_def Let_def scripts_unseen dest: call split: splits)
qed

lemma run_task_unseen [simp]: "look (run_task (Some S) marr lp net1 net2 ctx task res w) = look w"
  by (simp add: run_task_def Let_def)

end

section \<open>A task and its result\<close>

context queue_client
begin

text \<open>A task that is pushed to an empty queue and popped.\<close>

lemma push_pop:
  fixes now :: gotime
  assumes "queue_typed (view d)" and "q_entries (Q d) = []" and "FR_TaskId t \<notin> q_pending (Q d)"
    and "mar t = Some raw" and "decimal (FR_TaskId t)"
  defines "d1 \<equiv> snd (PushTask (Some S) mar Delivered (Some t) d)"
  defines "d2 \<equiv> snd (PopTask (Some S) unm now Delivered Delivered d1)"
  shows "fst (PushTask (Some S) mar Delivered (Some t) d) = None"
    and "fst (PopTask (Some S) unm now Delivered Delivered d1) = Inr t"
    and "q_entries (Q d2) = [raw]" and "q_processing (Q d2) = [raw]" and "q_results (Q d2) = q_results (Q d)"
    and "q_pending (Q d2) = insert (FR_TaskId t) (q_pending (Q d))"
    and "(queue_step S view mar unm lp)\<^sup>*\<^sup>* d d2"
proof -
  have ne: "FR_TaskId t \<noteq> []" using assms(5) by (simp add: decimal_def)
  have u: "unm raw = Some t" using codec assms(4) by (simp add: protojson_codec_def)
  note push = pushTaskScript_effect [OF assms(1), of "FR_TaskId t" raw]
  have d1: "d1 = snd (pushTaskScript S [KeyTaskPendingSet, KeyTaskQueue] [FR_TaskId t, raw] d)"
    using ne assms(4) by (simp add: d1_def PushTask_state)
  have empty: "q_tasks (Q d) = []" "q_processing (Q d) = []" using assms(2) by (simp_all add: q_entries_def del: qview_of_sel)
  have Q1: "Q d1 = (Q d)\<lparr>q_tasks := [raw], q_pending := insert (FR_TaskId t) (q_pending (Q d))\<rparr>"
    unfolding d1 push(2) by (simp add: push_view_def assms(3) empty del: qview_of_sel)
  have t1: "queue_typed (view d1)" unfolding d1 by (rule push(3))
  note pop = pop_effect [OF t1]
  show "fst (PushTask (Some S) mar Delivered (Some t) d) = None"
    using ne push(1) assms(3,4) by (simp add: PushTask_def Let_def del: qview_of_sel)
  have last: "fst (S d1 (BRPOPLPUSH KeyTaskQueue KeyTaskProcessingQueue)) = RBulk (Some raw)"
    using pop(1) by (simp add: Q1 del: qview_of_sel)
  have d2: "d2 = snd (S (snd (S d1 (BRPOPLPUSH KeyTaskQueue KeyTaskProcessingQueue)))
      (HSET KeyTaskStartedHash (FR_TaskId t) (FormatInt (Unix now))))"
    using ne u last by (simp add: d2_def PopTask_def)
  show "fst (PopTask (Some S) unm now Delivered Delivered d1) = Inr t"
    using ne u last by (simp add: PopTask_def)
  have Q2: "Q d2 = (pop_view (Q d1))\<lparr>q_started := AList.update (FR_TaskId t) (FormatInt (Unix now)) (q_started (pop_view (Q d1)))\<rparr>"
    unfolding d2 by (simp only: mark_effect(1) [OF pop(3)] pop(2))
  show "q_entries (Q d2) = [raw]" "q_processing (Q d2) = [raw]" "q_results (Q d2) = q_results (Q d)"
    "q_pending (Q d2) = insert (FR_TaskId t) (q_pending (Q d))"
    unfolding Q2 by (simp_all add: Q1 pop_view_def q_entries_def empty del: qview_of_sel)
  show "(queue_step S view mar unm lp)\<^sup>*\<^sup>* d d2"
    unfolding d2_def d1_def by (rule rtranclp_trans [OF PushTask_steps [OF assms(5)] PopTask_steps])
qed

end

text \<open>The task is crawled to its end and reported, and the report is what the next pop of a result returns.\<close>

lemma task_cycle:
  assumes "redis_server S view" and "protojson_codec mar unm" and "response_codec marr unmr"
    and "queue_typed (view d0)" and "q_entries (qview_of (view d0)) = []" and "q_results (qview_of (view d0)) = []"
    and "FR_TaskId task \<notin> q_pending (qview_of (view d0))" and "mar task = Some raw" and "decimal (FR_TaskId task)"
    and "reply = task_reply task ctx (Some (fst (FetchItems env as task s w)))" and "marr reply = Some data"
    and "d1 = snd (PushTask (Some S) mar Delivered (Some task) d0)"
    and "d2 = snd (PopTask (Some S) unm now Delivered Delivered d1)"
    and "d3 = fst (process_task env as (Some S) marr lp Delivered Delivered ctx False task s w d2)"
  shows "fst (PushTask (Some S) mar Delivered (Some task) d0) = None"
    and "fst (PopTask (Some S) unm now Delivered Delivered d1) = Inr task"
    and "fst (PopResult (Some S) unmr Delivered d3) = Inr reply" and "FP_TaskId reply = FR_TaskId task"
    and "q_entries (qview_of (view d3)) = []" and "FR_TaskId task \<notin> q_pending (qview_of (view d3))"
proof -
  note qc = queue_clientI [OF assms(1,2)]
  note one = queue_client.push_pop [OF qc assms(4,5,7,8,9), folded assms(12)]
  note pp = one(1) one(2-6) [where now = now, folded assms(13)] one(7) [where now = now and lp = lp, folded assms(13)]
  show "fst (PushTask (Some S) mar Delivered (Some task) d0) = None"
    "fst (PopTask (Some S) unm now Delivered Delivered d1) = Inr task" by (rule pp(1,2))+
  have good: "redis_server.good view mar unm d2"
    using queue_client.reachable_good [OF qc assms(4,5) pp(7)] .
  have d3: "d3 = run_task (Some S) marr lp Delivered Delivered ctx task (Some (fst (FetchItems env as task s w))) d2"
    using assms(14) by (simp add: process_task_def case_prod_beta)
  have in2: "raw \<in> set (q_processing (qview_of (view d2)))" using pp(4) by (simp del: qview_of_sel)
  note eff = queue_client.run_task_effect [where marr = marr and lp = lp and res = "Some (fst (FetchItems env as task s w))",
      OF qc good in2 raw_id_marshal [OF assms(2,8)] assms(9) assms(11) [unfolded assms(10)], folded d3]
  have results: "q_results (qview_of (view d3)) = [] @ [data]" using eff(1) pp(5) assms(6) by (simp del: qview_of_sel)
  have dec: "unmr data = Some reply" using assms(3,11) by (simp add: response_codec_def)
  have rq: "result_queue S view marr unmr"
    using assms(1,3) by (simp add: result_queue_def result_queue_axioms_def)
  have typed: "queue_typed (view d3)"
    unfolding d3 by (rule queue_client.run_task_typed [OF qc good])
  show "fst (PopResult (Some S) unmr Delivered d3) = Inr reply"
    by (rule result_queue.PopResult_effect(1) [OF rq typed results dec])
  show "FP_TaskId reply = FR_TaskId task"
    unfolding assms(10) by (rule task_reply_id) (auto dest: FetchItems_task_id)
  show "q_entries (qview_of (view d3)) = []" "FR_TaskId task \<notin> q_pending (qview_of (view d3))"
    using eff(2) pp(3) by (simp_all del: qview_of_sel)
qed

section \<open>The scheduler's end\<close>

context scheduler_services
begin

lemma load_user_of_tables: "dbv w = dbv w' \<Longrightarrow> fst (load_user s task w) = fst (load_user s task w')"
  by (simp add: load_user_def env_simps sql_simps prod.case_eq_if split: option.splits)

lemma handleTaskByID_pushes:
  assumes "S_redisQueue s = Some S" and "filter (\<lambda>t. T_ID t = i) (tasks (dbv w)) = [task]" and "T_Status task = ''running''"
    and "fst (PushTask (Some S) (S_marshal s) (S_net s w1) (Some (task_request now task)) w1) = None"
    and "w1 = snd (D w (FindTasks (\<lambda>t. T_ID t = i \<and> T_Status t = ''running'')))"
  shows "handleTaskByID s now i w = PushTask (Some S) (S_marshal s) (S_net s w1) (Some (task_request now task)) w1"
proof -
  let ?P = "\<lambda>t. T_ID t = i \<and> T_Status t = ''running''"
  have "filter ?P (tasks (dbv w)) = filter (\<lambda>t. T_Status t = ''running'') (filter (\<lambda>t. T_ID t = i) (tasks (dbv w)))"
    by (simp add: conj_commute)
  then have "filter ?P (tasks (dbv w)) = [task]" using assms(2,3) by simp
  then have "fst (D w (FindTasks ?P)) = Some (RTasks [task])" by (simp add: sql_simps)
  moreover have "handleTask s now task w1 = PushTask (Some S) (S_marshal s) (S_net s w1) (Some (task_request now task)) w1"
    using assms(1,4) by (auto simp: handleTask_def split: prod.splits)
  ultimately show ?thesis
    using assms(5) by (simp add: handleTaskByID_def env_simps first_task_def prod.case_eq_if)
qed

end

lemma decimal_task_id: "decimal (intToString i)"
  using FormatUint_digits by (auto simp: decimal_def intToString_def)

text \<open>What the way back leaves in the row of the task.\<close>

definition recorded :: "gotime \<Rightarrow> FetchResponse \<Rightarrow> Task \<Rightarrow> Task" where
  "recorded now reply t =
     t\<lparr>T_LastRunAt := Some now,
       T_BaselineAt := (if is_first_run t \<and> fst (classifyResult (Some reply)) \<noteq> ''failed'' then Some now else T_BaselineAt t),
       T_UpdatedAt := now,
       T_Status := (if T_Type t = TaskTypeOneShot then ''completed'' else ''running'')\<rparr>"

section \<open>A world with a queue\<close>

definition with_queue :: "(world \<Rightarrow> 'a \<times> world) \<Rightarrow> world \<times> keyspace \<Rightarrow> 'a \<times> world \<times> keyspace" where
  "with_queue f w = (case f (fst w) of (r, v) \<Rightarrow> (r, v, snd w))"

definition queue_of_world :: "(world \<times> keyspace) server" where
  "queue_of_world w c = (case memory_server (snd w) c of (r, ks) \<Rightarrow> (r, fst w, ks))"

interpretation world_queue: redis_server queue_of_world snd
  by unfold_locales (simp_all add: queue_of_world_def memory_server_def prod.case_eq_if)

interpretation world_queue: separate_queue queue_of_world "\<lambda>w. (w_db (fst w), w_redis (fst w))"
  by unfold_locales (simp add: queue_of_world_def prod.case_eq_if)

definition task1001 :: Task where
  "task1001 = task7\<lparr>T_ID := 1001, T_Status := ''running''\<rparr>"

definition mar1001 :: request_marshal where
  "mar1001 t = (if t = task_request 0 task1001 then Some raw1 else None)"

definition unm1001 :: request_unmarshal where
  "unm1001 raw = (if raw = raw1 then Some (task_request 0 task1001) else None)"

definition queue_scheduler :: "(world \<times> keyspace) Scheduler" where
  "queue_scheduler = \<lparr>S_db = (\<lambda>w q. with_queue (\<lambda>v. world_db v q) w), S_rdb = (\<lambda>t w c. with_queue (\<lambda>v. world_redis t v c) w),
     S_notifier = Some (\<lambda>w m. with_queue (\<lambda>v. world_mail v m) w), S_redisQueue = Some queue_of_world,
     S_marshal = mar1001, S_unmarshal = unm1001, S_net = (\<lambda>_. Delivered), S_ul = id,
     S_ctx_err = (\<lambda>_. False), S_interval = Minute, S_newItemDuration = Hour, S_maxItemsPerTask = 2,
     S_batchSize = 100, S_janitorInterval = 10 * Minute, S_janitorTimeout = 30 * Minute\<rparr>"

interpretation queue_sched: scheduler_services "S_db queue_scheduler" "S_rdb queue_scheduler" "the (S_notifier queue_scheduler)"
    "\<lambda>w. w_db (fst w)" "\<lambda>w. w_redis (fst w)" "\<lambda>w. w_mail (fst w)" queue_scheduler
  by unfold_locales (simp_all add: queue_scheduler_def with_queue_def world_db_def world_redis_def world_mail_def)

lemma id_1001: "intToString 1001 = ''1001''"
  by code_simp

lemma codec1001: "protojson_codec mar1001 unm1001"
  using raw1_member by (auto simp: protojson_codec_def mar1001_def unm1001_def task_request_def task1001_def id_1001)

definition journey_start :: "world \<times> keyspace" where
  "journey_start = (\<lparr>w_db = empty_tables\<lparr>tasks := [task1001]\<rparr>, w_redis = empty_tks, w_mail = []\<rparr>, empty_keyspace)"

definition journey_crawled :: "world \<times> keyspace" where
  "journey_crawled =
     fst (process_task direct_env (demo_attempt False) (Some queue_of_world)
       (\<lambda>r. if r = timeout_reply then Some ''r'' else None) (\<lambda>_ _. False) Delivered Delivered
       deadline False (task_request 0 task1001) fresh_service empty_tks
       (snd (PopTask (Some queue_of_world) unm1001 1 Delivered Delivered
          (snd (handleTaskByID queue_scheduler 0 1001 journey_start)))))"

end
