(* ===== verification/ResultListener.thy ===== *)
theory ResultListener
  imports ResultProcessing "HOL-Library.Multiset"
begin

text \<open>
  The loop that takes crawl results from the queue (\<^verbatim>\<open>StartResultListener\<close> in
  \<^verbatim>\<open>internal/api/scheduler/scheduler.go\<close>) and the goroutines that handle them. The semaphore has room for
  ten tokens; a token is taken before a result is popped and given back when the pop fails or the handler
  of the result ends. The loop, the handlers and the rest of the world take steps in any order; a handler
  is one step, which ends normally or in a panic that is recovered (the world it leaves is then an
  argument).

  The lemmas show that the tokens are counted right, that no popped result is lost or handled twice
  while the process runs, and that the handlers can always come to an end.
\<close>

section \<open>The loop and its handlers\<close>

datatype listener_pc = ListenAcquire | ListenPop | ListenReturned

text \<open>\<open>rl_popped\<close> and \<open>rl_handled\<close> are history variables.\<close>

record 'w result_listener =
  rl_pc :: listener_pc
  rl_sem :: nat
  rl_handlers :: "FetchResponse list"
  rl_world :: 'w
  rl_popped :: "FetchResponse list"
  rl_handled :: "FetchResponse list"

definition listener_capacity :: nat where
  "listener_capacity = 10"

text \<open>The start; without a queue client the loop is not entered.\<close>

definition StartResultListener :: "'w Scheduler \<Rightarrow> 'w \<Rightarrow> 'w result_listener option" where
  "StartResultListener s w =
     (if S_redisQueue s = None then None
      else Some \<lparr>rl_pc = ListenAcquire, rl_sem = 0, rl_handlers = [], rl_world = w, rl_popped = [], rl_handled = []\<rparr>)"

text \<open>
  The loop after a pop: the result goes to a goroutine; an error gives the token back, and ends the loop
  when it is the one of the ended context.
\<close>

definition listener_popped :: "'w Scheduler \<Rightarrow> (string \<Rightarrow> FetchResponse option) \<Rightarrow> 'w result_listener \<Rightarrow> 'w result_listener" where
  "listener_popped s unmr l =
     (case PopResult (S_redisQueue s) unmr (S_net s (rl_world l)) (rl_world l) of
        (Inr response, w) \<Rightarrow>
          l\<lparr>rl_pc := ListenAcquire, rl_handlers := rl_handlers l @ [response], rl_world := w,
            rl_popped := rl_popped l @ [response]\<rparr>
      | (Inl e, w) \<Rightarrow>
          l\<lparr>rl_pc := (if e \<noteq> ErrNoResult \<and> S_ctx_err s w then ListenReturned else ListenAcquire),
            rl_sem := rl_sem l - 1, rl_world := w\<rparr>)"

definition handler_done :: "nat \<Rightarrow> 'w \<Rightarrow> 'w result_listener \<Rightarrow> 'w result_listener" where
  "handler_done i w l =
     l\<lparr>rl_handlers := drop_nth i (rl_handlers l), rl_sem := rl_sem l - 1, rl_world := w,
       rl_handled := rl_handled l @ [rl_handlers l ! i]\<rparr>"

inductive listener_step ::
  "'w Scheduler \<Rightarrow> (string \<Rightarrow> FetchResponse option) \<Rightarrow> 'w result_listener \<Rightarrow> 'w result_listener \<Rightarrow> bool"
  for s unmr
where
  acquire: "rl_pc l = ListenAcquire \<Longrightarrow> rl_sem l < listener_capacity \<Longrightarrow>
     listener_step s unmr l (l\<lparr>rl_pc := ListenPop, rl_sem := rl_sem l + 1\<rparr>)"
| leave: "rl_pc l = ListenAcquire \<Longrightarrow> S_ctx_err s (rl_world l) \<Longrightarrow> listener_step s unmr l (l\<lparr>rl_pc := ListenReturned\<rparr>)"
| pop: "rl_pc l = ListenPop \<Longrightarrow> listener_step s unmr l (listener_popped s unmr l)"
| handle: "i < length (rl_handlers l) \<Longrightarrow>
     listener_step s unmr l (handler_done i (snd (handleResult s clk batchTime now (rl_handlers l ! i) (rl_world l))) l)"
| panic: "i < length (rl_handlers l) \<Longrightarrow> listener_step s unmr l (handler_done i w l)"
| other: "listener_step s unmr l (l\<lparr>rl_world := w\<rparr>)"

inductive_cases listener_stepE: "listener_step s unmr l l'"

section \<open>Tokens and results\<close>

definition listener_ok :: "'w result_listener \<Rightarrow> bool" where
  "listener_ok l \<longleftrightarrow>
     rl_sem l = length (rl_handlers l) + (if rl_pc l = ListenPop then 1 else 0) \<and> rl_sem l \<le> listener_capacity \<and>
     mset (rl_popped l) = mset (rl_handled l) + mset (rl_handlers l)"

lemma mset_drop_nth: "i < length xs \<Longrightarrow> mset xs = add_mset (xs ! i) (mset (drop_nth i xs))"
  by (simp add: drop_nth_def) (metis Cons_nth_drop_Suc append_take_drop_id mset.simps(2) mset_append union_mset_add_mset_right)

lemma handler_done_ok: "listener_ok l \<Longrightarrow> i < length (rl_handlers l) \<Longrightarrow> listener_ok (handler_done i w l)"
  using mset_drop_nth [of i "rl_handlers l"]
  by (auto simp: listener_ok_def handler_done_def length_drop_nth)

interpretation listener: invariant_system "\<lambda>l. \<exists>w. StartResultListener s w = Some l" "listener_step s unmr" listener_ok
  for s :: "'w Scheduler" and unmr
proof
  show "\<exists>w. StartResultListener s w = Some l \<Longrightarrow> listener_ok l" for l :: "'w result_listener"
    by (auto simp: StartResultListener_def listener_ok_def listener_capacity_def split: if_splits)
next
  fix l l' :: "'w result_listener"
  assume ok: "listener_ok l" and step: "listener_step s unmr l l'"
  from step show "listener_ok l'"
  proof cases
    case pop
    then show ?thesis using ok
      by (auto simp: listener_popped_def listener_ok_def split: prod.split sum.split)
  next
    case (handle i clk batchTime now)
    then show ?thesis using ok handler_done_ok by simp
  next
    case (panic i w)
    then show ?thesis using ok handler_done_ok by simp
  qed (use ok in \<open>auto simp: listener_ok_def listener_capacity_def\<close>)
qed

text \<open>The handlers that run can all end by handling their results, whatever the loop does.\<close>

lemma handlers_can_end:
  "\<exists>l'. (listener_step s unmr)\<^sup>*\<^sup>* l l' \<and> rl_handlers l' = [] \<and> rl_popped l' = rl_popped l"
proof (induction "length (rl_handlers l)" arbitrary: l)
  case (Suc n)
  let ?l = "handler_done 0 (snd (handleResult s (\<lambda>_. 0) 0 0 (rl_handlers l ! 0) (rl_world l))) l"
  have some: "0 < length (rl_handlers l)" using Suc.hyps(2) by linarith
  then have step: "listener_step s unmr l ?l" by (rule listener_step.handle)
  have "n = length (rl_handlers ?l)" using Suc.hyps(2) some by (simp add: handler_done_def length_drop_nth)
  then obtain l' where "(listener_step s unmr)\<^sup>*\<^sup>* ?l l'" "rl_handlers l' = []" "rl_popped l' = rl_popped ?l"
    using Suc.hyps(1) by blast
  moreover have "rl_popped ?l = rl_popped l" by (simp add: handler_done_def)
  ultimately show ?case using step by (metis converse_rtranclp_into_rtranclp)
qed auto

text \<open>Taken alone, a turn of the loop and its handler are what \<open>listener_turn\<close> does.\<close>

lemma turn_is_steps:
  assumes "rl_pc l = ListenAcquire" and "rl_handlers l = []" and "rl_sem l = 0" and "\<not> S_ctx_err s (rl_world l)"
  shows "\<exists>l'. (listener_step s unmr)\<^sup>*\<^sup>* l l' \<and> rl_world l' = snd (listener_turn s unmr clk batchTime now (rl_world l)) \<and>
    rl_handlers l' = []"
proof -
  let ?l1 = "l\<lparr>rl_pc := ListenPop, rl_sem := rl_sem l + 1\<rparr>"
  let ?l2 = "listener_popped s unmr ?l1"
  have 1: "listener_step s unmr l ?l1" using assms by (intro listener_step.acquire) (simp_all add: listener_capacity_def)
  have 2: "listener_step s unmr ?l1 ?l2" by (rule listener_step.pop) simp
  show ?thesis
  proof (cases "PopResult (S_redisQueue s) unmr (S_net s (rl_world l)) (rl_world l)")
    case (Pair r w)
    show ?thesis
    proof (cases r)
      case (Inl e)
      have "rl_world ?l2 = snd (listener_turn s unmr clk batchTime now (rl_world l))" "rl_handlers ?l2 = []"
        using assms by (simp_all add: listener_popped_def listener_turn_def Pair Inl)
      with 1 2 show ?thesis by (meson converse_rtranclp_into_rtranclp r_into_rtranclp)
    next
      case (Inr response)
      let ?l3 = "handler_done 0 (snd (handleResult s clk batchTime now (rl_handlers ?l2 ! 0) (rl_world ?l2))) ?l2"
      have 3: "listener_step s unmr ?l2 ?l3"
        using assms by (intro listener_step.handle) (simp add: listener_popped_def Pair Inr)
      have "rl_world ?l3 = snd (listener_turn s unmr clk batchTime now (rl_world l))" "rl_handlers ?l3 = []"
        using assms by (simp_all add: listener_popped_def listener_turn_def handler_done_def drop_nth_def Pair Inr)
      with 1 2 3 show ?thesis by (meson converse_rtranclp_into_rtranclp r_into_rtranclp)
    qed
  qed
qed

section \<open>Properties\<close>

text \<open>
  C11. While the process runs, the listener loses no result and handles none twice, and never handles more
  than ten at once: in every reachable state the popped results are exactly those handled and those being
  handled, the tokens are those of the running handlers and of a pop in progress, and the running handlers
  can all come to their end.
\<close>

theorem every_popped_result_is_handled_once:
  assumes "StartResultListener s w = Some l0" and "(listener_step s unmr)\<^sup>*\<^sup>* l0 l"
  shows "mset (rl_popped l) = mset (rl_handled l) + mset (rl_handlers l) \<and>
    length (rl_handlers l) \<le> 10 \<and> rl_sem l = length (rl_handlers l) + (if rl_pc l = ListenPop then 1 else 0) \<and>
    (\<exists>l'. (listener_step s unmr)\<^sup>*\<^sup>* l l' \<and> mset (rl_handled l') = mset (rl_popped l))"
proof -
  have ok: "listener_ok l" using listener.reachable_invar [of s l0 unmr l] assms by blast
  obtain l' where l': "(listener_step s unmr)\<^sup>*\<^sup>* l l'" "rl_handlers l' = []" "rl_popped l' = rl_popped l"
    using handlers_can_end by blast
  have "listener_ok l'" using listener.steps_invar [OF l'(1) ok] .
  then show ?thesis using ok l' by (auto simp: listener_ok_def listener_capacity_def intro: exI [of _ l'])
qed

text \<open>A listener without a network: the pop fails and gives its token back.\<close>

definition offline_scheduler :: "world Scheduler" where
  "offline_scheduler = plain_scheduler\<lparr>S_redisQueue := Some (\<lambda>w c. (RError ''down'', w))\<rparr>"

theorem every_popped_result_is_handled_once_witness:
  "\<exists>l0 l. StartResultListener offline_scheduler two_tasks = Some l0 \<and>
     (listener_step offline_scheduler (\<lambda>_. None))\<^sup>*\<^sup>* l0 l \<and> rl_pc l = ListenPop \<and> rl_sem l = 1"
proof -
  obtain l0 where l0: "StartResultListener offline_scheduler two_tasks = Some l0"
    by (simp add: StartResultListener_def offline_scheduler_def)
  then have "listener_step offline_scheduler (\<lambda>_. None) l0 (l0\<lparr>rl_pc := ListenPop, rl_sem := rl_sem l0 + 1\<rparr>)"
    by (intro listener_step.acquire)
      (auto simp: StartResultListener_def listener_capacity_def split: if_splits)
  then have run: "(listener_step offline_scheduler (\<lambda>_. None))\<^sup>*\<^sup>* l0 (l0\<lparr>rl_pc := ListenPop, rl_sem := rl_sem l0 + 1\<rparr>)" by simp
  have "rl_handlers l0 = []" using l0 by (auto simp: StartResultListener_def split: if_splits)
  then show ?thesis using every_popped_result_is_handled_once [OF l0 run] l0 run by auto
qed

end
