(* ===== verification/Metrics.thy ===== *)
theory Metrics
  imports Complex_Main GoStd
begin

text \<open>
  The metrics of \<^verbatim>\<open>internal/pkg/metrics/metrics.go\<close>: what the program declares when it starts, and what a
  call on a metric is. The client library is an argument: registering a metric and updating one may panic
  (\<open>None\<close>), and the interface \<open>prometheus\<close> holds its documented behaviour. A sample is the value of a
  counter or a gauge, and the number of observations of a histogram.

  The lemmas show that all declarations can be registered together, and that a list of well-formed calls
  never panics and leaves the samples that counting the calls gives.
\<close>

section \<open>Declarations\<close>

datatype metric =
    NewGauge string string
  | NewGaugeVec string string "string list"
  | NewCounter string string
  | NewCounterVec string string "string list"
  | NewHistogram string string "real list"
  | NewHistogramVec string string "real list" "string list"

text \<open>\<open>exponentialBuckets\<close> stands for \<^verbatim>\<open>prometheus.ExponentialBuckets\<close>.\<close>

definition CrawlerQueueDepth :: metric where
  "CrawlerQueueDepth =
     NewGaugeVec ''crawler_queue_depth'' ''Current Redis List queue depth'' [''queue_name'']"

definition CrawlerTaskThroughput :: metric where
  "CrawlerTaskThroughput =
     NewCounterVec ''crawler_task_throughput'' ''Crawler task throughput for Redis List''
       [''direction'', ''status'']"

definition WorkerPoolActive :: metric where
  "WorkerPoolActive =
     NewGauge ''goodshunter_worker_pool_active'' ''Number of currently active workers''"

definition WorkerPoolPending :: metric where
  "WorkerPoolPending =
     NewGauge ''goodshunter_worker_pool_pending'' ''Number of pending tasks in worker pool queue''"

definition WorkerPoolCapacity :: metric where
  "WorkerPoolCapacity =
     NewGauge ''goodshunter_worker_pool_capacity'' ''Total capacity of worker pool''"

definition WorkerPoolUtilization :: metric where
  "WorkerPoolUtilization =
     NewGauge ''goodshunter_worker_pool_utilization'' ''Worker pool utilization percentage (0-100)''"

definition TasksProcessedTotal :: metric where
  "TasksProcessedTotal =
     NewCounterVec ''goodshunter_tasks_processed_total'' ''Total number of processed tasks'' [''status'']"

definition TaskProcessingDuration :: metric where
  "TaskProcessingDuration =
     NewHistogramVec ''goodshunter_task_processing_duration_seconds'' ''Task processing duration in seconds''
       [0.1, 0.5, 1, 2, 5, 10, 30, 60, 120, 300] [''action'']"

definition TaskQueueWaitTime :: metric where
  "TaskQueueWaitTime =
     NewHistogram ''goodshunter_task_queue_wait_time_seconds'' ''Time tasks spend waiting in queue before processing''
       [0.01, 0.05, 0.1, 0.5, 1, 2, 5, 10, 30]"

definition ActiveTasks :: metric where
  "ActiveTasks =
     NewGauge ''goodshunter_active_tasks'' ''Number of tasks currently being processed''"

definition RateLimitWaitDuration :: metric where
  "RateLimitWaitDuration =
     NewHistogram ''goodshunter_ratelimit_wait_duration_seconds'' ''Time spent waiting for rate limiter tokens''
       [0.01, 0.05, 0.1, 0.25, 0.5, 1, 2, 5, 10, 30]"

definition RateLimitTimeoutTotal :: metric where
  "RateLimitTimeoutTotal =
     NewCounter ''goodshunter_ratelimit_timeout_total'' ''Total number of rate limit wait timeouts''"

definition TaskRetryTotal :: metric where
  "TaskRetryTotal =
     NewCounterVec ''goodshunter_task_retry_total'' ''Total number of task retries'' [''reason'']"

definition TaskDLQTotal :: metric where
  "TaskDLQTotal =
     NewCounter ''goodshunter_task_dlq_total'' ''Total number of tasks moved to dead-letter queue''"

definition TaskAutoClaimTotal :: metric where
  "TaskAutoClaimTotal =
     NewCounter ''goodshunter_task_autoclaim_total'' ''Total number of pending messages auto-claimed''"

definition TaskDuplicatePreventedTotal :: metric where
  "TaskDuplicatePreventedTotal =
     NewCounter ''goodshunter_task_duplicate_prevented_total''
       ''Total number of tasks prevented by ingress deduplication''"

definition HTTPRequestsTotal :: metric where
  "HTTPRequestsTotal =
     NewCounterVec ''goodshunter_http_requests_total'' ''Total number of HTTP requests''
       [''method'', ''path'', ''status'']"

definition HTTPRequestDuration :: metric where
  "HTTPRequestDuration =
     NewHistogramVec ''goodshunter_http_request_duration_seconds'' ''HTTP request latencies in seconds''
       [0.001, 0.005, 0.01, 0.05, 0.1, 0.5, 1, 2, 5] [''method'', ''path'']"

definition HTTPRequestSize :: "(real \<Rightarrow> real \<Rightarrow> nat \<Rightarrow> real list) \<Rightarrow> metric" where
  "HTTPRequestSize exponentialBuckets =
     NewHistogramVec ''goodshunter_http_request_size_bytes'' ''HTTP request size in bytes''
       (exponentialBuckets 100 10 6) [''method'', ''path'']"

definition HTTPResponseSize :: "(real \<Rightarrow> real \<Rightarrow> nat \<Rightarrow> real list) \<Rightarrow> metric" where
  "HTTPResponseSize exponentialBuckets =
     NewHistogramVec ''goodshunter_http_response_size_bytes'' ''HTTP response size in bytes''
       (exponentialBuckets 100 10 6) [''method'', ''path'']"

definition CrawlerRequestsTotal :: metric where
  "CrawlerRequestsTotal =
     NewCounterVec ''goodshunter_crawler_requests_total'' ''Total number of crawler requests''
       [''platform'', ''status'']"

definition CrawlerRequestDuration :: metric where
  "CrawlerRequestDuration =
     NewHistogramVec ''goodshunter_crawler_request_duration_seconds'' ''Crawler request duration in seconds''
       [0.5, 1, 2, 5, 10, 20, 30, 60] [''platform'']"

definition CrawlerErrorsTotal :: metric where
  "CrawlerErrorsTotal =
     NewCounterVec ''goodshunter_crawler_errors_total'' ''Total number of crawler errors''
       [''platform'', ''error_type'']"

definition CrawlerBrowserActive :: metric where
  "CrawlerBrowserActive =
     NewGauge ''goodshunter_crawler_browser_active'' ''Number of active crawler browser pages''"

definition CrawlerBrowserInstances :: metric where
  "CrawlerBrowserInstances =
     NewGauge ''goodshunter_crawler_browser_instances'' ''Number of active crawler browser instances''"

definition CrawlerProxyMode :: metric where
  "CrawlerProxyMode =
     NewGauge ''goodshunter_crawler_proxy_mode'' ''Crawler proxy mode (0=direct, 1=proxy)''"

definition CrawlerProxySwitchTotal :: metric where
  "CrawlerProxySwitchTotal =
     NewCounterVec ''goodshunter_crawler_proxy_switch_total'' ''Total number of crawler proxy mode switches''
       [''mode'']"

definition CrawlerRequestsByModeTotal :: metric where
  "CrawlerRequestsByModeTotal =
     NewCounterVec ''goodshunter_crawler_requests_by_mode_total'' ''Total number of crawler requests processed by mode''
       [''platform'', ''status'', ''mode'']"

definition CrawlerRequestDurationByMode :: metric where
  "CrawlerRequestDurationByMode =
     NewHistogramVec ''goodshunter_crawler_request_duration_seconds_by_mode'' ''Crawler request duration in seconds by mode''
       [0.5, 1, 2, 5, 10, 20, 30, 60] [''platform'', ''mode'']"

definition CrawlerProxySwitchToProxyTotal :: metric where
  "CrawlerProxySwitchToProxyTotal =
     NewCounter ''goodshunter_crawler_proxy_switch_to_proxy_total''
       ''Total number of crawler switches to proxy mode''"

definition CrawlerTasksProcessedCurrent :: metric where
  "CrawlerTasksProcessedCurrent =
     NewGauge ''goodshunter_crawler_tasks_processed_current''
       ''Current number of tasks processed in this crawler lifecycle''"

definition DBConnectionsActive :: metric where
  "DBConnectionsActive =
     NewGauge ''goodshunter_db_connections_active'' ''Number of active database connections''"

definition DBConnectionsIdle :: metric where
  "DBConnectionsIdle =
     NewGauge ''goodshunter_db_connections_idle'' ''Number of idle database connections''"

definition DBQueryDuration :: metric where
  "DBQueryDuration =
     NewHistogramVec ''goodshunter_db_query_duration_seconds'' ''Database query duration in seconds''
       [0.001, 0.005, 0.01, 0.05, 0.1, 0.5, 1, 2] [''table'', ''operation'']"

definition SchedulerMode :: metric where
  "SchedulerMode =
     NewGauge ''goodshunter_scheduler_mode'' ''Scheduler mode (0=db_polling, 1=redis_list)''"

definition ServiceUptime :: metric where
  "ServiceUptime =
     NewGauge ''goodshunter_service_uptime_seconds'' ''Service uptime in seconds since startup''"

definition SchedulerTasksPushedTotal :: metric where
  "SchedulerTasksPushedTotal =
     NewCounter ''goodshunter_scheduler_tasks_pushed_total''
       ''Total number of tasks pushed to queue by scheduler''"

definition SchedulerTasksSkippedTotal :: metric where
  "SchedulerTasksSkippedTotal =
     NewCounter ''goodshunter_scheduler_tasks_skipped_total''
       ''Total number of tasks skipped by scheduler (already in queue)''"

definition SchedulerTasksPendingInQueue :: metric where
  "SchedulerTasksPendingInQueue =
     NewGauge ''goodshunter_scheduler_tasks_pending_in_queue''
       ''Number of unique tasks currently pending in queue''"

text \<open>The package's variables are initialised in the order of the file.\<close>

definition declared_metrics :: "(real \<Rightarrow> real \<Rightarrow> nat \<Rightarrow> real list) \<Rightarrow> metric list" where
  "declared_metrics exponentialBuckets =
     [CrawlerQueueDepth, CrawlerTaskThroughput, WorkerPoolActive, WorkerPoolPending,
      WorkerPoolCapacity, WorkerPoolUtilization, TasksProcessedTotal, TaskProcessingDuration,
      TaskQueueWaitTime, ActiveTasks, RateLimitWaitDuration, RateLimitTimeoutTotal, TaskRetryTotal,
      TaskDLQTotal, TaskAutoClaimTotal, TaskDuplicatePreventedTotal, HTTPRequestsTotal,
      HTTPRequestDuration, HTTPRequestSize exponentialBuckets, HTTPResponseSize exponentialBuckets,
      CrawlerRequestsTotal, CrawlerRequestDuration, CrawlerErrorsTotal, CrawlerBrowserActive,
      CrawlerBrowserInstances, CrawlerProxyMode, CrawlerProxySwitchTotal,
      CrawlerRequestsByModeTotal, CrawlerRequestDurationByMode, CrawlerProxySwitchToProxyTotal,
      CrawlerTasksProcessedCurrent, DBConnectionsActive, DBConnectionsIdle, DBQueryDuration,
      SchedulerMode, ServiceUptime, SchedulerTasksPushedTotal, SchedulerTasksSkippedTotal,
      SchedulerTasksPendingInQueue]"

named_theorems metric_simps

section \<open>Well-formed declarations and calls\<close>

fun metric_name :: "metric \<Rightarrow> string" where
  "metric_name (NewGauge name help) = name"
| "metric_name (NewGaugeVec name help labels) = name"
| "metric_name (NewCounter name help) = name"
| "metric_name (NewCounterVec name help labels) = name"
| "metric_name (NewHistogram name help buckets) = name"
| "metric_name (NewHistogramVec name help buckets labels) = name"

fun metric_labels :: "metric \<Rightarrow> string list" where
  "metric_labels (NewGaugeVec name help labels) = labels"
| "metric_labels (NewCounterVec name help labels) = labels"
| "metric_labels (NewHistogramVec name help buckets labels) = labels"
| "metric_labels m = []"

fun metric_buckets :: "metric \<Rightarrow> real list" where
  "metric_buckets (NewHistogram name help buckets) = buckets"
| "metric_buckets (NewHistogramVec name help buckets labels) = buckets"
| "metric_buckets m = []"

text \<open>The documented names: letters, digits and underscores (and colons in a metric), no digit first.\<close>

definition name_char :: "char \<Rightarrow> bool" where
  "name_char c \<longleftrightarrow> c = CHR ''_'' \<or> c \<in> set ''abcdefghijklmnopqrstuvwxyzABCDEFGHIJKLMNOPQRSTUVWXYZ''"

definition valid_label :: "string \<Rightarrow> bool" where
  "valid_label s \<longleftrightarrow> s \<noteq> [] \<and> name_char (hd s) \<and> list_all (\<lambda>c. name_char c \<or> is_digit c) s \<and> take 2 s \<noteq> ''__''"

definition valid_name :: "string \<Rightarrow> bool" where
  "valid_name s \<longleftrightarrow> s \<noteq> [] \<and> (name_char (hd s) \<or> hd s = CHR '':'') \<and>
     list_all (\<lambda>c. name_char c \<or> is_digit c \<or> c = CHR '':'') s"

text \<open>A histogram needs increasing buckets, and the label \<^verbatim>\<open>le\<close> for itself.\<close>

definition valid_metric :: "metric \<Rightarrow> bool" where
  "valid_metric m \<longleftrightarrow>
     valid_name (metric_name m) \<and> list_all valid_label (metric_labels m) \<and> distinct (metric_labels m) \<and>
     sorted_wrt (<) (metric_buckets m) \<and> ''le'' \<notin> set (metric_labels m)"

definition exponential_buckets :: "(real \<Rightarrow> real \<Rightarrow> nat \<Rightarrow> real list) \<Rightarrow> bool" where
  "exponential_buckets eb \<longleftrightarrow>
     (\<forall>start factor count. 0 < start \<longrightarrow> 1 < factor \<longrightarrow> 0 < count \<longrightarrow>
        eb start factor count = map (\<lambda>i. start * factor ^ i) [0..<count])"

text \<open>All declarations are well formed, and no two share a name.\<close>

lemma declared_names: "map metric_name (declared_metrics eb) = map metric_name (declared_metrics (\<lambda>_ _ _. []))"
  by (simp add: declared_metrics_def HTTPRequestSize_def HTTPResponseSize_def)

lemma declared_labels: "map metric_labels (declared_metrics eb) = map metric_labels (declared_metrics (\<lambda>_ _ _. []))"
  by (simp add: declared_metrics_def HTTPRequestSize_def HTTPResponseSize_def)

lemma declared_names_distinct: "distinct (map metric_name (declared_metrics eb))"
proof -
  have "distinct (map metric_name (declared_metrics (\<lambda>_ _ _. [])))" by code_simp
  then show ?thesis by (simp only: declared_names [of eb])
qed

lemma declared_names_valid: "list_all valid_name (map metric_name (declared_metrics eb))"
proof -
  have "list_all valid_name (map metric_name (declared_metrics (\<lambda>_ _ _. [])))" by code_simp
  then show ?thesis by (simp only: declared_names [of eb])
qed

lemma declared_labels_valid:
  "list_all (\<lambda>ls. list_all valid_label ls \<and> distinct ls \<and> ''le'' \<notin> set ls) (map metric_labels (declared_metrics eb))"
proof -
  have "list_all (\<lambda>ls. list_all valid_label ls \<and> distinct ls \<and> ''le'' \<notin> set ls)
      (map metric_labels (declared_metrics (\<lambda>_ _ _. [])))" by code_simp
  then show ?thesis by (simp only: declared_labels [of eb])
qed

lemmas metric_defs =
  CrawlerQueueDepth_def CrawlerTaskThroughput_def WorkerPoolActive_def WorkerPoolPending_def WorkerPoolCapacity_def
  WorkerPoolUtilization_def TasksProcessedTotal_def TaskProcessingDuration_def TaskQueueWaitTime_def ActiveTasks_def
  RateLimitWaitDuration_def RateLimitTimeoutTotal_def TaskRetryTotal_def TaskDLQTotal_def TaskAutoClaimTotal_def
  TaskDuplicatePreventedTotal_def HTTPRequestsTotal_def HTTPRequestDuration_def HTTPRequestSize_def
  HTTPResponseSize_def CrawlerRequestsTotal_def CrawlerRequestDuration_def CrawlerErrorsTotal_def
  CrawlerBrowserActive_def CrawlerBrowserInstances_def CrawlerProxyMode_def CrawlerProxySwitchTotal_def
  CrawlerRequestsByModeTotal_def CrawlerRequestDurationByMode_def CrawlerProxySwitchToProxyTotal_def
  CrawlerTasksProcessedCurrent_def DBConnectionsActive_def DBConnectionsIdle_def DBQueryDuration_def
  SchedulerMode_def ServiceUptime_def SchedulerTasksPushedTotal_def SchedulerTasksSkippedTotal_def
  SchedulerTasksPendingInQueue_def

lemma declared_buckets_increase:
  assumes "exponential_buckets eb"
  shows "list_all (sorted_wrt (<)) (map metric_buckets (declared_metrics eb))"
proof -
  have "eb 100 10 6 = map (\<lambda>i. 100 * 10 ^ i) [0..<6]" using assms by (simp add: exponential_buckets_def)
  then have "sorted_wrt (<) (eb 100 10 6)" by (simp add: sorted_wrt_map sorted_wrt_upt sorted_wrt_mono_rel [of _ "(<)"])
  then show ?thesis by (simp add: declared_metrics_def metric_defs)
qed

lemma declared_valid: "exponential_buckets eb \<Longrightarrow> m \<in> set (declared_metrics eb) \<Longrightarrow> valid_metric m"
  using declared_names_valid [of eb] declared_labels_valid [of eb] declared_buckets_increase [of eb]
  by (simp add: valid_metric_def list_all_iff)

section \<open>Calls\<close>

text \<open>
  A call names the metric, the label values (none for a metric without labels) and the operation. The
  number of label values is checked when the program runs; the kind of metric by the compiler.
\<close>

datatype metric_op = Inc | Dec | Set_to real | Observe real
type_synonym metric_call = "metric \<times> string list \<times> metric_op"

fun op_of_kind :: "metric \<Rightarrow> metric_op \<Rightarrow> bool" where
  "op_of_kind (NewCounter name help) op = (op = Inc)"
| "op_of_kind (NewCounterVec name help labels) op = (op = Inc)"
| "op_of_kind (NewHistogram name help buckets) op = (\<exists>v. op = Observe v)"
| "op_of_kind (NewHistogramVec name help buckets labels) op = (\<exists>v. op = Observe v)"
| "op_of_kind m op = (op = Inc \<or> op = Dec \<or> (\<exists>v. op = Set_to v))"

fun valid_call :: "metric_call \<Rightarrow> bool" where
  "valid_call (m, vs, op) \<longleftrightarrow> length vs = length (metric_labels m) \<and> op_of_kind m op"

fun apply_op :: "metric_op \<Rightarrow> real \<Rightarrow> real" where
  "apply_op Inc x = x + 1"
| "apply_op Dec x = x - 1"
| "apply_op (Set_to v) x = v"
| "apply_op (Observe v) x = x + 1"

text \<open>The sample of one series after some calls.\<close>

definition apply_call :: "string \<Rightarrow> string list \<Rightarrow> metric_call \<Rightarrow> real \<Rightarrow> real" where
  "apply_call name vs c x = (case c of (m, ws, op) \<Rightarrow> if metric_name m = name \<and> ws = vs then apply_op op x else x)"

definition sample_after :: "metric_call list \<Rightarrow> string \<Rightarrow> string list \<Rightarrow> real \<Rightarrow> real" where
  "sample_after calls name vs x = fold (apply_call name vs) calls x"

lemma sample_after_simps [simp]:
  "sample_after [] name vs x = x"
  "sample_after (c # calls) name vs x = sample_after calls name vs (apply_call name vs c x)"
  "sample_after (calls @ calls') name vs x = sample_after calls' name vs (sample_after calls name vs x)"
  by (simp_all add: sample_after_def)

definition InitMetrics :: "int \<Rightarrow> metric_call list" where
  "InitMetrics workerCapacity = [(SchedulerMode, [], Set_to 1), (WorkerPoolCapacity, [], Set_to (real_of_int workerCapacity))]"

section \<open>The client library\<close>

fun register_all :: "(metric \<Rightarrow> 'r \<Rightarrow> 'r option) \<Rightarrow> metric list \<Rightarrow> 'r \<Rightarrow> 'r option" where
  "register_all new_metric [] r = Some r"
| "register_all new_metric (m # ms) r =
     (case new_metric m r of None \<Rightarrow> None | Some r' \<Rightarrow> register_all new_metric ms r')"

fun update_all :: "(metric_call \<Rightarrow> 'r \<Rightarrow> 'r option) \<Rightarrow> metric_call list \<Rightarrow> 'r \<Rightarrow> 'r option" where
  "update_all update [] r = Some r"
| "update_all update (c # calls) r =
     (case update c r of None \<Rightarrow> None | Some r' \<Rightarrow> update_all update calls r')"

locale prometheus =
  fixes new_metric :: "metric \<Rightarrow> 'r \<Rightarrow> 'r option" and update :: "metric_call \<Rightarrow> 'r \<Rightarrow> 'r option"
    and registered :: "'r \<Rightarrow> metric set" and sample :: "'r \<Rightarrow> string \<Rightarrow> string list \<Rightarrow> real"
  assumes registration: "valid_metric m \<Longrightarrow> metric_name m \<notin> metric_name ` registered r \<Longrightarrow>
      \<exists>r'. new_metric m r = Some r' \<and> registered r' = insert m (registered r) \<and>
           sample r' = (sample r)(metric_name m := (\<lambda>_. 0))"
    and updating: "m \<in> registered r \<Longrightarrow> valid_call (m, vs, op) \<Longrightarrow>
      \<exists>r'. update (m, vs, op) r = Some r' \<and> registered r' = registered r \<and>
           (\<forall>name ws. sample r' name ws = apply_call name ws (m, vs, op) (sample r name ws))"
begin

lemma register_all_succeeds:
  "list_all valid_metric ms \<Longrightarrow> distinct (map metric_name ms) \<Longrightarrow>
   metric_name ` registered r \<inter> metric_name ` set ms = {} \<Longrightarrow>
   \<exists>r'. register_all new_metric ms r = Some r' \<and> registered r' = registered r \<union> set ms \<and>
        (\<forall>name. sample r' name = (if name \<in> metric_name ` set ms then (\<lambda>_. 0) else sample r name))"
proof (induction ms arbitrary: r)
  case (Cons m ms)
  then obtain r1 where r1: "new_metric m r = Some r1" "registered r1 = insert m (registered r)"
      "sample r1 = (sample r)(metric_name m := (\<lambda>_. 0))"
    using registration [of m r] by auto
  have "metric_name ` registered r1 \<inter> metric_name ` set ms = {}" using Cons.prems(2,3) r1(2) by auto
  then show ?case using Cons.IH [of r1] Cons.prems(1,2) r1 by auto
qed simp

lemma update_all_succeeds:
  "list_all valid_call calls \<Longrightarrow> fst ` set calls \<subseteq> registered r \<Longrightarrow>
   \<exists>r'. update_all update calls r = Some r' \<and> registered r' = registered r \<and>
        (\<forall>name vs. sample r' name vs = sample_after calls name vs (sample r name vs))"
proof (induction calls arbitrary: r)
  case (Cons c calls)
  obtain m vs op where c: "c = (m, vs, op)" by (cases c)
  then obtain r1 where "update c r = Some r1" "registered r1 = registered r"
      "\<forall>name ws. sample r1 name ws = apply_call name ws c (sample r name ws)"
    using updating [of m r vs op] Cons.prems by auto
  then show ?case using Cons.IH [of r1] Cons.prems by auto
qed simp

end

text \<open>The parts of every declaration, so that proofs need not unfold it.\<close>

lemma metric_names [metric_simps]:
  "metric_name CrawlerQueueDepth = ''crawler_queue_depth''"
  "metric_name CrawlerTaskThroughput = ''crawler_task_throughput''"
  "metric_name WorkerPoolActive = ''goodshunter_worker_pool_active''"
  "metric_name WorkerPoolPending = ''goodshunter_worker_pool_pending''"
  "metric_name WorkerPoolCapacity = ''goodshunter_worker_pool_capacity''"
  "metric_name WorkerPoolUtilization = ''goodshunter_worker_pool_utilization''"
  "metric_name TasksProcessedTotal = ''goodshunter_tasks_processed_total''"
  "metric_name TaskProcessingDuration = ''goodshunter_task_processing_duration_seconds''"
  "metric_name TaskQueueWaitTime = ''goodshunter_task_queue_wait_time_seconds''"
  "metric_name ActiveTasks = ''goodshunter_active_tasks''"
  "metric_name RateLimitWaitDuration = ''goodshunter_ratelimit_wait_duration_seconds''"
  "metric_name RateLimitTimeoutTotal = ''goodshunter_ratelimit_timeout_total''"
  "metric_name TaskRetryTotal = ''goodshunter_task_retry_total''"
  "metric_name TaskDLQTotal = ''goodshunter_task_dlq_total''"
  "metric_name TaskAutoClaimTotal = ''goodshunter_task_autoclaim_total''"
  "metric_name TaskDuplicatePreventedTotal = ''goodshunter_task_duplicate_prevented_total''"
  "metric_name HTTPRequestsTotal = ''goodshunter_http_requests_total''"
  "metric_name HTTPRequestDuration = ''goodshunter_http_request_duration_seconds''"
  "metric_name CrawlerRequestsTotal = ''goodshunter_crawler_requests_total''"
  "metric_name CrawlerRequestDuration = ''goodshunter_crawler_request_duration_seconds''"
  "metric_name CrawlerErrorsTotal = ''goodshunter_crawler_errors_total''"
  "metric_name CrawlerBrowserActive = ''goodshunter_crawler_browser_active''"
  "metric_name CrawlerBrowserInstances = ''goodshunter_crawler_browser_instances''"
  "metric_name CrawlerProxyMode = ''goodshunter_crawler_proxy_mode''"
  "metric_name CrawlerProxySwitchTotal = ''goodshunter_crawler_proxy_switch_total''"
  "metric_name CrawlerRequestsByModeTotal = ''goodshunter_crawler_requests_by_mode_total''"
  "metric_name CrawlerRequestDurationByMode = ''goodshunter_crawler_request_duration_seconds_by_mode''"
  "metric_name CrawlerProxySwitchToProxyTotal = ''goodshunter_crawler_proxy_switch_to_proxy_total''"
  "metric_name CrawlerTasksProcessedCurrent = ''goodshunter_crawler_tasks_processed_current''"
  "metric_name DBConnectionsActive = ''goodshunter_db_connections_active''"
  "metric_name DBConnectionsIdle = ''goodshunter_db_connections_idle''"
  "metric_name DBQueryDuration = ''goodshunter_db_query_duration_seconds''"
  "metric_name SchedulerMode = ''goodshunter_scheduler_mode''"
  "metric_name ServiceUptime = ''goodshunter_service_uptime_seconds''"
  "metric_name SchedulerTasksPushedTotal = ''goodshunter_scheduler_tasks_pushed_total''"
  "metric_name SchedulerTasksSkippedTotal = ''goodshunter_scheduler_tasks_skipped_total''"
  "metric_name SchedulerTasksPendingInQueue = ''goodshunter_scheduler_tasks_pending_in_queue''"
  by (simp_all add: metric_defs)

lemma metric_label_names [metric_simps]:
  "metric_labels CrawlerQueueDepth = [''queue_name'']"
  "metric_labels CrawlerTaskThroughput = [''direction'', ''status'']"
  "metric_labels WorkerPoolActive = []"
  "metric_labels WorkerPoolPending = []"
  "metric_labels WorkerPoolCapacity = []"
  "metric_labels WorkerPoolUtilization = []"
  "metric_labels TasksProcessedTotal = [''status'']"
  "metric_labels TaskProcessingDuration = [''action'']"
  "metric_labels TaskQueueWaitTime = []"
  "metric_labels ActiveTasks = []"
  "metric_labels RateLimitWaitDuration = []"
  "metric_labels RateLimitTimeoutTotal = []"
  "metric_labels TaskRetryTotal = [''reason'']"
  "metric_labels TaskDLQTotal = []"
  "metric_labels TaskAutoClaimTotal = []"
  "metric_labels TaskDuplicatePreventedTotal = []"
  "metric_labels HTTPRequestsTotal = [''method'', ''path'', ''status'']"
  "metric_labels HTTPRequestDuration = [''method'', ''path'']"
  "metric_labels CrawlerRequestsTotal = [''platform'', ''status'']"
  "metric_labels CrawlerRequestDuration = [''platform'']"
  "metric_labels CrawlerErrorsTotal = [''platform'', ''error_type'']"
  "metric_labels CrawlerBrowserActive = []"
  "metric_labels CrawlerBrowserInstances = []"
  "metric_labels CrawlerProxyMode = []"
  "metric_labels CrawlerProxySwitchTotal = [''mode'']"
  "metric_labels CrawlerRequestsByModeTotal = [''platform'', ''status'', ''mode'']"
  "metric_labels CrawlerRequestDurationByMode = [''platform'', ''mode'']"
  "metric_labels CrawlerProxySwitchToProxyTotal = []"
  "metric_labels CrawlerTasksProcessedCurrent = []"
  "metric_labels DBConnectionsActive = []"
  "metric_labels DBConnectionsIdle = []"
  "metric_labels DBQueryDuration = [''table'', ''operation'']"
  "metric_labels SchedulerMode = []"
  "metric_labels ServiceUptime = []"
  "metric_labels SchedulerTasksPushedTotal = []"
  "metric_labels SchedulerTasksSkippedTotal = []"
  "metric_labels SchedulerTasksPendingInQueue = []"
  by (simp_all add: metric_defs)

lemma metric_ops [metric_simps]:
  "op_of_kind CrawlerQueueDepth op \<longleftrightarrow> op = Inc \<or> op = Dec \<or> (\<exists>v. op = Set_to v)"
  "op_of_kind CrawlerTaskThroughput op \<longleftrightarrow> op = Inc"
  "op_of_kind WorkerPoolActive op \<longleftrightarrow> op = Inc \<or> op = Dec \<or> (\<exists>v. op = Set_to v)"
  "op_of_kind WorkerPoolPending op \<longleftrightarrow> op = Inc \<or> op = Dec \<or> (\<exists>v. op = Set_to v)"
  "op_of_kind WorkerPoolCapacity op \<longleftrightarrow> op = Inc \<or> op = Dec \<or> (\<exists>v. op = Set_to v)"
  "op_of_kind WorkerPoolUtilization op \<longleftrightarrow> op = Inc \<or> op = Dec \<or> (\<exists>v. op = Set_to v)"
  "op_of_kind TasksProcessedTotal op \<longleftrightarrow> op = Inc"
  "op_of_kind TaskProcessingDuration op \<longleftrightarrow> (\<exists>v. op = Observe v)"
  "op_of_kind TaskQueueWaitTime op \<longleftrightarrow> (\<exists>v. op = Observe v)"
  "op_of_kind ActiveTasks op \<longleftrightarrow> op = Inc \<or> op = Dec \<or> (\<exists>v. op = Set_to v)"
  "op_of_kind RateLimitWaitDuration op \<longleftrightarrow> (\<exists>v. op = Observe v)"
  "op_of_kind RateLimitTimeoutTotal op \<longleftrightarrow> op = Inc"
  "op_of_kind TaskRetryTotal op \<longleftrightarrow> op = Inc"
  "op_of_kind TaskDLQTotal op \<longleftrightarrow> op = Inc"
  "op_of_kind TaskAutoClaimTotal op \<longleftrightarrow> op = Inc"
  "op_of_kind TaskDuplicatePreventedTotal op \<longleftrightarrow> op = Inc"
  "op_of_kind HTTPRequestsTotal op \<longleftrightarrow> op = Inc"
  "op_of_kind HTTPRequestDuration op \<longleftrightarrow> (\<exists>v. op = Observe v)"
  "op_of_kind CrawlerRequestsTotal op \<longleftrightarrow> op = Inc"
  "op_of_kind CrawlerRequestDuration op \<longleftrightarrow> (\<exists>v. op = Observe v)"
  "op_of_kind CrawlerErrorsTotal op \<longleftrightarrow> op = Inc"
  "op_of_kind CrawlerBrowserActive op \<longleftrightarrow> op = Inc \<or> op = Dec \<or> (\<exists>v. op = Set_to v)"
  "op_of_kind CrawlerBrowserInstances op \<longleftrightarrow> op = Inc \<or> op = Dec \<or> (\<exists>v. op = Set_to v)"
  "op_of_kind CrawlerProxyMode op \<longleftrightarrow> op = Inc \<or> op = Dec \<or> (\<exists>v. op = Set_to v)"
  "op_of_kind CrawlerProxySwitchTotal op \<longleftrightarrow> op = Inc"
  "op_of_kind CrawlerRequestsByModeTotal op \<longleftrightarrow> op = Inc"
  "op_of_kind CrawlerRequestDurationByMode op \<longleftrightarrow> (\<exists>v. op = Observe v)"
  "op_of_kind CrawlerProxySwitchToProxyTotal op \<longleftrightarrow> op = Inc"
  "op_of_kind CrawlerTasksProcessedCurrent op \<longleftrightarrow> op = Inc \<or> op = Dec \<or> (\<exists>v. op = Set_to v)"
  "op_of_kind DBConnectionsActive op \<longleftrightarrow> op = Inc \<or> op = Dec \<or> (\<exists>v. op = Set_to v)"
  "op_of_kind DBConnectionsIdle op \<longleftrightarrow> op = Inc \<or> op = Dec \<or> (\<exists>v. op = Set_to v)"
  "op_of_kind DBQueryDuration op \<longleftrightarrow> (\<exists>v. op = Observe v)"
  "op_of_kind SchedulerMode op \<longleftrightarrow> op = Inc \<or> op = Dec \<or> (\<exists>v. op = Set_to v)"
  "op_of_kind ServiceUptime op \<longleftrightarrow> op = Inc \<or> op = Dec \<or> (\<exists>v. op = Set_to v)"
  "op_of_kind SchedulerTasksPushedTotal op \<longleftrightarrow> op = Inc"
  "op_of_kind SchedulerTasksSkippedTotal op \<longleftrightarrow> op = Inc"
  "op_of_kind SchedulerTasksPendingInQueue op \<longleftrightarrow> op = Inc \<or> op = Dec \<or> (\<exists>v. op = Set_to v)"
  by (simp_all add: metric_defs)

lemma metric_members [metric_simps]:
  "CrawlerQueueDepth \<in> set (declared_metrics eb)"
  "CrawlerTaskThroughput \<in> set (declared_metrics eb)"
  "WorkerPoolActive \<in> set (declared_metrics eb)"
  "WorkerPoolPending \<in> set (declared_metrics eb)"
  "WorkerPoolCapacity \<in> set (declared_metrics eb)"
  "WorkerPoolUtilization \<in> set (declared_metrics eb)"
  "TasksProcessedTotal \<in> set (declared_metrics eb)"
  "TaskProcessingDuration \<in> set (declared_metrics eb)"
  "TaskQueueWaitTime \<in> set (declared_metrics eb)"
  "ActiveTasks \<in> set (declared_metrics eb)"
  "RateLimitWaitDuration \<in> set (declared_metrics eb)"
  "RateLimitTimeoutTotal \<in> set (declared_metrics eb)"
  "TaskRetryTotal \<in> set (declared_metrics eb)"
  "TaskDLQTotal \<in> set (declared_metrics eb)"
  "TaskAutoClaimTotal \<in> set (declared_metrics eb)"
  "TaskDuplicatePreventedTotal \<in> set (declared_metrics eb)"
  "HTTPRequestsTotal \<in> set (declared_metrics eb)"
  "HTTPRequestDuration \<in> set (declared_metrics eb)"
  "CrawlerRequestsTotal \<in> set (declared_metrics eb)"
  "CrawlerRequestDuration \<in> set (declared_metrics eb)"
  "CrawlerErrorsTotal \<in> set (declared_metrics eb)"
  "CrawlerBrowserActive \<in> set (declared_metrics eb)"
  "CrawlerBrowserInstances \<in> set (declared_metrics eb)"
  "CrawlerProxyMode \<in> set (declared_metrics eb)"
  "CrawlerProxySwitchTotal \<in> set (declared_metrics eb)"
  "CrawlerRequestsByModeTotal \<in> set (declared_metrics eb)"
  "CrawlerRequestDurationByMode \<in> set (declared_metrics eb)"
  "CrawlerProxySwitchToProxyTotal \<in> set (declared_metrics eb)"
  "CrawlerTasksProcessedCurrent \<in> set (declared_metrics eb)"
  "DBConnectionsActive \<in> set (declared_metrics eb)"
  "DBConnectionsIdle \<in> set (declared_metrics eb)"
  "DBQueryDuration \<in> set (declared_metrics eb)"
  "SchedulerMode \<in> set (declared_metrics eb)"
  "ServiceUptime \<in> set (declared_metrics eb)"
  "SchedulerTasksPushedTotal \<in> set (declared_metrics eb)"
  "SchedulerTasksSkippedTotal \<in> set (declared_metrics eb)"
  "SchedulerTasksPendingInQueue \<in> set (declared_metrics eb)"
  by (simp_all add: declared_metrics_def)

text \<open>A call that the library accepts once the package is initialised.\<close>

definition program_call :: "(real \<Rightarrow> real \<Rightarrow> nat \<Rightarrow> real list) \<Rightarrow> metric_call \<Rightarrow> bool" where
  "program_call eb c \<longleftrightarrow> valid_call c \<and> fst c \<in> set (declared_metrics eb)"

lemma program_calls_succeed:
  assumes "prometheus new_metric update registered sample" and "list_all (program_call eb) calls"
    and "set (declared_metrics eb) \<subseteq> registered r"
  shows "\<exists>r'. update_all update calls r = Some r' \<and> registered r' = registered r \<and>
    (\<forall>name vs. sample r' name vs = sample_after calls name vs (sample r name vs))"
  using prometheus.update_all_succeeds [OF assms(1), of calls r] assms(2,3)
  by (fastforce simp: list_all_iff program_call_def)

text \<open>A registry in memory, which panics on everything the library may panic on.\<close>

record registry =
  rg_metrics :: "metric list"
  rg_samples :: "string \<Rightarrow> string list \<Rightarrow> real"

definition new_in_memory :: "metric \<Rightarrow> registry \<Rightarrow> registry option" where
  "new_in_memory m r =
     (if valid_metric m \<and> metric_name m \<notin> metric_name ` set (rg_metrics r)
      then Some \<lparr>rg_metrics = m # rg_metrics r, rg_samples = (rg_samples r)(metric_name m := (\<lambda>_. 0))\<rparr>
      else None)"

definition update_in_memory :: "metric_call \<Rightarrow> registry \<Rightarrow> registry option" where
  "update_in_memory c r =
     (if fst c \<in> set (rg_metrics r) \<and> valid_call c
      then Some (r\<lparr>rg_samples := (\<lambda>name vs. apply_call name vs c (rg_samples r name vs))\<rparr>)
      else None)"

interpretation memory_metrics: prometheus new_in_memory update_in_memory "\<lambda>r. set (rg_metrics r)" rg_samples
  by unfold_locales (auto simp: new_in_memory_def update_in_memory_def)

definition no_metrics :: registry where
  "no_metrics = \<lparr>rg_metrics = [], rg_samples = (\<lambda>_ _. 0)\<rparr>"

section \<open>Properties\<close>

text \<open>
  C32. The start of a process never panics over its metrics. All declarations of the package can be
  registered, one after the other: their names and labels are valid, no two share a name, and the buckets
  of every histogram increase. Afterwards every sample is zero, and the calls of \<^verbatim>\<open>InitMetrics\<close> succeed and
  set the mode of the scheduler and the capacity of its worker pool.
\<close>

theorem metrics_can_be_registered:
  assumes "prometheus new_metric update registered sample" and "exponential_buckets eb" and "registered r0 = {}"
  shows "\<exists>r1 r2. register_all new_metric (declared_metrics eb) r0 = Some r1 \<and>
     registered r1 = set (declared_metrics eb) \<and>
     update_all update (InitMetrics capacity) r1 = Some r2 \<and>
     sample r2 (metric_name SchedulerMode) [] = 1 \<and> sample r2 (metric_name WorkerPoolCapacity) [] = real_of_int capacity \<and>
     (\<forall>m \<in> set (declared_metrics eb) - {SchedulerMode, WorkerPoolCapacity}. sample r2 (metric_name m) = (\<lambda>_. 0))"
proof -
  have "list_all valid_metric (declared_metrics eb)" using declared_valid [OF assms(2)] by (simp add: list_all_iff)
  then obtain r1 where r1: "register_all new_metric (declared_metrics eb) r0 = Some r1" "registered r1 = set (declared_metrics eb)"
      "\<forall>name. sample r1 name = (if name \<in> metric_name ` set (declared_metrics eb) then (\<lambda>_. 0) else sample r0 name)"
    using prometheus.register_all_succeeds [OF assms(1) _ declared_names_distinct, of eb r0] assms(3) by auto
  have in1: "SchedulerMode \<in> registered r1" "WorkerPoolCapacity \<in> registered r1"
    by (simp_all add: r1(2) declared_metrics_def)
  then obtain r2 where r2: "update_all update (InitMetrics capacity) r1 = Some r2"
      "\<forall>name vs. sample r2 name vs = sample_after (InitMetrics capacity) name vs (sample r1 name vs)"
    using prometheus.update_all_succeeds [OF assms(1), of "InitMetrics capacity" r1]
    by (auto simp: InitMetrics_def SchedulerMode_def WorkerPoolCapacity_def)
  have inj: "metric_name m = metric_name m' \<longleftrightarrow> m = m'"
    if "m \<in> set (declared_metrics eb)" "m' \<in> set (declared_metrics eb)" for m m'
    using declared_names_distinct [of eb] that by (auto simp: distinct_map inj_on_def)
  have zero: "sample r1 (metric_name m) = (\<lambda>_. 0)" if "m \<in> set (declared_metrics eb)" for m
    using that r1(3) by simp
  have both: "SchedulerMode \<in> set (declared_metrics eb)" "WorkerPoolCapacity \<in> set (declared_metrics eb)"
    "SchedulerMode \<noteq> WorkerPoolCapacity" using in1 r1(2) by (simp_all add: SchedulerMode_def WorkerPoolCapacity_def)
  have "sample r2 (metric_name SchedulerMode) [] = 1" "sample r2 (metric_name WorkerPoolCapacity) [] = real_of_int capacity"
    using r2(2) inj both by (simp_all add: InitMetrics_def apply_call_def)
  moreover have "sample r2 (metric_name m) = (\<lambda>_. 0)"
    if "m \<in> set (declared_metrics eb) - {SchedulerMode, WorkerPoolCapacity}" for m
    using that r2(2) inj both zero by (auto simp: InitMetrics_def apply_call_def fun_eq_iff)
  ultimately show ?thesis using r1(1,2) r2(1) by blast
qed

theorem metrics_can_be_registered_witness:
  "\<exists>r1 r2. register_all new_in_memory (declared_metrics (\<lambda>start factor count. map (\<lambda>i. start * factor ^ i) [0..<count])) no_metrics = Some r1 \<and>
     update_all update_in_memory (InitMetrics 50) r1 = Some r2 \<and> rg_samples r2 ''goodshunter_worker_pool_capacity'' [] = 50"
  using metrics_can_be_registered [OF memory_metrics.prometheus_axioms, of
      "\<lambda>start factor count. map (\<lambda>i. start * factor ^ i) [0..<count]" no_metrics 50]
  by (auto simp: exponential_buckets_def no_metrics_def WorkerPoolCapacity_def)

end
