(* ===== verification/PoolMetrics.thy ===== *)
theory PoolMetrics
  imports WorkerPool Metrics
begin

text \<open>
  The metrics of the worker pool. Every step of \<open>pool_step\<close> makes the calls the code makes there
  (\<^verbatim>\<open>executeJob\<close>, \<^verbatim>\<open>wrapJobWithWait\<close> and \<^verbatim>\<open>Enqueue\<close> in \<^verbatim>\<open>internal/pkg/queue/queue.go\<close>); \<open>metered_step\<close> is a step
  together with its calls. The measured seconds are arguments.

  The lemmas show that in every reachable state the samples agree with the state of the pool.
\<close>

section \<open>Calls\<close>

text \<open>A worker that takes a job starts it: the job counts as active, and its wait ends.\<close>

definition worker_metrics :: "real \<Rightarrow> bool \<Rightarrow> 'j Queue \<Rightarrow> metric_call list" where
  "worker_metrics wait stop q =
     (if stop \<or> p_jobs q = [] then [] else [(ActiveTasks, [], Inc), (TaskQueueWaitTime, [], Observe wait)])"

definition executeJob_metrics :: "real \<Rightarrow> nat \<Rightarrow> job_result \<Rightarrow> 'j Queue \<Rightarrow> metric_call list" where
  "executeJob_metrics duration i res q =
     (let finish = [(TaskProcessingDuration, [''execute''], Observe duration), (ActiveTasks, [], Dec)]
      in case p_pool q ! i of
           WReturned job ok \<Rightarrow>
             if ok then (TasksProcessedTotal, [''success''], Inc) # finish
             else (TasksProcessedTotal, [''failed''], Inc) # (if p_handler q then [] else finish)
         | WHandling job \<Rightarrow> if res = JobPanic then [] else finish
         | WPanicked of_job \<Rightarrow> [(TasksProcessedTotal, [''panic''], Inc), (ActiveTasks, [], Dec)]
         | _ \<Rightarrow> [])"

text \<open>Only \<^verbatim>\<open>Enqueue\<close> reports: a rejected or dropped job, and the length of the channel after a send.\<close>

definition enqueue_rejected_metrics :: "metric_call list" where
  "enqueue_rejected_metrics = [(TasksProcessedTotal, [''dropped''], Inc)]"

definition enqueue_select_metrics :: "nat \<Rightarrow> 'j Queue \<Rightarrow> metric_call list" where
  "enqueue_select_metrics k q =
     (case p_producers q ! k of
        PSending job blocking \<Rightarrow>
          if p_chan_closed q \<or> length (p_jobs q) < p_capacity q \<or> blocking then []
          else [(TasksProcessedTotal, [''dropped''], Inc)]
      | PSent blocking \<Rightarrow>
          if blocking then [] else [(WorkerPoolPending, [], Set_to (real (length (p_jobs q))))])"

section \<open>Steps with their calls\<close>

inductive metered_step :: "'j Queue \<times> metric_call list \<Rightarrow> 'j Queue \<times> metric_call list \<Rightarrow> bool" where
  work: "\<not> p_crashed q \<Longrightarrow> i < length (p_pool q) \<Longrightarrow> p_pool q ! i = WIdle \<Longrightarrow> worker i stop q = Some q' \<Longrightarrow>
     metered_step (q, calls) (q', calls @ worker_metrics wait stop q)"
| execute: "\<not> p_crashed q \<Longrightarrow> i < length (p_pool q) \<Longrightarrow> executeJob i res q = Some q' \<Longrightarrow>
     metered_step (q, calls) (q', calls @ executeJob_metrics duration i res q)"
| enter: "\<not> p_crashed q \<Longrightarrow> enqueue_begin job blocking q = Some q' \<Longrightarrow> metered_step (q, calls) (q', calls)"
| rejected: "\<not> p_crashed q \<Longrightarrow> p_closed q \<Longrightarrow> metered_step (q, calls) (q, calls @ enqueue_rejected_metrics)"
| select: "\<not> p_crashed q \<Longrightarrow> k < length (p_producers q) \<Longrightarrow> enqueue_select k q = Some q' \<Longrightarrow>
     metered_step (q, calls) (q', calls @ enqueue_select_metrics k q)"
| cancel: "\<not> p_crashed q \<Longrightarrow> k < length (p_producers q) \<Longrightarrow> enqueue_cancel k q = Some q' \<Longrightarrow> metered_step (q, calls) (q', calls)"
| swap: "\<not> p_crashed q \<Longrightarrow> shutdown_swap q = Some q' \<Longrightarrow> metered_step (q, calls) (q', calls)"
| close_chan: "\<not> p_crashed q \<Longrightarrow> shutdown_close q = Some q' \<Longrightarrow> metered_step (q, calls) (q', calls)"
| ctx_done: "\<not> p_crashed q \<Longrightarrow> metered_step (q, calls) (q\<lparr>p_ctx_done := True\<rparr>, calls)"

inductive_cases metered_stepE: "metered_step (q, calls) (q', calls')"

text \<open>Without its calls, a step is one of the pool, or nothing has happened to the pool.\<close>

lemma metered_step_is_pool_step: "metered_step (q, calls) (q', calls') \<Longrightarrow> pool_step q q' \<or> q' = q"
  by (erule metered_stepE) (auto intro: pool_step.intros)

text \<open>The samples of the pool.\<close>

fun executing :: "'j worker_state \<Rightarrow> bool" where
  "executing WIdle = False"
| "executing WExited = False"
| "executing w = True"

abbreviation processed_as :: "metric_call list \<Rightarrow> string \<Rightarrow> real" where
  "processed_as calls status \<equiv> sample_after calls (metric_name TasksProcessedTotal) [status] 0"

definition samples_agree :: "(real \<Rightarrow> real \<Rightarrow> nat \<Rightarrow> real list) \<Rightarrow> 'j Queue \<Rightarrow> metric_call list \<Rightarrow> bool" where
  "samples_agree exponentialBuckets q calls \<longleftrightarrow>
     sample_after calls (metric_name ActiveTasks) [] 0 = real_of_int (tally executing (p_pool q)) \<and>
     processed_as calls ''success'' = real_of_int (TotalSucceeded (p_stats q)) \<and>
     processed_as calls ''failed'' = real_of_int (TotalFailed (p_stats q)) \<and>
     processed_as calls ''panic'' = real_of_int (TotalPanics (p_stats q)) \<and>
     real_of_int (TotalDropped (p_stats q)) \<le> processed_as calls ''dropped'' \<and>
     0 \<le> sample_after calls (metric_name WorkerPoolPending) [] 0 \<and>
     sample_after calls (metric_name WorkerPoolPending) [] 0 \<le> real (p_capacity q) \<and>
     list_all (program_call exponentialBuckets) calls"

lemma fresh_samples: "fresh_pool q \<Longrightarrow> samples_agree eb q []"
  by (auto simp: fresh_pool_def samples_agree_def Start_def SetErrorHandler_def NewQueue_def zero_stats_def Let_def)

lemma pool_metric_names [simp]:
  "metric_name ActiveTasks \<noteq> metric_name TaskQueueWaitTime" "metric_name ActiveTasks \<noteq> metric_name TaskProcessingDuration" "metric_name ActiveTasks \<noteq> metric_name TasksProcessedTotal" "metric_name ActiveTasks \<noteq> metric_name WorkerPoolPending"
  "metric_name TaskQueueWaitTime \<noteq> metric_name ActiveTasks" "metric_name TaskQueueWaitTime \<noteq> metric_name TaskProcessingDuration" "metric_name TaskQueueWaitTime \<noteq> metric_name TasksProcessedTotal" "metric_name TaskQueueWaitTime \<noteq> metric_name WorkerPoolPending"
  "metric_name TaskProcessingDuration \<noteq> metric_name ActiveTasks" "metric_name TaskProcessingDuration \<noteq> metric_name TaskQueueWaitTime" "metric_name TaskProcessingDuration \<noteq> metric_name TasksProcessedTotal" "metric_name TaskProcessingDuration \<noteq> metric_name WorkerPoolPending"
  "metric_name TasksProcessedTotal \<noteq> metric_name ActiveTasks" "metric_name TasksProcessedTotal \<noteq> metric_name TaskQueueWaitTime" "metric_name TasksProcessedTotal \<noteq> metric_name TaskProcessingDuration" "metric_name TasksProcessedTotal \<noteq> metric_name WorkerPoolPending"
  "metric_name WorkerPoolPending \<noteq> metric_name ActiveTasks" "metric_name WorkerPoolPending \<noteq> metric_name TaskQueueWaitTime" "metric_name WorkerPoolPending \<noteq> metric_name TaskProcessingDuration" "metric_name WorkerPoolPending \<noteq> metric_name TasksProcessedTotal"
  by (simp_all add: metric_simps)

lemmas pool_calls = worker_metrics_def executeJob_metrics_def enqueue_rejected_metrics_def enqueue_select_metrics_def Let_def

lemma pool_calls_known:
  "list_all (program_call eb) (worker_metrics wait stop q)" "list_all (program_call eb) (executeJob_metrics duration i res q)"
  "list_all (program_call eb) enqueue_rejected_metrics" "list_all (program_call eb) (enqueue_select_metrics k q)"
  by (simp_all add: pool_calls program_call_def metric_simps split: worker_state.split producer.split)

text \<open>What the calls of one step do to the samples.\<close>

lemma worker_samples:
  assumes "worker i stop q = Some q'" and "p_pool q ! i = WIdle" and "i < length (p_pool q)"
  shows "sample_after (worker_metrics wait stop q) (metric_name ActiveTasks) [] x =
      x + real_of_int (tally executing (p_pool q') - tally executing (p_pool q))"
    and "sample_after (worker_metrics wait stop q) (metric_name TasksProcessedTotal) vs x = x"
    and "sample_after (worker_metrics wait stop q) (metric_name WorkerPoolPending) [] x = x"
  using assms by (auto simp: pool_calls pool_simps apply_call_def split: if_splits list.splits)

lemma executeJob_samples:
  assumes "executeJob i res q = Some q'" and "i < length (p_pool q)"
  shows "sample_after (executeJob_metrics duration i res q) (metric_name ActiveTasks) [] x =
      x + real_of_int (tally executing (p_pool q') - tally executing (p_pool q))"
    and "sample_after (executeJob_metrics duration i res q) (metric_name TasksProcessedTotal) [''success''] x =
      x + real_of_int (TotalSucceeded (p_stats q') - TotalSucceeded (p_stats q))"
    and "sample_after (executeJob_metrics duration i res q) (metric_name TasksProcessedTotal) [''failed''] x =
      x + real_of_int (TotalFailed (p_stats q') - TotalFailed (p_stats q))"
    and "sample_after (executeJob_metrics duration i res q) (metric_name TasksProcessedTotal) [''panic''] x =
      x + real_of_int (TotalPanics (p_stats q') - TotalPanics (p_stats q))"
    and "sample_after (executeJob_metrics duration i res q) (metric_name TasksProcessedTotal) [''dropped''] x = x"
    and "sample_after (executeJob_metrics duration i res q) (metric_name WorkerPoolPending) [] x = x"
    and "TotalDropped (p_stats q') = TotalDropped (p_stats q)" and "p_capacity q' = p_capacity q"
  using assms
  by (auto simp: executeJob_def set_worker_def add_stats_def executeJob_metrics_def Let_def apply_call_def
      split: worker_state.splits job_result.splits if_splits)

lemma enqueue_select_samples:
  assumes "enqueue_select k q = Some q'"
  shows "sample_after (enqueue_select_metrics k q) (metric_name ActiveTasks) [] x = x"
    and "vs \<noteq> [''dropped''] \<Longrightarrow> sample_after (enqueue_select_metrics k q) (metric_name TasksProcessedTotal) vs x = x"
    and "sample_after (enqueue_select_metrics k q) (metric_name TasksProcessedTotal) [''dropped''] x =
      x + real_of_int (TotalDropped (p_stats q') - TotalDropped (p_stats q))"
    and "sample_after (enqueue_select_metrics k q) (metric_name WorkerPoolPending) [] x \<in> {x, real (length (p_jobs q))}"
    and "p_pool q' = p_pool q" and "p_capacity q' = p_capacity q" and "TotalSucceeded (p_stats q') = TotalSucceeded (p_stats q)"
    and "TotalFailed (p_stats q') = TotalFailed (p_stats q)" and "TotalPanics (p_stats q') = TotalPanics (p_stats q)"
  using assms
  by (auto simp: enqueue_select_def add_stats_def enqueue_select_metrics_def apply_call_def split: producer.splits if_splits)

lemma step_samples:
  assumes "metered_step (q, calls) (q', calls')" and "samples_agree eb q calls" and "channel_inv q"
  shows "samples_agree eb q' calls'"
  using assms(1)
proof cases
  case (work i stop wait)
  have "p_stats q' = p_stats q \<and> p_capacity q' = p_capacity q"
    using work(5) by (auto simp: pool_simps split: if_splits list.splits)
  then show ?thesis
    using assms(2) worker_samples [OF work(5,4,3)] by (simp add: samples_agree_def pool_calls_known work)
next
  case (execute i res duration)
  show ?thesis
    using assms(2) executeJob_samples [OF execute(4,3)] by (simp add: samples_agree_def pool_calls_known execute)
next
  case (enter job blocking)
  then show ?thesis using assms(2) by (auto simp: pool_simps samples_agree_def split: option.splits if_splits)
next
  case rejected
  then show ?thesis using assms(2) pool_calls_known(3) [of eb]
    by (simp add: samples_agree_def enqueue_rejected_metrics_def apply_call_def)
next
  case (select k)
  note es = enqueue_select_samples [OF select(4)]
  have "length (p_jobs q) \<le> p_capacity q" using assms(3) by (simp add: channel_inv_def)
  then show ?thesis
    using assms(2) es(4) [of "sample_after calls (metric_name WorkerPoolPending) [] 0"]
    by (auto simp: samples_agree_def pool_calls_known select es(1,2,3,5-9))
next
  case (cancel k)
  then show ?thesis using assms(2) by (auto simp: pool_simps samples_agree_def split: producer.splits bool.splits)
qed (use assms(2) in \<open>auto simp: pool_simps samples_agree_def split: if_splits\<close>)

fun metered_start :: "'j Queue \<times> metric_call list \<Rightarrow> bool" where
  "metered_start (q, calls) \<longleftrightarrow> fresh_pool q \<and> calls = []"

fun metered_ok :: "(real \<Rightarrow> real \<Rightarrow> nat \<Rightarrow> real list) \<Rightarrow> 'j Queue \<times> metric_call list \<Rightarrow> bool" where
  "metered_ok eb (q, calls) \<longleftrightarrow> ledger q \<and> channel_inv q \<and> samples_agree eb q calls"

lemma metered_step_ok: "metered_step s s' \<Longrightarrow> metered_ok eb s \<Longrightarrow> metered_ok eb s'"
proof (cases s; cases s')
  fix q calls q' calls'
  assume s: "metered_step s s'" "metered_ok eb s" "s = (q, calls)" "s' = (q', calls')"
  then have "ledger q'" "channel_inv q'"
    using metered_step_is_pool_step [of q calls q' calls'] step_ledger [of q q'] step_channel [of q q'] by auto
  then show "metered_ok eb s'" using s step_samples [of q calls q' calls' eb] by simp
qed

interpretation metered: invariant_system metered_start metered_step "metered_ok eb" for eb
proof
  show "metered_start s \<Longrightarrow> metered_ok eb s" for s :: "'a Queue \<times> metric_call list"
    using fresh_ledger fresh_samples by (cases s) auto
qed (rule metered_step_ok)

text \<open>The scheduler enqueues with \<^verbatim>\<open>EnqueueBlocking\<close> only, so its producers are all blocking ones.\<close>

fun from_blocking :: "'j producer \<Rightarrow> bool" where
  "from_blocking (PSending j blocking) = blocking"
| "from_blocking (PSent blocking) = blocking"

inductive scheduler_pool_step :: "'j Queue \<times> metric_call list \<Rightarrow> 'j Queue \<times> metric_call list \<Rightarrow> bool" where
  "metered_step (q, calls) (q', calls') \<Longrightarrow> list_all from_blocking (p_producers q) \<Longrightarrow>
   list_all from_blocking (p_producers q') \<Longrightarrow> scheduler_pool_step (q, calls) (q', calls')"

inductive_cases scheduler_pool_stepE: "scheduler_pool_step (q, calls) s'"

lemma blocking_step_keeps_pending:
  assumes "metered_step (q, calls) (q', calls')" and "list_all from_blocking (p_producers q)"
  shows "sample_after calls' (metric_name WorkerPoolPending) [] x = sample_after calls (metric_name WorkerPoolPending) [] x"
  using assms(1)
proof cases
  case (work i stop wait)
  then show ?thesis using worker_samples(3) [OF work(5,4,3)] by simp
next
  case (execute i res duration)
  then show ?thesis using executeJob_samples(6) [OF execute(4,3)] by simp
next
  case (select k)
  then have "from_blocking (p_producers q ! k)" using assms(2) by (simp add: list_all_length)
  then show ?thesis using select by (cases "p_producers q ! k") (simp_all add: enqueue_select_metrics_def)
qed (simp_all add: enqueue_rejected_metrics_def apply_call_def)

lemma scheduler_pool_pending:
  assumes "scheduler_pool_step\<^sup>*\<^sup>* s s'"
  shows "sample_after (snd s') (metric_name WorkerPoolPending) [] x = sample_after (snd s) (metric_name WorkerPoolPending) [] x"
  using assms
proof (induction rule: rtranclp_induct)
  case (step s1 s2)
  from step.hyps(2) have "sample_after (snd s2) (metric_name WorkerPoolPending) [] x =
      sample_after (snd s1) (metric_name WorkerPoolPending) [] x"
    by cases (simp add: blocking_step_keeps_pending)
  with step.IH show ?case by simp
qed simp

section \<open>Properties\<close>

text \<open>
  C25. The metrics of the worker pool tell its state. In every reachable state all calls made so far are
  accepted by the library, and in a registry that started at zero the gauge of active tasks is the number
  of workers with a job, whatever the jobs and the error handler did, panics included; the processed jobs
  are counted per outcome as the pool's own counters count them, where a job rejected by a closed pool is
  counted as dropped as well; the gauge of pending tasks stays within the capacity.
\<close>

theorem pool_metrics_tell_the_state:
  assumes "prometheus new_metric update registered sample" and "set (declared_metrics eb) \<subseteq> registered r"
    and "\<forall>m \<in> set (declared_metrics eb). sample r (metric_name m) = (\<lambda>_. 0)"
    and "fresh_pool q0" and "metered_step\<^sup>*\<^sup>* (q0, []) (q, calls)"
  shows "\<exists>r'. update_all update calls r = Some r' \<and>
     sample r' (metric_name ActiveTasks) [] = real_of_int (tally executing (p_pool q)) \<and>
     sample r' (metric_name TasksProcessedTotal) [''success''] = real_of_int (TotalSucceeded (Stats q)) \<and>
     sample r' (metric_name TasksProcessedTotal) [''failed''] = real_of_int (TotalFailed (Stats q)) \<and>
     sample r' (metric_name TasksProcessedTotal) [''panic''] = real_of_int (TotalPanics (Stats q)) \<and>
     real_of_int (TotalDropped (Stats q)) \<le> sample r' (metric_name TasksProcessedTotal) [''dropped''] \<and>
     0 \<le> sample r' (metric_name WorkerPoolPending) [] \<and> sample r' (metric_name WorkerPoolPending) [] \<le> real (p_capacity q)"
proof -
  have "metered_ok eb (q, calls)" using metered.reachable_invar [OF _ assms(5)] assms(4) by simp
  then have ok: "samples_agree eb q calls" by simp
  then obtain r' where "update_all update calls r = Some r'"
      "\<forall>name vs. sample r' name vs = sample_after calls name vs (sample r name vs)"
    using program_calls_succeed [OF assms(1) _ assms(2), of calls] by (auto simp: samples_agree_def)
  then show ?thesis using ok assms(3) by (simp add: samples_agree_def Stats_def metric_members)
qed

text \<open>A pool of one worker, and a job that was sent.\<close>

definition one_worker :: "nat Queue" where
  "one_worker = Start (SetErrorHandler False (NewQueue 1 1))"

definition declared_at_zero :: registry where
  "declared_at_zero = \<lparr>rg_metrics = declared_metrics (\<lambda>_ _ _. []), rg_samples = (\<lambda>_ _. 0)\<rparr>"

lemma one_worker_fresh: "fresh_pool one_worker"
  unfolding fresh_pool_def one_worker_def by blast

lemmas one_worker_simps = one_worker_def Start_def SetErrorHandler_def NewQueue_def

definition one_waiting :: "nat Queue" where
  "one_waiting = one_worker\<lparr>p_jobs := [5], p_stats := zero_stats\<lparr>TotalEnqueued := 1\<rparr>\<rparr>"

text \<open>The three steps of an enqueue, and the calls they make.\<close>

definition sending :: "bool \<Rightarrow> nat Queue" where
  "sending blocking = one_worker\<lparr>p_producers := [PSending 5 blocking]\<rparr>"

definition sent :: "bool \<Rightarrow> nat Queue" where
  "sent blocking = one_worker\<lparr>p_producers := [PSent blocking], p_jobs := [5]\<rparr>"

definition sent_metrics :: "bool \<Rightarrow> metric_call list" where
  "sent_metrics blocking = (if blocking then [] else [(WorkerPoolPending, [], Set_to 1)])"

lemma one_worker_sends:
  "metered_step (one_worker, []) (sending blocking, [])" "metered_step (sending blocking, []) (sent blocking, [])"
  "metered_step (sent blocking, []) (one_waiting, sent_metrics blocking)"
proof -
  show "metered_step (one_worker, []) (sending blocking, [])"
    by (rule metered_step.enter [of _ "Some 5" blocking]) (simp_all add: one_worker_simps sending_def enqueue_begin_def)
  have "metered_step (sending blocking, []) (sent blocking, [] @ enqueue_select_metrics 0 (sending blocking))"
    by (rule metered_step.select) (simp_all add: one_worker_simps sending_def sent_def enqueue_select_def)
  then show "metered_step (sending blocking, []) (sent blocking, [])"
    by (simp add: enqueue_select_metrics_def sending_def one_worker_simps)
  have "metered_step (sent blocking, []) (one_waiting, [] @ enqueue_select_metrics 0 (sent blocking))"
    by (rule metered_step.select)
      (simp_all add: one_worker_simps sent_def one_waiting_def enqueue_select_def add_stats_def zero_stats_def drop_nth_def)
  then show "metered_step (sent blocking, []) (one_waiting, sent_metrics blocking)"
    by (cases blocking) (simp_all add: enqueue_select_metrics_def sent_def sent_metrics_def)
qed

lemma one_worker_run: "metered_step\<^sup>*\<^sup>* (one_worker, []) (one_waiting, sent_metrics blocking)"
  using one_worker_sends [of blocking] by (meson converse_rtranclp_into_rtranclp r_into_rtranclp)

lemma one_waiting_fields:
  "p_pool one_waiting = [WIdle]" "p_capacity one_waiting = 1" "p_jobs one_waiting = [5]" "p_producers one_waiting = []"
  by (simp_all add: one_waiting_def one_worker_simps)

theorem pool_metrics_tell_the_state_witness:
  "\<exists>r'. update_all update_in_memory (sent_metrics False) declared_at_zero = Some r' \<and>
     rg_samples r' (metric_name ActiveTasks) [] = 0 \<and> rg_samples r' (metric_name WorkerPoolPending) [] \<le> 1"
proof -
  have "set (declared_metrics (\<lambda>_ _ _. [])) \<subseteq> set (rg_metrics declared_at_zero)"
    "\<forall>m \<in> set (declared_metrics (\<lambda>_ _ _. [])). rg_samples declared_at_zero (metric_name m) = (\<lambda>_. 0)"
    by (simp_all add: declared_at_zero_def)
  from pool_metrics_tell_the_state [OF memory_metrics.prometheus_axioms this one_worker_fresh one_worker_run [of False]]
  obtain r' where r': "update_all update_in_memory (sent_metrics False) declared_at_zero = Some r'"
    "rg_samples r' (metric_name ActiveTasks) [] = real_of_int (tally executing (p_pool one_waiting))"
    "rg_samples r' (metric_name WorkerPoolPending) [] \<le> real (p_capacity one_waiting)" by blast
  then show ?thesis by (auto simp: one_waiting_fields)
qed

text \<open>
  C0. The gauge of pending tasks never moves in the program. The scheduler enqueues with
  \<^verbatim>\<open>EnqueueBlocking\<close>, which does not set it: however many jobs wait in the channel, the gauge has its first
  value.
\<close>

theorem pending_gauge_never_moves:
  assumes "scheduler_pool_step\<^sup>*\<^sup>* (q0, []) (q, calls)"
  shows "sample_after calls (metric_name WorkerPoolPending) [] x = x"
  using scheduler_pool_pending [OF assms] by simp

theorem pending_gauge_never_moves_witness:
  "Len one_waiting = 1 \<and> sample_after (sent_metrics True) (metric_name WorkerPoolPending) [] 0 = 0"
proof -
  have "scheduler_pool_step (one_worker, []) (sending True, [])" "scheduler_pool_step (sending True, []) (sent True, [])"
    "scheduler_pool_step (sent True, []) (one_waiting, sent_metrics True)"
    by (rule scheduler_pool_step.intros [OF one_worker_sends(1)] scheduler_pool_step.intros [OF one_worker_sends(2)]
        scheduler_pool_step.intros [OF one_worker_sends(3)];
        simp add: sending_def sent_def one_waiting_fields one_worker_simps)+
  then have "scheduler_pool_step\<^sup>*\<^sup>* (one_worker, []) (one_waiting, sent_metrics True)"
    by (meson converse_rtranclp_into_rtranclp r_into_rtranclp)
  then show ?thesis using pending_gauge_never_moves [of one_worker one_waiting "sent_metrics True" 0]
    by (simp add: Len_def one_waiting_fields)
qed

end
