(* ===== verification/CrawlMetrics.thy ===== *)
theory CrawlMetrics
  imports CrawlerGuarantees PoolMetrics
begin

text \<open>
  The metrics of the crawler (\<^verbatim>\<open>internal/crawler/crawl.go\<close>, \<^verbatim>\<open>proxy.go\<close>, \<^verbatim>\<open>service.go\<close>): for every operation of
  \<^verbatim>\<open>Crawler\<close> that reports something, the calls it makes, in their order, on every way through it. The
  measured seconds and the names of the platforms (\<^verbatim>\<open>Platform.String\<close>, generated) are arguments.

  The lemmas show that all calls are accepted, and what a task leaves in the samples: it counts once, and
  the gauges return to where they were.
\<close>

section \<open>Calls\<close>

definition boolToGauge :: "bool \<Rightarrow> real" where
  "boolToGauge v = (if v then 1 else 0)"

definition mode_name :: "bool \<Rightarrow> string" where
  "mode_name useProxy = (if useProxy then ''proxy'' else ''direct'')"

definition ensureBrowserState_metrics ::
  "'w crawler_env \<Rightarrow> gotime \<Rightarrow> browser_start \<Rightarrow> Service \<Rightarrow> 'w \<Rightarrow> metric_call list"
where
  "ensureBrowserState_metrics env now start s w =
     (case getProxyState env now s w of
        (shouldUseProxy, s1, w1) \<Rightarrow>
          if shouldUseProxy = sv_currentIsProxy s1 then []
          else (case rotateBrowser (launch env start) shouldUseProxy s1 of
                  (Some e, s2) \<Rightarrow> []
                | (None, s2) \<Rightarrow>
                    [(CrawlerProxyMode, [], Set_to (boolToGauge shouldUseProxy)),
                     (CrawlerProxySwitchTotal, [mode_name shouldUseProxy], Inc)] @
                    (if shouldUseProxy then [(CrawlerProxySwitchToProxyTotal, [], Inc)] else [])))"

definition setProxyCooldown_metrics :: "'w crawler_env \<Rightarrow> gotime \<Rightarrow> duration \<Rightarrow> 'w \<Rightarrow> metric_call list" where
  "setProxyCooldown_metrics env now d w =
     (let d1 = (if d \<le> 0 then ce_ProxyCooldown env else d) in
      case ce_rdb env of
        None \<Rightarrow> []
      | Some R \<Rightarrow>
          (case fst (R now w (SET proxyCooldownKey ''1'' d1)) of
             None \<Rightarrow> [(CrawlerErrorsTotal, [''internal'', ''redis_degraded''], Inc)]
           | Some (RError e) \<Rightarrow> [(CrawlerErrorsTotal, [''internal'', ''redis_degraded''], Inc)]
           | Some r \<Rightarrow> []))"

text \<open>Every end of the wait for the rate limiter is measured, but the one after an error of Redis.\<close>

fun rateLimit_metrics :: "real \<Rightarrow> rate_event list \<Rightarrow> metric_call list" where
  "rateLimit_metrics waited [] = []"
| "rateLimit_metrics waited (RateError # es) = []"
| "rateLimit_metrics waited (Allowed # es) = [(RateLimitWaitDuration, [], Observe waited)]"
| "rateLimit_metrics waited (Refused CtxDone # es) =
     [(RateLimitWaitDuration, [], Observe waited), (RateLimitTimeoutTotal, [], Inc)]"
| "rateLimit_metrics waited (Refused MaxWait # es) = [(RateLimitWaitDuration, [], Observe waited)]"
| "rateLimit_metrics waited (Refused Tick # es) = rateLimit_metrics waited es"

text \<open>The page counts as active from the stealth script on, until the deferred calls at the end.\<close>

definition crawlOnce_metrics :: "'w crawler_env \<Rightarrow> real \<Rightarrow> 'e visit \<Rightarrow> Service \<Rightarrow> metric_call list" where
  "crawlOnce_metrics env waited v s =
     (if ce_rateLimited env then rateLimit_metrics waited (vs_rate v) else []) @
     (if ce_rateLimited env \<and> rateLimitLoop (vs_rate v) \<noteq> Some True then []
      else if \<not> isUsingProxy s \<and> vs_jitter_ended v then []
      else if fst (trackPageStart s) = None then []
      else if vs_page v = StepOk \<and> vs_stealth v = StepOk
      then [(CrawlerBrowserActive, [], Inc), (CrawlerBrowserActive, [], Dec)]
      else [])"

definition failed_attempt_metrics ::
  "'w crawler_env \<Rightarrow> 'e attempt \<Rightarrow> nat \<Rightarrow> crawl_err \<Rightarrow> Service \<Rightarrow> 'w \<Rightarrow> metric_call list"
where
  "failed_attempt_metrics env a i err s w =
     (case incrConsecutiveFailures env (at_end a) w of
        (failureCount, w1) \<Rightarrow>
          if ce_proxyAutoSwitch env \<and> i = 0 \<and> \<not> isUsingProxy s \<and> shouldActivateProxy (ce_ul env) (Some err)
          then if failureCount < ce_proxyFailureThreshold env then []
               else if \<not> checkProxyHealthWithRetry env (at_health a) 0 2
               then [(CrawlerErrorsTotal, [''internal'', ''proxy_unhealthy''], Inc)]
               else setProxyCooldown_metrics env (at_end a) (ce_ProxyCooldown env)
                      (resetConsecutiveFailures env (at_end a) w1)
          else [])"

text \<open>\<open>waited\<close> gives the seconds each attempt waited for the rate limiter.\<close>

function doCrawl_metrics ::
  "'w crawler_env \<Rightarrow> (nat \<Rightarrow> 'e attempt) \<Rightarrow> (nat \<Rightarrow> real) \<Rightarrow> FetchRequest \<Rightarrow> nat \<Rightarrow> Service \<Rightarrow> 'w \<Rightarrow> metric_call list"
where
  "doCrawl_metrics env as waited req i s w =
     ensureBrowserState_metrics env (at_now (as i)) (at_start (as i)) s w @
     (case ensureBrowserState env (at_now (as i)) (at_started (as i)) (at_start (as i)) s w of
        (Some e, s1, w1) \<Rightarrow> []
      | (None, s1, w1) \<Rightarrow>
          if i = 0 \<and> \<not> isUsingProxy s1 \<and> sv_forceProxyOnce s1
          then setProxyCooldown_metrics env (at_started (as i)) (ce_ProxyCooldown env) w1 @
               (case setProxyCooldown env (at_started (as i)) (ce_ProxyCooldown env) (s1\<lparr>sv_forceProxyOnce := False\<rparr>) w1 of
                  (Some e, s2, w2) \<Rightarrow> []
                | (None, s2, w2) \<Rightarrow> doCrawl_metrics env as waited req (Suc i) s2 w2)
          else crawlOnce_metrics env (waited i) (at_visit (as i)) s1 @
               (case crawlOnce env (at_visit (as i)) req s1 w1 of
                  (Inr response, s2, w2) \<Rightarrow> []
                | (Inl err, s2, w2) \<Rightarrow>
                    failed_attempt_metrics env (as i) i err s2 w2 @
                    (case failed_attempt env (as i) i err s2 w2 of
                       (Some e, s3, w3) \<Rightarrow> []
                     | (None, s3, w3) \<Rightarrow> if i = 0 then doCrawl_metrics env as waited req (Suc i) s3 w3 else [])))"
  by pat_completeness auto
termination
  by (relation "measure (\<lambda>(env, as, waited, req, i, s, w). if i = 0 then 1 else 0)") auto

declare doCrawl_metrics.simps [simp del]

definition recordMetrics :: "(string \<Rightarrow> string) \<Rightarrow> string \<Rightarrow> real \<Rightarrow> string \<Rightarrow> crawl_err option \<Rightarrow> metric_call list" where
  "recordMetrics ul platform took status err =
     [(CrawlerRequestsTotal, [platform, status], Inc), (CrawlerRequestDuration, [platform], Observe took)] @
     (if err \<noteq> None then [(CrawlerErrorsTotal, [platform, classifyCrawlerError ul err], Inc)] else [])"

definition mode_status :: "(string \<Rightarrow> string) \<Rightarrow> FetchResponse option \<Rightarrow> crawl_err option \<Rightarrow> string" where
  "mode_status ul response err =
     (if err \<noteq> None then classifyCrawlStatus ul err
      else case response of Some r \<Rightarrow> (if FP_Items r = [] then ''empty_result'' else ''success'') | None \<Rightarrow> ''success'')"

definition recordModeMetrics ::
  "(string \<Rightarrow> string) \<Rightarrow> bool \<Rightarrow> string \<Rightarrow> real \<Rightarrow> FetchResponse option \<Rightarrow> crawl_err option \<Rightarrow> metric_call list"
where
  "recordModeMetrics ul useProxy platform took response err =
     [(CrawlerRequestsByModeTotal, [platform, mode_status ul response err, mode_name useProxy], Inc),
      (CrawlerRequestDurationByMode, [platform, mode_name useProxy], Observe took)]"

definition FetchItems_metrics ::
  "'w crawler_env \<Rightarrow> (int \<Rightarrow> string) \<Rightarrow> (nat \<Rightarrow> 'e attempt) \<Rightarrow> (nat \<Rightarrow> real) \<Rightarrow> real \<Rightarrow> FetchRequest \<Rightarrow> Service \<Rightarrow> 'w \<Rightarrow>
   metric_call list"
where
  "FetchItems_metrics env platformName as waited took req s w =
     (let platform = ToLower (ce_ul env) (platformName (FR_Platform req));
          s0 = s\<lparr>sv_TotalProcessed := int64 (sv_TotalProcessed s + 1)\<rparr>;
          (r, s1, w1) = doCrawl env as req 0 s0 w
      in (ActiveTasks, [], Inc) # doCrawl_metrics env as waited req 0 s0 w @
         (if ce_maxTasks env = 0 then []
          else [(CrawlerTasksProcessedCurrent, [], Set_to (real ((sv_taskCounter s1 + 1) mod 2 ^ 64)))]) @
         (case r of
            Inl err \<Rightarrow> recordMetrics (ce_ul env) platform took ''failed'' (Some err) @
                       recordModeMetrics (ce_ul env) (isUsingProxy s1) platform took None (Some err)
          | Inr response \<Rightarrow> recordMetrics (ce_ul env) platform took ''success'' None @
                        recordModeMetrics (ce_ul env) (isUsingProxy s1) platform took (Some response) None) @
         [(ActiveTasks, [], Dec)])"

text \<open>The watchdog of a task that runs too long, and the browser at start and stop.\<close>

definition watchdog_metrics :: "metric_call list" where
  "watchdog_metrics = [(CrawlerErrorsTotal, [''unknown'', ''watchdog_timeout''], Inc)]"

definition NewService_metrics :: "'w crawler_env \<Rightarrow> browser_start \<Rightarrow> crawl_err option \<Rightarrow> metric_call list" where
  "NewService_metrics cfg b ping =
     (case launch cfg b False of
        Inl e \<Rightarrow> []
      | Inr br \<Rightarrow> (CrawlerBrowserInstances, [], Inc) # (if ping = None then [(CrawlerProxyMode, [], Set_to 0)] else []))"

definition Shutdown_metrics :: "Service \<Rightarrow> bool \<Rightarrow> metric_call list" where
  "Shutdown_metrics s stopped =
     (if sv_browser s \<noteq> None \<and> stopped then [(CrawlerBrowserInstances, [], Dec)] else [])"

section \<open>What the calls do to the samples\<close>

lemma sample_untouched: "\<forall>c \<in> set calls. metric_name (fst c) \<noteq> name \<Longrightarrow> sample_after calls name vs x = x"
  by (induction calls) (auto simp: apply_call_def)

text \<open>The calls of a crawl before it is reported.\<close>

definition crawl_call :: "(real \<Rightarrow> real \<Rightarrow> nat \<Rightarrow> real list) \<Rightarrow> metric_call \<Rightarrow> bool" where
  "crawl_call eb c \<longleftrightarrow> program_call eb c \<and>
     fst c \<in> {CrawlerProxyMode, CrawlerProxySwitchTotal, CrawlerProxySwitchToProxyTotal, CrawlerErrorsTotal,
       RateLimitWaitDuration, RateLimitTimeoutTotal, CrawlerBrowserActive} \<and>
     (fst c = CrawlerErrorsTotal \<longrightarrow> hd (fst (snd c)) = ''internal'')"

lemma crawl_calls:
  "program_call eb c \<Longrightarrow> fst c \<in> {CrawlerProxyMode, CrawlerProxySwitchTotal, CrawlerProxySwitchToProxyTotal, RateLimitWaitDuration, RateLimitTimeoutTotal, CrawlerBrowserActive} \<Longrightarrow>
   crawl_call eb c"
  "crawl_call eb (CrawlerErrorsTotal, [''internal'', e], Inc)"
proof -
  show "crawl_call eb (CrawlerErrorsTotal, [''internal'', e], Inc)"
    by (simp add: crawl_call_def program_call_def metric_simps)
qed (auto simp: crawl_call_def metric_defs)

lemma ensureBrowserState_calls: "list_all (crawl_call eb) (ensureBrowserState_metrics env now start s w)"
  by (auto simp: ensureBrowserState_metrics_def program_call_def metric_simps split: prod.split option.split intro!: crawl_calls)

lemma setProxyCooldown_calls: "list_all (crawl_call eb) (setProxyCooldown_metrics env now d w)"
  by (auto simp: setProxyCooldown_metrics_def Let_def crawl_calls split: option.split redis_reply.split)

lemma rateLimit_calls: "list_all (crawl_call eb) (rateLimit_metrics waited es)"
  by (induction waited es rule: rateLimit_metrics.induct) (auto simp: program_call_def metric_simps intro!: crawl_calls)

lemma crawlOnce_calls: "list_all (crawl_call eb) (crawlOnce_metrics env waited v s)"
  by (auto simp: crawlOnce_metrics_def rateLimit_calls program_call_def metric_simps intro!: crawl_calls)

lemma failed_attempt_calls: "list_all (crawl_call eb) (failed_attempt_metrics env a i err s w)"
  by (auto simp: failed_attempt_metrics_def setProxyCooldown_calls crawl_calls split: prod.split)

lemma doCrawl_calls: "list_all (crawl_call eb) (doCrawl_metrics env as waited req i s w)"
proof (induction env as waited req i s w rule: doCrawl_metrics.induct)
  case (1 env as waited req i s w)
  then show ?case
    unfolding doCrawl_metrics.simps [of env as waited req i s w]
    by (auto simp: ensureBrowserState_calls setProxyCooldown_calls crawlOnce_calls failed_attempt_calls
        split: prod.split option.split sum.split)
qed

text \<open>Names of the metrics that tell the calls of a task apart.\<close>

lemma crawl_metric_names:
  "distinct (map metric_name [ActiveTasks, CrawlerRequestsTotal, CrawlerRequestDuration, CrawlerErrorsTotal, CrawlerBrowserActive,
     CrawlerProxyMode, CrawlerProxySwitchTotal, CrawlerProxySwitchToProxyTotal, CrawlerRequestsByModeTotal,
     CrawlerRequestDurationByMode, CrawlerTasksProcessedCurrent, RateLimitWaitDuration, RateLimitTimeoutTotal])"
  "distinct (rev (map metric_name [ActiveTasks, CrawlerRequestsTotal, CrawlerRequestDuration, CrawlerErrorsTotal, CrawlerBrowserActive,
     CrawlerProxyMode, CrawlerProxySwitchTotal, CrawlerProxySwitchToProxyTotal, CrawlerRequestsByModeTotal,
     CrawlerRequestDurationByMode, CrawlerTasksProcessedCurrent, RateLimitWaitDuration, RateLimitTimeoutTotal]))"
  by (simp_all add: metric_simps)

lemmas crawl_names_differ [simp] = crawl_metric_names(1) [simplified] crawl_metric_names(2) [unfolded rev.simps list.map, simplified]

lemma crawl_calls_leave:
  assumes "list_all (crawl_call eb) calls"
  shows "sample_after calls (metric_name ActiveTasks) vs x = x"
    and "sample_after calls (metric_name CrawlerRequestsTotal) vs x = x"
    and "sample_after calls (metric_name CrawlerRequestsByModeTotal) vs x = x"
    and "hd vs \<noteq> ''internal'' \<Longrightarrow> sample_after calls (metric_name CrawlerErrorsTotal) vs x = x"
proof -
  show "sample_after calls (metric_name ActiveTasks) vs x = x" "sample_after calls (metric_name CrawlerRequestsTotal) vs x = x"
    "sample_after calls (metric_name CrawlerRequestsByModeTotal) vs x = x"
    using assms by (induction calls arbitrary: x) (auto simp: apply_call_def crawl_call_def)
  assume "hd vs \<noteq> ''internal''"
  with assms show "sample_after calls (metric_name CrawlerErrorsTotal) vs x = x"
    by (induction calls arbitrary: x) (auto simp: apply_call_def crawl_call_def)
qed

lemma crawlOnce_browser:
  "sample_after (crawlOnce_metrics env waited v s) (metric_name CrawlerBrowserActive) [] x = x"
proof -
  have "sample_after (rateLimit_metrics waited es) (metric_name CrawlerBrowserActive) [] x = x" for es x
    by (induction waited es rule: rateLimit_metrics.induct) (simp_all add: apply_call_def)
  then show ?thesis by (simp add: crawlOnce_metrics_def apply_call_def)
qed

lemma doCrawl_browser:
  "sample_after (doCrawl_metrics env as waited req i s w) (metric_name CrawlerBrowserActive) [] x = x"
proof (induction env as waited req i s w arbitrary: x rule: doCrawl_metrics.induct)
  case (1 env as waited req i s w)
  have "sample_after (ensureBrowserState_metrics env now start s w) (metric_name CrawlerBrowserActive) [] x = x" for now start x
    by (simp add: ensureBrowserState_metrics_def apply_call_def split: prod.split option.split)
  moreover have cool: "sample_after (setProxyCooldown_metrics env now d w) (metric_name CrawlerBrowserActive) [] x = x" for now d w x
    by (simp add: setProxyCooldown_metrics_def Let_def apply_call_def split: option.split redis_reply.split)
  moreover have "sample_after (failed_attempt_metrics env a i err s w) (metric_name CrawlerBrowserActive) [] x = x" for a err s w x
    by (simp add: failed_attempt_metrics_def cool apply_call_def split: prod.split)
  ultimately show ?case
    using 1 unfolding doCrawl_metrics.simps [of env as waited req i s w]
    by (auto simp: crawlOnce_browser split: prod.split option.split sum.split)
qed

lemma report_calls:
  "list_all (program_call eb) (recordMetrics ul platform took status err)"
  "list_all (program_call eb) (recordModeMetrics ul useProxy platform took response err)"
  by (simp_all add: recordMetrics_def recordModeMetrics_def program_call_def metric_simps)

lemma FetchItems_calls: "list_all (program_call eb) (FetchItems_metrics env platformName as waited took req s w)"
proof -
  have "list_all (program_call eb) (doCrawl_metrics env as waited req i s w)" for i s w
    using doCrawl_calls [of eb env as waited req i s w] by (auto simp: list_all_iff crawl_call_def)
  then show ?thesis
    by (auto simp: FetchItems_metrics_def Let_def report_calls program_call_def metric_simps split: prod.split sum.split)
qed

section \<open>Properties\<close>

text \<open>
  C24. A task counts once. All calls made while a task is crawled are accepted by the library, whatever the
  crawl meets. Afterwards the gauges of active tasks and of open pages are where they were before, and
  exactly one request was counted for the platform: as failed, with the class of its error, or as a
  success; and exactly one by mode, with the status of the block, the error, the empty result or the
  success, under the mode the crawl ended in.
\<close>

theorem crawl_is_counted_once:
  assumes "prometheus new_metric update registered sample" and "set (declared_metrics eb) \<subseteq> registered r"
    and "FetchItems env as req s w = (res, s', w')"
    and "platform = ToLower (ce_ul env) (platformName (FR_Platform req))" and "platform \<noteq> ''internal''"
    and "status = mode_status (ce_ul env) (case res of Inl e \<Rightarrow> None | Inr response \<Rightarrow> Some response)
           (case res of Inl e \<Rightarrow> Some e | Inr response \<Rightarrow> None)"
  shows "\<exists>r'. update_all update (FetchItems_metrics env platformName as waited took req s w) r = Some r' \<and>
     sample r' (metric_name ActiveTasks) [] = sample r (metric_name ActiveTasks) [] \<and>
     sample r' (metric_name CrawlerBrowserActive) [] = sample r (metric_name CrawlerBrowserActive) [] \<and>
     (\<forall>p st. sample r' (metric_name CrawlerRequestsTotal) [p, st] = sample r (metric_name CrawlerRequestsTotal) [p, st] +
        (if p = platform \<and> st = (if isl res then ''failed'' else ''success'') then 1 else 0)) \<and>
     (\<forall>e. sample r' (metric_name CrawlerErrorsTotal) [platform, e] = sample r (metric_name CrawlerErrorsTotal) [platform, e] +
        (if isl res \<and> e = classifyCrawlerError (ce_ul env) (Some (projl res)) then 1 else 0)) \<and>
     (\<forall>p st m. sample r' (metric_name CrawlerRequestsByModeTotal) [p, st, m] =
        sample r (metric_name CrawlerRequestsByModeTotal) [p, st, m] +
        (if p = platform \<and> st = status \<and> m = mode_name (isUsingProxy s') then 1 else 0))"
proof -
  let ?calls = "FetchItems_metrics env platformName as waited took req s w"
  obtain r' where r': "update_all update ?calls r = Some r'"
      "\<forall>name vs. sample r' name vs = sample_after ?calls name vs (sample r name vs)"
    using program_calls_succeed [OF assms(1) FetchItems_calls [of eb env platformName as waited took req s w] assms(2)] by auto
  let ?s0 = "s\<lparr>sv_TotalProcessed := int64 (sv_TotalProcessed s + 1)\<rparr>"
  obtain res1 s1 w1 where d: "doCrawl env as req 0 ?s0 w = (res1, s1, w1)" by (metis prod_cases3)
  have mode: "isUsingProxy s' = isUsingProxy s1"
    using assms(3) d by (auto simp: FetchItems_def isUsingProxy_def Let_def split: sum.splits if_splits)
  have res: "res = (case res1 of Inl e \<Rightarrow> Inl e | Inr response \<Rightarrow> Inr (response\<lparr>FP_TaskId := FR_TaskId req\<rparr>))"
    using assms(3) d by (auto simp: FetchItems_def Let_def split: sum.splits)
  have calls: "?calls = (ActiveTasks, [], Inc) # doCrawl_metrics env as waited req 0 ?s0 w @
         (if ce_maxTasks env = 0 then []
          else [(CrawlerTasksProcessedCurrent, [], Set_to (real ((sv_taskCounter s1 + 1) mod 2 ^ 64)))]) @
         recordMetrics (ce_ul env) platform took (if isl res then ''failed'' else ''success'')
           (case res of Inl e \<Rightarrow> Some e | Inr response \<Rightarrow> None) @
         [(CrawlerRequestsByModeTotal, [platform, status, mode_name (isUsingProxy s')], Inc),
          (CrawlerRequestDurationByMode, [platform, mode_name (isUsingProxy s')], Observe took),
          (ActiveTasks, [], Dec)]"
    unfolding FetchItems_metrics_def assms(4,6) res mode
    by (cases res1) (simp_all add: d Let_def recordModeMetrics_def mode_status_def)
  have before: "sample_after (doCrawl_metrics env as waited req 0 ?s0 w) (metric_name M) vs x = x"
    if "M = ActiveTasks \<or> M = CrawlerRequestsTotal \<or> M = CrawlerRequestsByModeTotal \<or>
      M = CrawlerErrorsTotal \<and> hd vs = platform \<or> M = CrawlerBrowserActive \<and> vs = []" for M vs x
    using that crawl_calls_leave [OF doCrawl_calls] doCrawl_browser assms(5) by auto
  show ?thesis
    by (intro exI [of _ r'] conjI r'(1); cases res)
      (simp_all add: r'(2) calls before recordMetrics_def apply_call_def)
qed

theorem crawl_is_counted_once_witness:
  "\<exists>r'. update_all update_in_memory
      (FetchItems_metrics direct_env (\<lambda>_. ''x'') (demo_attempt False) (\<lambda>_. 1) 2 req1 fresh_service empty_tks) declared_at_zero = Some r' \<and>
     rg_samples r' (metric_name CrawlerRequestsTotal) [ToLower (ce_ul direct_env) ''x'', ''failed''] = 1 \<and>
     rg_samples r' (metric_name CrawlerRequestsTotal) [ToLower (ce_ul direct_env) ''x'', ''success''] = 0"
proof -
  obtain s' w' where run: "FetchItems direct_env (demo_attempt False) req1 fresh_service empty_tks =
      (Inl (wrap_err ''rate limit wait timeout'' deadline), s', w')"
    using FetchItems_direct [of req1 empty_tks] by (metis prod.collapse)
  have "ToLower (ce_ul direct_env) ''x'' \<noteq> ''internal''"
    by (simp add: ToLower_lower byte_def)
  from crawl_is_counted_once [OF memory_metrics.prometheus_axioms _ run refl this refl, of "\<lambda>_ _ _. []" declared_at_zero "\<lambda>_. 1" 2]
  show ?thesis by (auto simp: declared_at_zero_def)
qed

end
