(* ===== verification/Fleet.thy ===== *)
theory Fleet
  imports QueueGuarantees Crawler Scheduler
begin

text \<open>
  The crawlers, the scheduler and everything that hands back stuck tasks, running side by side on one
  queue and one clock. \<^verbatim>\<open>QueueGuarantees\<close> assumes of an acknowledgement that its task is still held;
  here that is derived from the timeouts of the program: the goroutine of a task is over before any of
  the three passes over the processing list takes the task for stuck.
\<close>

section \<open>The timeouts\<close>

definition taskTimeout :: duration where "taskTimeout = 90 * Second"
definition redisOperationTimeout :: duration where "redisOperationTimeout = 5 * Second"
definition stuckTaskThreshold :: duration where "stuckTaskThreshold = 5 * Minute"

text \<open>
  A task's goroutine waits for the crawl until the context of the task ends, then sends the result and
  then the acknowledgement, each with a timeout of its own.
\<close>

definition task_lifetime :: duration where
  "task_lifetime = taskTimeout + redisOperationTimeout + redisOperationTimeout"

text \<open>The clock's seconds are an \<^verbatim>\<open>int64\<close>.\<close>

definition max_unix :: int where "max_unix = 9223372036854775807"

section \<open>Handing back stuck tasks\<close>

text \<open>
  Three parts of the program scan the processing list: the crawler's \<^verbatim>\<open>main\<close> at its start, the crawler
  once a minute, and the janitor of the scheduler (\<open>runRescue\<close>). None of them does more with an error
  than to log it.
\<close>

definition startup_rescue ::
  "'d Client \<Rightarrow> request_unmarshal \<Rightarrow> gotime \<Rightarrow> outcome \<Rightarrow> outcome \<Rightarrow> outcome list \<Rightarrow> 'd \<Rightarrow> 'd"
where
  "startup_rescue c unm now net1 net2 nets d = snd (RescueStuckTasks c unm now (2 * Minute) net1 net2 nets d)"

definition startStuckTaskCleanup ::
  "'d Client \<Rightarrow> request_unmarshal \<Rightarrow> (gotime \<times> outcome \<times> outcome \<times> outcome list) list \<Rightarrow> 'd \<Rightarrow> 'd"
where
  "startStuckTaskCleanup c unm ticks d =
     (if c = None then d
      else fold (\<lambda>(now, net1, net2, nets) d.
             snd (RescueStuckTasks c unm now stuckTaskThreshold net1 net2 nets d)) ticks d)"

text \<open>The janitor runs until the context ends; a ticker needs a positive interval, otherwise \<open>None\<close>: a panic.\<close>

definition StartJanitor :: "'w Scheduler \<Rightarrow> (gotime \<times> outcome list) list \<Rightarrow> 'w \<Rightarrow> 'w option" where
  "StartJanitor s ticks w =
     (if S_janitorInterval s \<le> 0 then None else Some (fold (\<lambda>(now, nets). runRescue s now nets) ticks w))"

lemma StartJanitor_never_panics:
  "StartJanitor (fst (NewScheduler deps i nd mi ws cap bs ji jt)) ticks w \<noteq> None"
  by (simp add: StartJanitor_def NewScheduler_def Let_def)

lemma janitor_timeout_default:
  "S_janitorTimeout (fst (NewScheduler deps i nd mi ws cap bs ji jt)) = (if jt \<le> 0 then 30 * Minute else jt)"
  by (simp add: NewScheduler_def Let_def)

section \<open>A pass spares what is not stuck\<close>

text \<open>What a pass must not change for an entry: where it is, and the start recorded for its id.\<close>

definition held :: "request_unmarshal \<Rightarrow> string \<Rightarrow> string \<Rightarrow> qview \<Rightarrow> bool" where
  "held unm raw ts q \<longleftrightarrow> raw \<in> set (q_processing q) \<and> map_of (q_started q) (raw_id unm raw) = Some ts"

context queue_client
begin

lemma entry_of_id:
  assumes "good mar unm d" and "raw \<in> set (q_entries (Q d))" and "raw' \<in> set (q_entries (Q d))"
    and "raw_id unm raw' = raw_id unm raw"
  shows "raw' = raw"
proof -
  have "inj_on (raw_id unm) (set (q_entries (Q d)))"
    using good_entries(2) [OF assms(1)] by (simp only: distinct_map)
  from inj_onD [OF this assms(4)] show ?thesis using assms(2,3) by simp
qed

lemma rescueScript_spares:
  assumes good: "good mar unm d" and held: "held unm raw ts (Q d)"
    and other: "raw' \<noteq> raw" and t: "unm raw' = Some t"
  shows "held unm raw ts (Q (snd (rescueScript S [KeyTaskProcessingQueue, KeyTaskQueue, KeyTaskStartedHash]
           [raw', FR_TaskId t] d)))"
proof -
  have typed: "queue_typed (view d)" using good by (simp add: good_def)
  have "raw_id unm raw \<noteq> FR_TaskId t" if "raw' \<in> set (q_processing (Q d))"
    using entry_of_id [OF good, of raw raw'] that held other t
    by (auto simp: q_entries_def held_def raw_id_def [of _ raw'] simp del: qview_of_sel)
  then show ?thesis
    using held other
    by (auto simp: rescueScript_effect [OF typed] rescue_view_def held_def in_set_remove1 map_of_delete
        simp del: qview_of_sel)
qed

lemma rescue_loop_spares:
  assumes "good mar unm d" and "held unm raw ts (Q d)" and "\<not> stuck unm st now timeout raw"
  shows "held unm raw ts (Q (snd (rescue_loop S unm st (Unix now) (quot timeout Second) nets raws n d)))"
  using assms(1,2)
proof (induction raws arbitrary: nets n d)
  case (Cons r raws)
  show ?case
  proof (cases "stuck unm st now timeout r")
    case False
    with Cons show ?thesis by (auto simp: stuck_def split: option.splits)
  next
    case True
    then obtain t where t: "unm r = Some t" "FR_TaskId t \<noteq> []"
        "timed_out st (Unix now) (quot timeout Second) t"
      by (auto simp: stuck_def split: option.splits)
    let ?f = "rescueScript S [KeyTaskProcessingQueue, KeyTaskQueue, KeyTaskStartedHash] [r, FR_TaskId t]"
    let ?d = "snd (client_call (case nets of [] \<Rightarrow> Delivered | n # _ \<Rightarrow> n) ?f d)"
    have "good mar unm (snd (?f d))"
      using Cons.prems(1) by (rule steps.step_invar) (rule queue_step.rescue)
    moreover have "held unm raw ts (Q (snd (?f d)))"
      using Cons.prems True assms(3) t by (intro rescueScript_spares) auto
    ultimately have "good mar unm ?d" "held unm raw ts (Q ?d)"
      using Cons.prems client_call_state [of "case nets of [] \<Rightarrow> Delivered | n # _ \<Rightarrow> n" ?f d] by auto
    with t Cons.IH show ?thesis by (simp add: prod.case_eq_if)
  qed
qed simp

lemma inspect_call:
  assumes "queue_typed (view d)" and "c \<in> {HGETALL KeyTaskStartedHash, LRANGE KeyTaskProcessingQueue}"
  shows "view (snd (client_call net (\<lambda>d. S d c) d)) = view d"
  using assms inspect_effect [of d c] client_call_state [of net "\<lambda>d. S d c" d] by auto

lemma RescueStuckTasks_spares:
  assumes good: "good mar unm d" and held: "held unm raw ts (Q d)"
    and fresh: "\<not> stuck unm (q_started (Q d)) now timeout raw"
  shows "held unm raw ts (Q (snd (RescueStuckTasks (Some S) unm now timeout net1 net2 nets d)))"
proof -
  have typed: "queue_typed (view d)" using good by (simp add: good_def)
  define d1 where "d1 = snd (client_call net1 (\<lambda>d. S d (HGETALL KeyTaskStartedHash)) d)"
  define d2 where "d2 = snd (client_call net2 (\<lambda>d. S d (LRANGE KeyTaskProcessingQueue)) d1)"
  have v1: "view d1 = view d" using typed by (simp add: d1_def inspect_call)
  then have v2: "view d2 = view d" using typed by (simp add: d2_def inspect_call)
  have st: "st = q_started (Q d)" if "fst (client_call net1 (\<lambda>d. S d (HGETALL KeyTaskStartedHash)) d) = Some (RPairs st)" for st
    using that typed by (cases net1) (auto simp: redis_simps queue_typed_def)
  have ne: "raws \<noteq> []" if "fst (client_call net2 (\<lambda>d. S d (LRANGE KeyTaskProcessingQueue)) d1) = Some (RMulti raws)" for raws
    using that typed v1 held by (cases net2) (auto simp: redis_simps queue_typed_def held_def)
  have "good mar unm d2" "held unm raw ts (Q d2)" using good held v2 by (simp_all add: good_def)
  note loop = rescue_loop_spares [OF this fresh]
  show ?thesis
    using held v1 v2 loop st ne
    by (auto simp: RescueStuckTasks_def prod.case_eq_if d1_def [symmetric] d2_def [symmetric]
        simp del: qview_of_sel split: option.split redis_reply.split)
qed

end

section \<open>The fleet\<close>

text \<open>
  The clock, the tasks the crawlers are working on (each with the clock at which it was taken) and the
  queue. Every operation of the queue's client is one step and the network may lose any request or reply
  of it, with one exception: the start of a task that a crawler goes on to work on is recorded. Time
  passes only while no task is beyond its lifetime. A crawler may give up a task at any moment, as it
  does when the task's context ends or when the process dies.
\<close>

record 'd fleet =
  fl_now :: gotime
  fl_running :: "(FetchRequest \<times> gotime) list"
  fl_queue :: 'd

inductive fleet_step ::
  "'d server \<Rightarrow> request_marshal \<Rightarrow> request_unmarshal \<Rightarrow> (string \<Rightarrow> string \<Rightarrow> bool) \<Rightarrow> (FetchResponse \<Rightarrow> string option) \<Rightarrow>
   (string \<Rightarrow> FetchResponse option) \<Rightarrow> duration \<Rightarrow> 'd fleet \<Rightarrow> 'd fleet \<Rightarrow> bool"
  for S mar unm lp marr unmr janitorTimeout
where
  wait: "fl_now f \<le> now \<Longrightarrow> Unix now \<le> max_unix \<Longrightarrow> \<forall>(t, p) \<in> set (fl_running f). now \<le> p + task_lifetime \<Longrightarrow>
     fleet_step S mar unm lp marr unmr janitorTimeout f (f\<lparr>fl_now := now\<rparr>)"
| dispatch: "decimal (FR_TaskId t) \<Longrightarrow>
     fleet_step S mar unm lp marr unmr janitorTimeout f
       (f\<lparr>fl_queue := snd (PushTask (Some S) mar net (Some t) (fl_queue f))\<rparr>)"
| take_task: "PopTask (Some S) unm (fl_now f) Delivered net (fl_queue f) = (Inr t, d') \<Longrightarrow> net \<noteq> RequestLost \<Longrightarrow>
     fleet_step S mar unm lp marr unmr janitorTimeout f
       (f\<lparr>fl_running := (t, fl_now f) # fl_running f, fl_queue := d'\<rparr>)"
| take_failed: "PopTask (Some S) unm (fl_now f) net net' (fl_queue f) = (Inl e, d') \<Longrightarrow>
     fleet_step S mar unm lp marr unmr janitorTimeout f (f\<lparr>fl_queue := d'\<rparr>)"
| report: "fleet_step S mar unm lp marr unmr janitorTimeout f
       (f\<lparr>fl_queue := snd (PushResult (Some S) marr net (Some r) (fl_queue f))\<rparr>)"
| acknowledge: "(t, p) \<in> set (fl_running f) \<Longrightarrow>
     fleet_step S mar unm lp marr unmr janitorTimeout f
       (f\<lparr>fl_running := remove1 (t, p) (fl_running f),
          fl_queue := snd (AckTask (Some S) lp net (Some t) (fl_queue f))\<rparr>)"
| give_up: "fleet_step S mar unm lp marr unmr janitorTimeout f (f\<lparr>fl_running := remove1 x (fl_running f)\<rparr>)"
| collect: "fleet_step S mar unm lp marr unmr janitorTimeout f
       (f\<lparr>fl_queue := snd (PopResult (Some S) unmr net (fl_queue f))\<rparr>)"
| boot: "fleet_step S mar unm lp marr unmr janitorTimeout f
       (f\<lparr>fl_queue := startup_rescue (Some S) unm (fl_now f) net1 net2 nets (fl_queue f)\<rparr>)"
| cleanup: "fleet_step S mar unm lp marr unmr janitorTimeout f
       (f\<lparr>fl_queue := startStuckTaskCleanup (Some S) unm [(fl_now f, net1, net2, nets)] (fl_queue f)\<rparr>)"
| janitor: "fleet_step S mar unm lp marr unmr janitorTimeout f
       (f\<lparr>fl_queue := snd (RescueStuckTasks (Some S) unm (fl_now f) janitorTimeout net1 net2 nets (fl_queue f))\<rparr>)"

text \<open>The tasks being worked on are held in the processing list, with their start, and within their lifetime.\<close>

definition working :: "request_unmarshal \<Rightarrow> gotime \<Rightarrow> qview \<Rightarrow> FetchRequest \<times> gotime \<Rightarrow> bool" where
  "working unm now q tp =
     (case tp of (t, p) \<Rightarrow>
        p \<le> now \<and> now \<le> p + task_lifetime \<and> 0 \<le> p \<and> Unix now \<le> max_unix \<and>
        (\<exists>raw. unm raw = Some t \<and> held unm raw (FormatInt (Unix p)) q))"

lemma working_not_stuck:
  assumes long: "2 * Minute \<le> timeout" and w: "working unm now q (t, p)" and raw: "unm raw = Some t"
  shows "\<not> stuck unm (q_started q) now timeout raw"
proof -
  have "now \<le> p + 100 * Second"
    using w by (simp add: working_def task_lifetime_def taskTimeout_def redisOperationTimeout_def)
  then have "Unix now \<le> (p + 100 * Second) div Second" unfolding Unix_def by (rule zdiv_mono1) simp
  then have near: "Unix now - Unix p \<le> 100" by (simp add: Unix_def)
  have b: "0 \<le> Unix p" "Unix p \<le> Unix now" "Unix now \<le> max_unix"
    using w by (auto simp: working_def Unix_def intro: zdiv_mono1)
  have "120 * Second div Second \<le> timeout div Second" using long by (intro zdiv_mono1) simp_all
  then have far: "120 \<le> quot timeout Second" using long by (simp add: quot_def)
  have "map_of (q_started q) (FR_TaskId t) = Some (FormatInt (Unix p))"
    using w raw by (auto simp: working_def held_def raw_id_def)
  moreover have "Sscanf_d (FormatInt (Unix p)) = Some (Unix p)" "int64 (Unix now - Unix p) = Unix now - Unix p"
    using b near by (simp_all add: Sscanf_d_FormatInt max_unix_def)
  ultimately show ?thesis
    using near far raw by (simp add: stuck_def timed_out_def)
qed

section \<open>What the steps do to the queue\<close>

context queue_client
begin

lemma PushTask_holds:
  assumes "good mar unm d" and "held unm raw ts (Q d)"
  shows "held unm raw ts (Q (snd (PushTask (Some S) mar net (Some t) d)))"
proof -
  have typed: "queue_typed (view d)" using assms(1) by (simp add: good_def)
  have "held unm raw ts (Q (snd (pushTaskScript S [KeyTaskPendingSet, KeyTaskQueue] [i, r] d)))" for i r
    using assms(2) by (simp add: pushTaskScript_effect [OF typed] held_def push_view_def del: qview_of_sel)
  then show ?thesis
    using assms(2) client_call_state [of net "pushTaskScript S [KeyTaskPendingSet, KeyTaskQueue] [i, r]" d for i r]
    by (auto simp: PushTask_state simp del: qview_of_sel split: option.split) metis
qed

lemma result_calls_hold:
  assumes "good mar unm d" and "held unm raw ts (Q d)"
  shows "held unm raw ts (Q (snd (PushResult (Some S) marr net (Some r) d)))"
    and "held unm raw ts (Q (snd (PopResult (Some S) unmr net d)))"
proof -
  have typed: "queue_typed (view d)" using assms(1) by (simp add: good_def)
  have "held unm raw ts (Q (snd (S d (LPUSH KeyResultQueue x))))" "held unm raw ts (Q (snd (S d (BRPOP KeyResultQueue))))" for x
    using assms(2) by (simp_all add: result_in_effect [OF typed] result_out_effect [OF typed] held_def del: qview_of_sel)
  then show "held unm raw ts (Q (snd (PushResult (Some S) marr net (Some r) d)))"
      and "held unm raw ts (Q (snd (PopResult (Some S) unmr net d)))"
    using assms(2) client_call_state [of net "\<lambda>d. S d (LPUSH KeyResultQueue x)" d for x]
      client_call_state [of net "\<lambda>d. S d (BRPOP KeyResultQueue)" d]
    by (auto simp: PushResult_state PopResult_state simp del: qview_of_sel split: option.split) metis+
qed

lemma entry_decodes:
  assumes "good mar unm d" and "raw \<in> set (q_entries (Q d))"
  obtains t where "unm raw = Some t" and "decimal (FR_TaskId t)" and "raw_id unm raw = FR_TaskId t"
proof -
  obtain t where t: "mar t = Some raw" "decimal (FR_TaskId t)"
    using good_entries(1) [OF assms] by (auto simp: entry_ok_def)
  then show ?thesis
    using codec by (intro that [of t]) (auto simp: protojson_codec_def raw_id_marshal)
qed

lemma PopTask_ok:
  assumes good: "good mar unm d" and pop: "PopTask (Some S) unm now Delivered net d = (Inr t, d')"
    and rec: "net \<noteq> RequestLost"
  obtains raw where "q_tasks (Q d) \<noteq> []" and "raw = last (q_tasks (Q d))" and "unm raw = Some t"
    and "Q d' = (pop_view (Q d))\<lparr>q_started := AList.update (FR_TaskId t) (FormatInt (Unix now)) (q_started (Q d))\<rparr>"
proof -
  have typed: "queue_typed (view d)" using good by (simp add: good_def)
  define d1 where "d1 = snd (S d (BRPOPLPUSH KeyTaskQueue KeyTaskProcessingQueue))"
  have d1: "queue_typed (view d1)" "Q d1 = pop_view (Q d)" using pop_effect [OF typed] by (simp_all add: d1_def)
  have ne: "q_tasks (Q d) \<noteq> []"
    using pop by (auto simp: PopTask_def pop_effect [OF typed] simp del: qview_of_sel)
  let ?raw = "last (q_tasks (Q d))"
  have mem: "?raw \<in> set (q_entries (Q d))" using ne by (simp add: q_entries_def del: qview_of_sel)
  obtain u where u: "unm ?raw = Some u" "decimal (FR_TaskId u)" by (rule entry_decodes [OF good mem])
  have run: "PopTask (Some S) unm now Delivered net d =
      (Inr u, snd (client_call net (\<lambda>d. S d (HSET KeyTaskStartedHash (FR_TaskId u) (FormatInt (Unix now)))) d1))"
    using ne u by (auto simp: PopTask_def pop_effect [OF typed] d1_def decimal_def simp del: qview_of_sel)
  have "snd (client_call net (\<lambda>d. S d (HSET KeyTaskStartedHash (FR_TaskId u) (FormatInt (Unix now)))) d1) =
      snd (S d1 (HSET KeyTaskStartedHash (FR_TaskId u) (FormatInt (Unix now))))"
    using rec by (cases net) simp_all
  then have "u = t" "Q d' = (pop_view (Q d))\<lparr>q_started := AList.update (FR_TaskId t) (FormatInt (Unix now)) (q_started (Q d))\<rparr>"
    using pop run mark_effect(1) [OF d1(1)] by (auto simp: d1(2) pop_view_def simp del: qview_of_sel)
  with ne u show ?thesis by (intro that [of ?raw]) auto
qed

lemma PopTask_failed:
  assumes good: "good mar unm d" and "PopTask (Some S) unm now net net' d = (Inl e, d')"
  shows "Q d' = Q d \<or> Q d' = pop_view (Q d)"
proof -
  have typed: "queue_typed (view d)" using good by (simp add: good_def)
  have "d' = snd (client_call net (\<lambda>d. S d (BRPOPLPUSH KeyTaskQueue KeyTaskProcessingQueue)) d)"
    using assms(2)
    by (cases "client_call net (\<lambda>d. S d (BRPOPLPUSH KeyTaskQueue KeyTaskProcessingQueue)) d")
      (auto simp: PopTask_def split: option.splits redis_reply.splits if_splits)
  then show ?thesis
    using client_call_state [of net "\<lambda>d. S d (BRPOPLPUSH KeyTaskQueue KeyTaskProcessingQueue)" d]
      pop_effect(2) [OF typed] by metis
qed

lemma AckTask_holds:
  assumes good: "good mar unm d" and held: "held unm raw ts (Q d)"
    and dec: "decimal (FR_TaskId t)" and other: "raw_id unm raw \<noteq> FR_TaskId t"
  shows "held unm raw ts (Q (snd (AckTask (Some S) lp net (Some t) d)))"
proof -
  have typed: "queue_typed (view d)" using good by (simp add: good_def)
  have mem: "raw \<in> set (q_entries (Q d))" using held by (simp add: held_def q_entries_def del: qview_of_sel)
  let ?f = "ackTaskScript S lp [KeyTaskProcessingQueue, KeyTaskPendingSet, KeyTaskStartedHash] [FR_TaskId t]"
  have no: "\<not> string_find lp raw (taskid_pattern (FR_TaskId t))"
    using string_find_entry [OF codec good_entries(1) [OF good mem] dec] other by simp
  have "raw \<noteq> r"
    if "find (\<lambda>raw. string_find lp raw (taskid_pattern (FR_TaskId t))) (q_processing (Q d)) = Some r" for r
    using no find_SomeD [OF that] by auto
  then have "held unm raw ts (Q (snd (?f d)))"
    using held other
    by (auto simp: ackTaskScript_effect [OF typed] ack_view_def held_def in_set_remove1 map_of_delete
        simp del: qview_of_sel split: option.split)
  then show ?thesis using held client_call_state [of net ?f d] by (auto simp: AckTask_state simp del: qview_of_sel)
qed

end

section \<open>The invariant\<close>

locale fleet_system = queue_client S view mar unm lp
  for S :: "'d server" and view :: "'d \<Rightarrow> keyspace" and mar :: request_marshal and unm :: request_unmarshal
    and lp :: "string \<Rightarrow> string \<Rightarrow> bool" +
  fixes marr :: "FetchResponse \<Rightarrow> string option" and unmr :: "string \<Rightarrow> FetchResponse option"
    and janitorTimeout :: duration
  assumes patient: "2 * Minute \<le> janitorTimeout"
begin

definition fleet_start :: "'d fleet \<Rightarrow> bool" where
  "fleet_start f \<longleftrightarrow> drained (fl_queue f) \<and> fl_running f = [] \<and> 0 \<le> fl_now f \<and> Unix (fl_now f) \<le> max_unix"

definition fleet_ok :: "'d fleet \<Rightarrow> bool" where
  "fleet_ok f \<longleftrightarrow> good mar unm (fl_queue f) \<and> 0 \<le> fl_now f \<and> Unix (fl_now f) \<le> max_unix \<and>
     (\<forall>tp \<in> set (fl_running f). working unm (fl_now f) (Q (fl_queue f)) tp) \<and>
     distinct (map (FR_TaskId \<circ> fst) (fl_running f))"

abbreviation fstep :: "'d fleet \<Rightarrow> 'd fleet \<Rightarrow> bool" where
  "fstep \<equiv> fleet_step S mar unm lp marr unmr janitorTimeout"

abbreviation qsteps :: "'d \<Rightarrow> 'd \<Rightarrow> bool" where
  "qsteps \<equiv> (queue_step S view mar unm lp)\<^sup>*\<^sup>*"

lemma working_mono:
  assumes "working unm now q (t, p)" and "\<And>raw. unm raw = Some t \<Longrightarrow> held unm raw (FormatInt (Unix p)) q \<Longrightarrow> held unm raw (FormatInt (Unix p)) r"
  shows "working unm now r (t, p)"
  using assms by (auto simp: working_def)

lemma working_entry:
  assumes "working unm now (Q d) (t, p)" and "good mar unm d"
  obtains raw where "unm raw = Some t" and "raw \<in> set (q_processing (Q d))" and "raw_id unm raw = FR_TaskId t"
    and "decimal (FR_TaskId t)"
proof -
  obtain raw where raw: "unm raw = Some t" "raw \<in> set (q_processing (Q d))"
    using assms(1) by (auto simp: working_def held_def simp del: qview_of_sel)
  then have "raw \<in> set (q_entries (Q d))" by (simp add: q_entries_def del: qview_of_sel)
  from entry_decodes [OF assms(2) this] raw show ?thesis by (metis option.inject that)
qed

lemma fleet_ok_queue:
  assumes "fleet_ok f" and "qsteps (fl_queue f) d"
    and "\<And>t p. (t, p) \<in> set ts \<Longrightarrow> working unm (fl_now f) (Q d) (t, p)"
    and "distinct (map (FR_TaskId \<circ> fst) ts)"
  shows "fleet_ok (f\<lparr>fl_running := ts, fl_queue := d\<rparr>)"
  using assms steps.steps_invar [OF assms(2)] by (auto simp: fleet_ok_def simp del: qview_of_sel)

lemma rescue_ok:
  assumes ok: "fleet_ok f" and "2 * Minute \<le> timeout"
    and d_def: "d = snd (RescueStuckTasks (Some S) unm (fl_now f) timeout net1 net2 nets (fl_queue f))"
  shows "qsteps (fl_queue f) d \<and> fleet_ok (f\<lparr>fl_queue := d\<rparr>)"
proof -
  have steps: "qsteps (fl_queue f) d" unfolding d_def by (rule RescueStuckTasks_steps)
  have "working unm (fl_now f) (Q d) (t, p)" if "(t, p) \<in> set (fl_running f)" for t p
  proof -
    have w: "working unm (fl_now f) (Q (fl_queue f)) (t, p)" and g: "good mar unm (fl_queue f)"
      using ok that by (auto simp: fleet_ok_def simp del: qview_of_sel)
    from w show ?thesis
      unfolding d_def by (rule working_mono) (intro RescueStuckTasks_spares g working_not_stuck [OF assms(2) w])
  qed
  then have "fleet_ok (f\<lparr>fl_running := fl_running f, fl_queue := d\<rparr>)"
    using ok steps by (intro fleet_ok_queue) (auto simp: fleet_ok_def)
  with steps show ?thesis by simp
qed

lemma queue_only_ok:
  assumes ok: "fleet_ok f" and steps: "qsteps (fl_queue f) d"
    and "\<And>raw ts. held unm raw ts (Q (fl_queue f)) \<Longrightarrow> held unm raw ts (Q d)"
  shows "qsteps (fl_queue f) d \<and> fleet_ok (f\<lparr>fl_queue := d\<rparr>)"
proof -
  have "working unm (fl_now f) (Q d) (t, p)" if "(t, p) \<in> set (fl_running f)" for t p
    using ok that by (intro working_mono [OF _ assms(3)]) (auto simp: fleet_ok_def simp del: qview_of_sel)
  then have "fleet_ok (f\<lparr>fl_running := fl_running f, fl_queue := d\<rparr>)"
    using ok steps by (intro fleet_ok_queue) (auto simp: fleet_ok_def)
  with steps show ?thesis by simp
qed

lemma take_ok:
  assumes ok: "fleet_ok f" and pop: "PopTask (Some S) unm (fl_now f) Delivered net (fl_queue f) = (Inr t, d)"
    and rec: "net \<noteq> RequestLost"
  shows "qsteps (fl_queue f) d \<and> fleet_ok (f\<lparr>fl_running := (t, fl_now f) # fl_running f, fl_queue := d\<rparr>)"
proof -
  have good: "good mar unm (fl_queue f)" using ok by (simp add: fleet_ok_def)
  have steps: "qsteps (fl_queue f) d"
    using PopTask_steps [of mar unm lp "fl_queue f" unm "fl_now f" Delivered net] pop by simp
  obtain raw where raw: "q_tasks (Q (fl_queue f)) \<noteq> []" "raw = last (q_tasks (Q (fl_queue f)))" "unm raw = Some t"
      "Q d = (pop_view (Q (fl_queue f)))\<lparr>q_started :=
          AList.update (FR_TaskId t) (FormatInt (Unix (fl_now f))) (q_started (Q (fl_queue f)))\<rparr>"
    by (rule PopTask_ok [OF good pop rec])
  have id: "raw_id unm raw = FR_TaskId t" using raw(3) by (simp add: raw_id_def)
  have fresh: "FR_TaskId u \<noteq> FR_TaskId t" "working unm (fl_now f) (Q d) (u, p)"
    if up: "(u, p) \<in> set (fl_running f)" for u p
  proof -
    have w: "working unm (fl_now f) (Q (fl_queue f)) (u, p)"
      using ok up by (auto simp: fleet_ok_def simp del: qview_of_sel)
    obtain r where r: "r \<in> set (q_processing (Q (fl_queue f)))" "raw_id unm r = FR_TaskId u"
      using working_entry [OF w good] by metis
    have "raw_id unm raw \<notin> raw_id unm ` set (q_processing (Q (fl_queue f)))"
      using good_entries(2) [OF good] last_in_set [OF raw(1)] raw(2)
      by (simp only: q_entries_def map_append distinct_append set_map) blast
    with r id show ne: "FR_TaskId u \<noteq> FR_TaskId t" by (metis imageI)
    show "working unm (fl_now f) (Q d) (u, p)"
    proof (rule working_mono [OF w])
      fix r assume "unm r = Some u" and "held unm r (FormatInt (Unix p)) (Q (fl_queue f))"
      then show "held unm r (FormatInt (Unix p)) (Q d)"
        using ne raw(1) by (simp add: raw(4) held_def pop_view_def raw_id_def update_conv' del: qview_of_sel)
    qed
  qed
  have "held unm raw (FormatInt (Unix (fl_now f))) (Q d)"
    using raw(1,2) id by (simp add: raw(4) held_def pop_view_def update_conv' del: qview_of_sel)
  then have "working unm (fl_now f) (Q d) (t, fl_now f)"
    using ok raw(3)
    by (auto simp: working_def fleet_ok_def task_lifetime_def taskTimeout_def redisOperationTimeout_def simp del: qview_of_sel)
  with ok steps show ?thesis
    by (intro conjI fleet_ok_queue) (auto simp: fleet_ok_def simp del: qview_of_sel dest: fresh)
qed

lemma take_failed_holds:
  assumes "good mar unm d" and "PopTask (Some S) unm now net net' d = (Inl e, d')" and "held unm raw ts (Q d)"
  shows "held unm raw ts (Q d')"
  using PopTask_failed [OF assms(1,2)] assms(3) by (auto simp: held_def pop_view_def simp del: qview_of_sel)

lemma acknowledge_ok:
  assumes ok: "fleet_ok f" and tp: "(t, p) \<in> set (fl_running f)"
    and d_def: "d = snd (AckTask (Some S) lp net (Some t) (fl_queue f))"
  shows "qsteps (fl_queue f) d \<and> fleet_ok (f\<lparr>fl_running := remove1 (t, p) (fl_running f), fl_queue := d\<rparr>)"
proof -
  have good: "good mar unm (fl_queue f)" using ok by (simp add: fleet_ok_def)
  have w: "working unm (fl_now f) (Q (fl_queue f)) (u, q)" if "(u, q) \<in> set (fl_running f)" for u q
    using ok that by (auto simp: fleet_ok_def simp del: qview_of_sel)
  obtain raw where raw: "raw \<in> set (q_processing (Q (fl_queue f)))" "raw_id unm raw = FR_TaskId t" "decimal (FR_TaskId t)"
    using working_entry [OF w [OF tp] good] by metis
  then have steps: "qsteps (fl_queue f) d"
    unfolding d_def by (intro AckTask_steps) (auto simp del: qview_of_sel intro: rev_image_eqI)
  have dist: "distinct (map (FR_TaskId \<circ> fst) (fl_running f))" using ok by (simp add: fleet_ok_def)
  have "working unm (fl_now f) (Q d) (u, q)" if uq: "(u, q) \<in> set (remove1 (t, p) (fl_running f))" for u q
  proof -
    have mem: "(u, q) \<in> set (fl_running f)" "(u, q) \<noteq> (t, p)"
      using uq dist by (auto simp: distinct_map)
    then have "(FR_TaskId \<circ> fst) (u, q) \<noteq> (FR_TaskId \<circ> fst) (t, p)"
      using dist tp by (metis distinct_map inj_onD)
    then have "FR_TaskId u \<noteq> FR_TaskId t" by simp
    then show ?thesis
      unfolding d_def by (intro working_mono [OF w [OF mem(1)]] AckTask_holds good raw(3)) (auto simp: raw_id_def)
  qed
  moreover have "distinct (map (FR_TaskId \<circ> fst) (remove1 (t, p) (fl_running f)))"
    using dist by (auto simp: distinct_map intro: inj_on_subset set_remove1_subset)
  ultimately show ?thesis using ok steps by (intro conjI fleet_ok_queue)
qed

lemma fstep_ok:
  assumes "fstep f f'" and ok: "fleet_ok f"
  shows "qsteps (fl_queue f) (fl_queue f') \<and> fleet_ok f'"
  using assms(1)
proof cases
  case (wait now)
  with ok show ?thesis by (auto simp: fleet_ok_def working_def simp del: qview_of_sel)
next
  case (dispatch t net)
  then show ?thesis
    using ok queue_only_ok [OF ok PushTask_steps [OF dispatch(2)], of net] PushTask_holds
    by (simp add: fleet_ok_def del: qview_of_sel)
next
  case (take_task net t d')
  then show ?thesis using take_ok [OF ok] by simp
next
  case (take_failed net net' e d')
  have "qsteps (fl_queue f) d'"
    using PopTask_steps [of mar unm lp "fl_queue f" unm "fl_now f" net net'] take_failed by simp
  moreover have "held unm raw ts (Q d')" if "held unm raw ts (Q (fl_queue f))" for raw ts
    using take_failed_holds [OF _ take_failed(2) that] ok by (simp add: fleet_ok_def del: qview_of_sel)
  ultimately show ?thesis using queue_only_ok [OF ok] take_failed(1) by simp
next
  case (report net r)
  then show ?thesis
    using ok queue_only_ok [OF ok PushResult_steps, of marr net r] result_calls_hold(1)
    by (simp add: fleet_ok_def del: qview_of_sel)
next
  case (acknowledge t p net)
  then show ?thesis using acknowledge_ok [OF ok] by simp
next
  case (give_up x)
  then show ?thesis
    using ok by (auto simp: fleet_ok_def distinct_map simp del: qview_of_sel
        dest: subsetD [OF set_remove1_subset] intro: inj_on_subset set_remove1_subset)
next
  case (collect net)
  then show ?thesis
    using ok queue_only_ok [OF ok PopResult_steps, of unmr net] result_calls_hold(2)
    by (simp add: fleet_ok_def del: qview_of_sel)
next
  case (boot net1 net2 nets)
  then show ?thesis using rescue_ok [OF ok, of "2 * Minute"] by (simp add: startup_rescue_def)
next
  case (cleanup net1 net2 nets)
  then show ?thesis
    using rescue_ok [OF ok, of stuckTaskThreshold] by (simp add: startStuckTaskCleanup_def stuckTaskThreshold_def)
next
  case (janitor net1 net2 nets)
  then show ?thesis using rescue_ok [OF ok patient] by simp
qed

end

sublocale fleet_system \<subseteq> fleet: invariant_system fleet_start fstep fleet_ok
proof
  show "fleet_ok f" if "fleet_start f" for f
    using that steps.start_invar by (simp add: fleet_ok_def fleet_start_def)
  show "fleet_ok f'" if "fleet_ok f" "fstep f f'" for f f'
    using fstep_ok that by blast
qed

context fleet_system
begin

lemma fleet_run:
  assumes "fleet_start f" and "fstep\<^sup>*\<^sup>* f f'"
  shows "qsteps (fl_queue f) (fl_queue f')"
  using assms(2)
proof (induction rule: rtranclp_induct)
  case (step g h)
  have "fleet_ok g" using assms(1) step(1) by (rule fleet.reachable_invar)
  with step(2,3) show ?case using fstep_ok by (blast intro: rtranclp_trans)
qed simp

lemma fleet_once:
  assumes "fleet_start f" and "fstep\<^sup>*\<^sup>* f f'"
  shows "distinct (map (FR_TaskId \<circ> fst) (fl_running f'))"
    and "\<And>t p. (t, p) \<in> set (fl_running f') \<Longrightarrow> FR_TaskId t \<in> raw_id unm ` set (q_processing (Q (fl_queue f')))"
proof -
  have ok: "fleet_ok f'" using assms by (rule fleet.reachable_invar)
  then show "distinct (map (FR_TaskId \<circ> fst) (fl_running f'))" by (simp add: fleet_ok_def)
  fix t p assume "(t, p) \<in> set (fl_running f')"
  then have "working unm (fl_now f') (Q (fl_queue f')) (t, p)" "good mar unm (fl_queue f')"
    using ok by (auto simp: fleet_ok_def simp del: qview_of_sel)
  from working_entry [OF this] show "FR_TaskId t \<in> raw_id unm ` set (q_processing (Q (fl_queue f')))"
    by (metis imageI)
qed

lemma empty_fleet:
  assumes "queue_typed (view d0)" and "q_entries (Q d0) = []" and "0 \<le> now0" and "Unix now0 \<le> max_unix"
  shows "fleet_start \<lparr>fl_now = now0, fl_running = [], fl_queue = d0\<rparr>"
  using assms by (simp add: fleet_start_def drained_def)

lemma from_empty:
  assumes "queue_typed (view d0)" and "q_entries (Q d0) = []" and "0 \<le> now0" and "Unix now0 \<le> max_unix"
    and run: "fstep\<^sup>*\<^sup>* \<lparr>fl_now = now0, fl_running = [], fl_queue = d0\<rparr> f"
  shows "distinct (map (FR_TaskId \<circ> fst) (fl_running f)) \<and>
      (\<forall>(t, p) \<in> set (fl_running f). FR_TaskId t \<in> raw_id unm ` set (q_processing (Q (fl_queue f))))"
    and "qsteps d0 (fl_queue f)"
  using fleet_once [OF empty_fleet [OF assms(1-4)] run] fleet_run [OF empty_fleet [OF assms(1-4)] run]
  by (auto simp del: qview_of_sel)

end

lemma fleet_systemI:
  "redis_server S view \<Longrightarrow> protojson_codec mar unm \<Longrightarrow> 2 * Minute \<le> jt \<Longrightarrow> fleet_system S view mar unm jt"
  by (simp add: fleet_system_def fleet_system_axioms_def queue_clientI)

interpretation one_task: fleet_system memory_server "\<lambda>ks. ks" mar1 unm1 "\<lambda>_ _. False" "\<lambda>_. None" "\<lambda>_. None" "30 * Minute"
  by (intro fleet_systemI memory.redis_server_axioms example_codec) simp

section \<open>Two passes at once\<close>

text \<open>What happens to a single entry: a pass that takes it for stuck moves it, and the next pop returns it.\<close>

context redis_server
begin

lemma rescue_then_pop:
  assumes typed: "queue_typed (view d)" and q: "q_tasks (Q d) = []" "q_processing (Q d) = [raw]"
    and t: "unm raw = Some t" "FR_TaskId t \<noteq> []" and st: "stuck unm st now timeout raw"
  defines "d1 \<equiv> snd (rescue_loop S unm st (Unix now) (quot timeout Second) [] [raw] 0 d)"
  defines "x \<equiv> PopTask (Some S) unm now Delivered Delivered d1"
  shows "fst x = Inr t" and "queue_typed (view (snd x))"
    and "q_tasks (Q (snd x)) = []" and "q_processing (Q (snd x)) = [raw]"
proof -
  have d1: "d1 = snd (rescueScript S [KeyTaskProcessingQueue, KeyTaskQueue, KeyTaskStartedHash] [raw, FR_TaskId t] d)"
    using t st by (simp add: d1_def stuck_def)
  have q1: "queue_typed (view d1)" "q_tasks (Q d1) = [raw]" "q_processing (Q d1) = []"
    unfolding d1 rescueScript_effect(2) [OF typed]
    by (simp_all add: rescueScript_effect(3) [OF typed] rescue_view_def q del: qview_of_sel)
  define d2 where "d2 = snd (S d1 (BRPOPLPUSH KeyTaskQueue KeyTaskProcessingQueue))"
  have d2: "queue_typed (view d2)" "Q d2 = pop_view (Q d1)" using pop_effect [OF q1(1)] by (simp_all add: d2_def)
  have x: "x = (Inr t, snd (S d2 (HSET KeyTaskStartedHash (FR_TaskId t) (FormatInt (Unix now)))))"
    using t by (simp add: x_def PopTask_def pop_effect [OF q1(1)] q1 d2_def del: qview_of_sel)
  show "fst x = Inr t" and "queue_typed (view (snd x))"
    using mark_effect(2) [OF d2(1)] by (simp_all add: x)
  show "q_tasks (Q (snd x)) = []" and "q_processing (Q (snd x)) = [raw]"
    unfolding x snd_conv mark_effect(1) [OF d2(1)] d2(2) by (simp_all add: pop_view_def q1 del: qview_of_sel)
qed

end

section \<open>Properties\<close>


text \<open>
  Time passes, the scheduler pushes a task, a crawler takes it, and 90 seconds later another crawler
  starts and looks for stuck tasks; the task is still with the first one.
\<close>

definition fleet0 :: "keyspace fleet" where
  "fleet0 = \<lparr>fl_now = 0, fl_running = [], fl_queue = empty_keyspace\<rparr>"

definition fleet1 :: "keyspace fleet" where
  "fleet1 = fleet0\<lparr>fl_queue := snd (PushTask (Some memory_server) mar1 Delivered (Some req1) empty_keyspace)\<rparr>"

definition fleet2 :: "keyspace fleet" where
  "fleet2 = fleet1\<lparr>fl_running := [(req1, 0)],
     fl_queue := snd (PopTask (Some memory_server) unm1 0 Delivered Delivered (fl_queue fleet1))\<rparr>"

definition fleet3 :: "keyspace fleet" where
  "fleet3 = fleet2\<lparr>fl_now := 90 * Second\<rparr>"

definition fleet4 :: "keyspace fleet" where
  "fleet4 = fleet3\<lparr>fl_queue :=
     startup_rescue (Some memory_server) unm1 (90 * Second) Delivered Delivered [] (fl_queue fleet3)\<rparr>"

abbreviation (input) fleet_example :: "keyspace fleet \<Rightarrow> keyspace fleet \<Rightarrow> bool" where
  "fleet_example \<equiv> fleet_step memory_server mar1 unm1 (\<lambda>_ _. False) (\<lambda>_. None) (\<lambda>_. None) (30 * Minute)"

lemma fleet_example_run: "fleet_example\<^sup>*\<^sup>* fleet0 fleet4"
proof -
  have pop: "PopTask (Some memory_server) unm1 0 Delivered Delivered (fl_queue fleet1) = (Inr req1, fl_queue fleet2)"
  proof (rule prod_eqI)
    show "fst (PopTask (Some memory_server) unm1 0 Delivered Delivered (fl_queue fleet1)) = fst (Inr req1, fl_queue fleet2)"
      unfolding fst_conv by code_simp
  qed (simp add: fleet2_def)
  have "fleet_example fleet0 fleet1"
    using fleet_step.dispatch [of req1 memory_server mar1 unm1 _ _ _ _ fleet0 Delivered]
    by (simp add: fleet0_def fleet1_def)
  moreover have "fleet_example fleet1 fleet2"
    using fleet_step.take_task [of memory_server unm1 fleet1 Delivered req1 "fl_queue fleet2"] pop
    by (simp add: fleet0_def fleet1_def fleet2_def)
  moreover have "fleet_example fleet2 fleet3"
    using fleet_step.wait [of fleet2 "90 * Second"]
    by (simp add: fleet0_def fleet1_def fleet2_def fleet3_def Unix_def max_unix_def
        task_lifetime_def taskTimeout_def redisOperationTimeout_def)
  moreover have "fleet_example fleet3 fleet4"
    using fleet_step.boot [of memory_server mar1 unm1 _ _ _ _ fleet3 Delivered Delivered "[]"]
    by (simp add: fleet3_def fleet4_def)
  ultimately show ?thesis by (meson converse_rtranclp_into_rtranclp rtranclp.rtrancl_refl)
qed




text \<open>
  C39. The passes above are single steps. When two of them overlap, a task can be crawled twice: both have
  read the start records of a stuck task, the first hands it back, a crawler takes it, and the second
  hands it back again, because the script looks for the entry and not for its start; another crawler
  takes it too.
\<close>

theorem overlapping_passes_hand_out_a_running_task:
  assumes "redis_server S view" and "queue_typed (view d)"
    and "q_tasks (qview_of (view d)) = []" and "q_processing (qview_of (view d)) = [raw]"
    and "unm raw = Some t" and "FR_TaskId t \<noteq> []" and "stuck unm (q_started (qview_of (view d))) now timeout raw"
  shows "let pass = (\<lambda>d'. snd (rescue_loop S unm (q_started (qview_of (view d))) (Unix now) (quot timeout Second) [] [raw] 0 d'));
             (first, d1) = PopTask (Some S) unm now Delivered Delivered (pass d);
             (second, d2) = PopTask (Some S) unm now Delivered Delivered (pass d1)
         in first = Inr t \<and> second = Inr t"
proof -
  note step = redis_server.rescue_then_pop [OF assms(1), where unm = unm and t = t, OF _ _ _ assms(5,6,7)]
  from step(2,3,4) [OF assms(2-4)] step(1) [OF assms(2-4)] step(1) [OF step(2,3,4) [OF assms(2-4)]]
  show ?thesis by (simp add: Let_def case_prod_unfold)
qed

theorem overlapping_passes_hand_out_a_running_task_witness:
  "let pass = (\<lambda>d'. snd (rescue_loop memory_server unm1 [(''1001'', FormatInt 100)] 2000 600 [] [raw1] 0 d'));
       (first, d1) = PopTask (Some memory_server) unm1 (2000 * Second) Delivered Delivered (pass (busy_ks (FormatInt 100)));
       (second, d2) = PopTask (Some memory_server) unm1 (2000 * Second) Delivered Delivered (pass d1)
   in first = Inr req1 \<and> second = Inr req1"
proof -
  have "stuck unm1 [(''1001'', FormatInt 100)] (2000 * Second) (600 * Second) raw1"
    by (simp add: stuck_def timed_out_def Sscanf_d_FormatInt Unix_def)
  then show ?thesis
    using overlapping_passes_hand_out_a_running_task [OF memory.redis_server_axioms, of "busy_ks (FormatInt 100)" raw1
        unm1 req1 "2000 * Second" "600 * Second"]
    by (simp add: Unix_def)
qed

end
