(* ===== verification/Config.thy ===== *)
theory Config
  imports Complex_Main GoStd
begin

text \<open>
  The configuration, \<^verbatim>\<open>internal/config/config.go\<close>: defaults, the file, and the environment on top.

  Arguments stand for what the code does not own: \<open>getenv\<close> is \<^verbatim>\<open>os.Getenv\<close> (empty for a missing
  variable), \<open>vp\<close> is \<^verbatim>\<open>viper.GetString\<close>, the file system and the JSON codec are arguments of \<open>Load\<close>, the
  database driver's reader and printer of addresses are \<open>dsn_driver\<close>. The texts of durations and of
  floating point numbers are read by the arguments \<open>P_Duration\<close> and \<open>P_Float\<close> (\<^verbatim>\<open>time.ParseDuration\<close>,
  \<^verbatim>\<open>strconv.ParseFloat\<close>); a float is a real number.

  The lemmas show that a loaded configuration always has its signing secrets, and that the custom
  JSON of durations is read back.
\<close>

section \<open>The settings\<close>

record AppConfig =
  A_Env :: string
  A_LogLevel :: string
  A_HTTPAddr :: string
  A_ScheduleInterval :: duration
  A_NewItemDuration :: duration
  A_GuestIdleTimeout :: duration
  A_GuestHeartbeat :: duration
  A_MaxTasksPerUser :: int
  A_MaxItemsPerTask :: int
  A_WorkerPoolSize :: int
  A_QueueCapacity :: int
  A_JWTSecret :: string
  A_RateLimit :: real
  A_RateBurst :: real
  A_QueueBatchSize :: int
  A_DedupWindow :: int
  A_ProxyCooldown :: duration
  A_ProxyFailureThreshold :: int
  A_ProxyAutoSwitch :: bool
  A_MaxTasks :: int
  A_JanitorInterval :: duration
  A_JanitorTimeout :: duration

record RedisConfig =
  R_Addr :: string
  R_Password :: string

record BrowserConfig =
  B_BinPath :: string
  B_ProxyURL :: string
  B_Headless :: bool
  B_MaxConcurrency :: int
  B_MaxFetchCount :: int
  B_PageTimeout :: duration
  B_DebugScreenshot :: bool
  B_ScreenshotTimeout :: duration

record EmailConfig =
  E_SMTPHost :: string
  E_SMTPPort :: int
  E_SMTPUser :: string
  E_SMTPPass :: string
  E_FromEmail :: string

record SecurityConfig =
  S_JWTSecret :: string
  S_InviteCode :: string

record Config =
  C_App :: AppConfig
  C_MySQL_DSN :: string
  C_Redis :: RedisConfig
  C_Browser :: BrowserConfig
  C_Email :: EmailConfig
  C_Security :: SecurityConfig

definition default_app :: AppConfig where
  "default_app =
     \<lparr>A_Env = ''local'', A_LogLevel = ''info'', A_HTTPAddr = '':8081'', A_ScheduleInterval = 5 * Minute,
      A_NewItemDuration = Hour, A_GuestIdleTimeout = 10 * Minute, A_GuestHeartbeat = 5 * Minute,
      A_MaxTasksPerUser = 3, A_MaxItemsPerTask = 300, A_WorkerPoolSize = 50, A_QueueCapacity = 1000,
      A_JWTSecret = ''dev_secret_change_me'', A_RateLimit = 3, A_RateBurst = 5, A_QueueBatchSize = 100,
      A_DedupWindow = 3600, A_ProxyCooldown = 10 * Minute, A_ProxyFailureThreshold = 10, A_ProxyAutoSwitch = False,
      A_MaxTasks = 500, A_JanitorInterval = 10 * Minute, A_JanitorTimeout = 30 * Minute\<rparr>"

definition default_browser :: BrowserConfig where
  "default_browser =
     \<lparr>B_BinPath = [], B_ProxyURL = [], B_Headless = True, B_MaxConcurrency = 3, B_MaxFetchCount = 50,
      B_PageTimeout = 2 * Minute, B_DebugScreenshot = False, B_ScreenshotTimeout = 15 * Second\<rparr>"

definition default_email :: EmailConfig where
  "default_email =
     \<lparr>E_SMTPHost = ''smtp.gmail.com'', E_SMTPPort = 587, E_SMTPUser = [], E_SMTPPass = [], E_FromEmail = []\<rparr>"

definition getDefaultConfig :: Config where
  "getDefaultConfig =
     \<lparr>C_App = default_app,
      C_MySQL_DSN = ''root:password@tcp(localhost:3306)/goodshunter?parseTime=true&loc=Local'',
      C_Redis = \<lparr>R_Addr = ''localhost:6379'', R_Password = []\<rparr>,
      C_Browser = default_browser, C_Email = default_email,
      C_Security = \<lparr>S_JWTSecret = ''dev_secret_change_me'', S_InviteCode = []\<rparr>\<rparr>"

section \<open>Defaults for what the file leaves out\<close>

definition or_default :: "'a \<Rightarrow> 'a \<Rightarrow> 'a \<Rightarrow> 'a" where
  "or_default zero d x = (if x = zero then d else x)"

definition app_defaults :: "AppConfig \<Rightarrow> AppConfig" where
  "app_defaults a =
     a\<lparr>A_Env := or_default [] (A_Env default_app) (A_Env a),
       A_LogLevel := or_default [] (A_LogLevel default_app) (A_LogLevel a),
       A_HTTPAddr := or_default [] (A_HTTPAddr default_app) (A_HTTPAddr a),
       A_ScheduleInterval := or_default 0 (A_ScheduleInterval default_app) (A_ScheduleInterval a),
       A_NewItemDuration := or_default 0 (A_NewItemDuration default_app) (A_NewItemDuration a),
       A_GuestIdleTimeout := or_default 0 (A_GuestIdleTimeout default_app) (A_GuestIdleTimeout a),
       A_GuestHeartbeat := or_default 0 (A_GuestHeartbeat default_app) (A_GuestHeartbeat a),
       A_MaxTasksPerUser := or_default 0 (A_MaxTasksPerUser default_app) (A_MaxTasksPerUser a),
       A_MaxItemsPerTask := or_default 0 300 (A_MaxItemsPerTask a),
       A_WorkerPoolSize := or_default 0 (A_WorkerPoolSize default_app) (A_WorkerPoolSize a),
       A_QueueCapacity := or_default 0 (A_QueueCapacity default_app) (A_QueueCapacity a),
       A_RateLimit := or_default 0 (A_RateLimit default_app) (A_RateLimit a),
       A_RateBurst := or_default 0 (A_RateBurst default_app) (A_RateBurst a),
       A_QueueBatchSize := or_default 0 (A_QueueBatchSize default_app) (A_QueueBatchSize a),
       A_DedupWindow := or_default 0 (A_DedupWindow default_app) (A_DedupWindow a),
       A_ProxyCooldown := or_default 0 (A_ProxyCooldown default_app) (A_ProxyCooldown a),
       A_ProxyFailureThreshold := or_default 0 (A_ProxyFailureThreshold default_app) (A_ProxyFailureThreshold a),
       A_MaxTasks := or_default 0 (A_MaxTasks default_app) (A_MaxTasks a),
       A_JanitorInterval := or_default 0 (A_JanitorInterval default_app) (A_JanitorInterval a),
       A_JanitorTimeout := or_default 0 (A_JanitorTimeout default_app) (A_JanitorTimeout a)\<rparr>"

definition browser_defaults :: "BrowserConfig \<Rightarrow> BrowserConfig" where
  "browser_defaults b =
     b\<lparr>B_MaxConcurrency := or_default 0 (B_MaxConcurrency default_browser) (B_MaxConcurrency b),
       B_MaxFetchCount := or_default 0 (B_MaxFetchCount default_browser) (B_MaxFetchCount b),
       B_PageTimeout := or_default 0 (B_PageTimeout default_browser) (B_PageTimeout b),
       B_ScreenshotTimeout := or_default 0 (B_ScreenshotTimeout default_browser) (B_ScreenshotTimeout b)\<rparr>"

text \<open>The two secrets: each takes the other one when it is missing, the default when both are.\<close>

definition secret_defaults :: "Config \<Rightarrow> Config" where
  "secret_defaults cfg =
     (let sec = (if S_JWTSecret (C_Security cfg) \<noteq> [] then S_JWTSecret (C_Security cfg)
                 else if A_JWTSecret (C_App cfg) \<noteq> [] then A_JWTSecret (C_App cfg)
                 else S_JWTSecret (C_Security getDefaultConfig));
          invite = or_default [] (S_InviteCode (C_Security getDefaultConfig)) (S_InviteCode (C_Security cfg));
          app = or_default [] sec (A_JWTSecret (C_App cfg))
      in cfg\<lparr>C_Security := (C_Security cfg)\<lparr>S_JWTSecret := sec, S_InviteCode := invite\<rparr>,
             C_App := (C_App cfg)\<lparr>A_JWTSecret := app\<rparr>\<rparr>)"

definition applyDefaults :: "Config \<Rightarrow> Config" where
  "applyDefaults cfg =
     (let cfg1 = secret_defaults (cfg\<lparr>C_App := app_defaults (C_App cfg)\<rparr>)
      in cfg1\<lparr>C_Browser := browser_defaults (C_Browser cfg1),
              C_Email := (C_Email cfg1)\<lparr>E_SMTPPort := or_default 0 587 (E_SMTPPort (C_Email cfg1))\<rparr>\<rparr>)"

section \<open>The environment\<close>

record parsers =
  P_Duration :: "string \<Rightarrow> duration option"
  P_Float :: "string \<Rightarrow> real option"

definition ParseBool :: "string \<Rightarrow> bool option" where
  "ParseBool s =
     (if s \<in> {''1'', ''t'', ''T'', ''TRUE'', ''true'', ''True''} then Some True
      else if s \<in> {''0'', ''f'', ''F'', ''FALSE'', ''false'', ''False''} then Some False
      else None)"

text \<open>A variable that is empty or does not parse leaves the setting as it is.\<close>

definition env_string :: "string \<Rightarrow> string \<Rightarrow> string" where
  "env_string v old = (if v \<noteq> [] then v else old)"

definition env_parsed :: "(string \<Rightarrow> 'a option) \<Rightarrow> string \<Rightarrow> 'a \<Rightarrow> 'a" where
  "env_parsed parse v old = (if v \<noteq> [] then (case parse v of None \<Rightarrow> old | Some x \<Rightarrow> x) else old)"

definition parse_int :: "string \<Rightarrow> int option" where
  "parse_int v = (case Atoi v of (i, None) \<Rightarrow> Some i | _ \<Rightarrow> None)"

definition app_overrides :: "parsers \<Rightarrow> (string \<Rightarrow> string) \<Rightarrow> AppConfig \<Rightarrow> AppConfig" where
  "app_overrides P getenv a =
     a\<lparr>A_Env := env_string (getenv ''APP_ENV'') (A_Env a),
       A_LogLevel := env_string (getenv ''APP_LOG_LEVEL'') (A_LogLevel a),
       A_HTTPAddr := env_string (getenv ''APP_HTTP_ADDR'') (A_HTTPAddr a),
       A_ScheduleInterval := env_parsed (P_Duration P) (getenv ''APP_SCHEDULE_INTERVAL'') (A_ScheduleInterval a),
       A_NewItemDuration := env_parsed (P_Duration P) (getenv ''APP_NEW_ITEM_DURATION'') (A_NewItemDuration a),
       A_GuestIdleTimeout := env_parsed (P_Duration P) (getenv ''APP_GUEST_IDLE_TIMEOUT'') (A_GuestIdleTimeout a),
       A_GuestHeartbeat := env_parsed (P_Duration P) (getenv ''APP_GUEST_HEARTBEAT'') (A_GuestHeartbeat a),
       A_MaxTasksPerUser := env_parsed parse_int (getenv ''APP_MAX_TASKS_PER_USER'') (A_MaxTasksPerUser a),
       A_MaxItemsPerTask := env_parsed parse_int (getenv ''APP_MAX_ITEMS_PER_TASK'') (A_MaxItemsPerTask a),
       A_WorkerPoolSize := env_parsed parse_int (getenv ''APP_WORKER_POOL_SIZE'') (A_WorkerPoolSize a),
       A_QueueCapacity := env_parsed parse_int (getenv ''APP_QUEUE_CAPACITY'') (A_QueueCapacity a),
       A_RateLimit := env_parsed (P_Float P) (getenv ''APP_RATE_LIMIT'') (A_RateLimit a),
       A_RateBurst := env_parsed (P_Float P) (getenv ''APP_RATE_BURST'') (A_RateBurst a),
       A_QueueBatchSize := env_parsed parse_int (getenv ''APP_QUEUE_BATCH_SIZE'') (A_QueueBatchSize a),
       A_DedupWindow := env_parsed parse_int (getenv ''APP_DEDUP_WINDOW'') (A_DedupWindow a),
       A_ProxyCooldown := env_parsed (P_Duration P) (getenv ''PROXY_COOLDOWN'') (A_ProxyCooldown a),
       A_ProxyFailureThreshold := env_parsed parse_int (getenv ''PROXY_FAILURE_THRESHOLD'') (A_ProxyFailureThreshold a),
       A_ProxyAutoSwitch := env_parsed ParseBool (getenv ''PROXY_AUTO_SWITCH'') (A_ProxyAutoSwitch a),
       A_MaxTasks := env_parsed parse_int (getenv ''MAX_TASKS'') (A_MaxTasks a),
       A_JanitorInterval := env_parsed (P_Duration P) (getenv ''JANITOR_INTERVAL'') (A_JanitorInterval a),
       A_JanitorTimeout := env_parsed (P_Duration P) (getenv ''JANITOR_TIMEOUT'') (A_JanitorTimeout a)\<rparr>"

definition secret_overrides :: "(string \<Rightarrow> string) \<Rightarrow> (string \<Rightarrow> string) \<Rightarrow> Config \<Rightarrow> Config" where
  "secret_overrides getenv vp cfg =
     (let v = vp ''jwt_secret'';
          cfg1 = (if v \<noteq> [] then cfg\<lparr>C_Security := (C_Security cfg)\<lparr>S_JWTSecret := v\<rparr>, C_App := (C_App cfg)\<lparr>A_JWTSecret := v\<rparr>\<rparr>
                  else cfg)
      in cfg1\<lparr>C_Security := (C_Security cfg1)\<lparr>S_InviteCode :=
           env_string (vp ''invite_code'') (env_string (getenv ''APP_INVITE_CODE'') (S_InviteCode (C_Security cfg1)))\<rparr>\<rparr>)"

subsection \<open>The database address\<close>

record mysql_Config =
  D_User :: string
  D_Passwd :: string
  D_Net :: string
  D_Addr :: string
  D_DBName :: string
  D_Params :: "(string \<times> string) list"

record dsn_driver =
  dd_ParseDSN :: "string \<Rightarrow> mysql_Config option"
  dd_FormatDSN :: "mysql_Config \<Rightarrow> string"

definition fallback_dsn :: mysql_Config where
  "fallback_dsn = \<lparr>D_User = ''root'', D_Passwd = [], D_Net = ''tcp'', D_Addr = ''localhost:3306'', D_DBName = ''goodshunter'',
     D_Params = [(''parseTime'', ''true''), (''loc'', ''Local'')]\<rparr>"

definition parseMySQLDSN :: "dsn_driver \<Rightarrow> string \<Rightarrow> mysql_Config" where
  "parseMySQLDSN drv dsn =
     (if dsn = [] then fallback_dsn
      else case dd_ParseDSN drv dsn of None \<Rightarrow> fallback_dsn | Some parsed \<Rightarrow> parsed)"

definition hasAnyEnv :: "(string \<Rightarrow> string) \<Rightarrow> string list \<Rightarrow> bool" where
  "hasAnyEnv getenv keys \<longleftrightarrow> (\<exists>key \<in> set keys. getenv key \<noteq> [])"

definition getenvDefault :: "(string \<Rightarrow> string) \<Rightarrow> string \<Rightarrow> string \<Rightarrow> string \<Rightarrow> string" where
  "getenvDefault getenv envKey fallbackAddr defaultValue =
     (if getenv envKey \<noteq> [] then getenv envKey
      else if fallbackAddr = [] then defaultValue
      else if CHR '':'' \<in> set fallbackAddr
      then (let parts = Split (CHR '':'') fallbackAddr
            in if length parts = 2 \<and> parts ! 1 \<noteq> [] then parts ! 1 else defaultValue)
      else defaultValue)"

definition db_address :: "(string \<Rightarrow> string) \<Rightarrow> (string \<Rightarrow> string) \<Rightarrow> string \<Rightarrow> string" where
  "db_address getenv vp addr =
     (if vp ''db_host'' \<noteq> [] then vp ''db_host'' @ '':'' @ getenvDefault getenv ''DB_PORT'' addr ''3306''
      else if getenv ''DB_PORT'' \<noteq> []
      then (if CHR '':'' \<in> set addr then hd (Split (CHR '':'') addr) else addr) @ '':'' @ getenv ''DB_PORT''
      else addr)"

definition dsn_override :: "dsn_driver \<Rightarrow> (string \<Rightarrow> string) \<Rightarrow> (string \<Rightarrow> string) \<Rightarrow> string \<Rightarrow> string" where
  "dsn_override drv getenv vp dsn =
     (if getenv ''DB_DSN'' \<noteq> [] then getenv ''DB_DSN''
      else if hasAnyEnv getenv [''DB_HOST'', ''DB_PORT'', ''DB_USER'', ''DB_PASSWORD'', ''DB_NAME''] \<or>
              vp ''db_host'' \<noteq> [] \<or> vp ''db_password'' \<noteq> []
      then (let parsed = parseMySQLDSN drv dsn
            in dd_FormatDSN drv
                 (parsed\<lparr>D_Addr := db_address getenv vp (D_Addr parsed),
                         D_User := env_string (getenv ''DB_USER'') (D_User parsed),
                         D_Passwd := env_string (vp ''db_password'') (D_Passwd parsed),
                         D_DBName := env_string (getenv ''DB_NAME'') (D_DBName parsed)\<rparr>))
      else dsn)"

definition browser_overrides ::
  "parsers \<Rightarrow> (string \<Rightarrow> string) \<Rightarrow> (string \<Rightarrow> string) \<Rightarrow> BrowserConfig \<Rightarrow> BrowserConfig"
where
  "browser_overrides P getenv vp b =
     b\<lparr>B_BinPath := env_string (vp ''chrome_bin'') (B_BinPath b),
       B_ProxyURL := (if getenv ''HTTP_PROXY'' \<noteq> [] then getenv ''HTTP_PROXY''
                      else env_string (getenv ''BROWSER_PROXY_URL'') (B_ProxyURL b)),
       B_Headless := env_parsed ParseBool (getenv ''BROWSER_HEADLESS'') (B_Headless b),
       B_MaxConcurrency := env_parsed parse_int (getenv ''BROWSER_MAX_CONCURRENCY'') (B_MaxConcurrency b),
       B_MaxFetchCount := env_parsed parse_int (getenv ''BROWSER_MAX_FETCH_COUNT'') (B_MaxFetchCount b),
       B_PageTimeout := env_parsed (P_Duration P) (getenv ''BROWSER_PAGE_TIMEOUT'') (B_PageTimeout b),
       B_DebugScreenshot := env_parsed ParseBool (getenv ''BROWSER_DEBUG_SCREENSHOT'') (B_DebugScreenshot b),
       B_ScreenshotTimeout := env_parsed (P_Duration P) (getenv ''BROWSER_SCREENSHOT_TIMEOUT'') (B_ScreenshotTimeout b)\<rparr>"

definition email_overrides :: "(string \<Rightarrow> string) \<Rightarrow> (string \<Rightarrow> string) \<Rightarrow> EmailConfig \<Rightarrow> EmailConfig" where
  "email_overrides getenv vp e =
     e\<lparr>E_SMTPHost := env_string (getenv ''SMTP_HOST'') (E_SMTPHost e),
       E_SMTPPort := env_parsed parse_int (getenv ''SMTP_PORT'') (E_SMTPPort e),
       E_SMTPUser := env_string (getenv ''SMTP_USER'') (E_SMTPUser e),
       E_SMTPPass := env_string (vp ''smtp_pass'') (E_SMTPPass e),
       E_FromEmail := env_string (getenv ''SMTP_FROM'') (E_FromEmail e)\<rparr>"

definition redis_overrides :: "(string \<Rightarrow> string) \<Rightarrow> RedisConfig \<Rightarrow> RedisConfig" where
  "redis_overrides vp r =
     r\<lparr>R_Addr := env_string (vp ''redis_addr'') (R_Addr r),
       R_Password := env_string (vp ''redis_password'') (R_Password r)\<rparr>"

definition applyEnvOverrides ::
  "parsers \<Rightarrow> dsn_driver \<Rightarrow> (string \<Rightarrow> string) \<Rightarrow> (string \<Rightarrow> string) \<Rightarrow> Config \<Rightarrow> Config"
where
  "applyEnvOverrides P drv getenv vp cfg =
     (let cfg1 = secret_overrides getenv vp (cfg\<lparr>C_App := app_overrides P getenv (C_App cfg)\<rparr>)
      in cfg1\<lparr>C_MySQL_DSN := dsn_override drv getenv vp (C_MySQL_DSN cfg1),
              C_Redis := redis_overrides vp (C_Redis cfg1),
              C_Browser := browser_overrides P getenv vp (C_Browser cfg1),
              C_Email := email_overrides getenv vp (C_Email cfg1)\<rparr>)"

section \<open>Loading and saving\<close>

text \<open>
  The file: \<open>None\<close> when it does not exist, otherwise its contents or an error. \<open>unmarshal\<close> is the JSON
  decoder into an empty configuration.
\<close>

datatype config_error = ReadFile | ParseFile | MarshalConfig | WriteFile | BadDuration string

definition config_path :: "string list \<Rightarrow> string" where
  "config_path args = (case args of p # ps \<Rightarrow> if p \<noteq> [] then p else ''configs/config.json'' | [] \<Rightarrow> ''configs/config.json'')"

definition Load ::
  "parsers \<Rightarrow> dsn_driver \<Rightarrow> (string \<Rightarrow> string) \<Rightarrow> (string \<Rightarrow> string) \<Rightarrow> (string \<Rightarrow> Config option) \<Rightarrow>
   (string \<Rightarrow> string option option) \<Rightarrow> string list \<Rightarrow> config_error + Config"
where
  "Load P drv getenv vp unmarshal file args =
     (case file (config_path args) of
        None \<Rightarrow> Inr (applyEnvOverrides P drv getenv vp getDefaultConfig)
      | Some None \<Rightarrow> Inl ReadFile
      | Some (Some data) \<Rightarrow>
          (case unmarshal data of
             None \<Rightarrow> Inl ParseFile
           | Some cfg \<Rightarrow> Inr (applyEnvOverrides P drv getenv vp (applyDefaults cfg))))"

definition LoadOrDefault ::
  "parsers \<Rightarrow> dsn_driver \<Rightarrow> (string \<Rightarrow> string) \<Rightarrow> (string \<Rightarrow> string) \<Rightarrow> (string \<Rightarrow> Config option) \<Rightarrow>
   (string \<Rightarrow> string option option) \<Rightarrow> string list \<Rightarrow> Config"
where
  "LoadOrDefault P drv getenv vp unmarshal file args =
     (case Load P drv getenv vp unmarshal file args of
        Inl e \<Rightarrow> applyEnvOverrides P drv getenv vp getDefaultConfig
      | Inr cfg \<Rightarrow> cfg)"

text \<open>\<open>write\<close> says whether the file could be written.\<close>

definition Save :: "(Config \<Rightarrow> string option) \<Rightarrow> (string \<Rightarrow> string \<Rightarrow> bool) \<Rightarrow> string \<Rightarrow> Config \<Rightarrow> config_error option" where
  "Save marshal write path cfg =
     (case marshal cfg of
        None \<Rightarrow> Some MarshalConfig
      | Some data \<Rightarrow> if write path data then None else Some WriteFile)"

subsection \<open>Durations in JSON\<close>

text \<open>
  The six durations that are texts in the file, beside the other settings. \<open>decode\<close> reads both from the
  data, the other settings into the given ones; \<open>encode\<close> writes them.
\<close>

record duration_texts =
  T_ScheduleInterval :: string
  T_NewItemDuration :: string
  T_GuestIdleTimeout :: string
  T_GuestHeartbeat :: string
  T_JanitorInterval :: string
  T_JanitorTimeout :: string

definition read_duration :: "parsers \<Rightarrow> string \<Rightarrow> string \<Rightarrow> duration \<Rightarrow> config_error + duration" where
  "read_duration P name text old =
     (if text = [] then Inr old else case P_Duration P text of None \<Rightarrow> Inl (BadDuration name) | Some d \<Rightarrow> Inr d)"

definition UnmarshalJSON ::
  "parsers \<Rightarrow> (string \<Rightarrow> AppConfig \<Rightarrow> (duration_texts \<times> AppConfig) option) \<Rightarrow> string \<Rightarrow> AppConfig \<Rightarrow> config_error + AppConfig"
where
  "UnmarshalJSON P decode data a0 =
     (case decode data a0 of
        None \<Rightarrow> Inl ParseFile
      | Some (aux, a) \<Rightarrow>
     (case read_duration P ''schedule_interval'' (T_ScheduleInterval aux) (A_ScheduleInterval a) of Inl e \<Rightarrow> Inl e | Inr d1 \<Rightarrow>
     (case read_duration P ''new_item_duration'' (T_NewItemDuration aux) (A_NewItemDuration a) of Inl e \<Rightarrow> Inl e | Inr d2 \<Rightarrow>
     (case read_duration P ''guest_idle_timeout'' (T_GuestIdleTimeout aux) (A_GuestIdleTimeout a) of Inl e \<Rightarrow> Inl e | Inr d3 \<Rightarrow>
     (case read_duration P ''guest_heartbeat'' (T_GuestHeartbeat aux) (A_GuestHeartbeat a) of Inl e \<Rightarrow> Inl e | Inr d4 \<Rightarrow>
     (case read_duration P ''janitor_interval'' (T_JanitorInterval aux) (A_JanitorInterval a) of Inl e \<Rightarrow> Inl e | Inr d5 \<Rightarrow>
     (case read_duration P ''janitor_timeout'' (T_JanitorTimeout aux) (A_JanitorTimeout a) of Inl e \<Rightarrow> Inl e | Inr d6 \<Rightarrow>
        Inr (a\<lparr>A_ScheduleInterval := d1, A_NewItemDuration := d2, A_GuestIdleTimeout := d3, A_GuestHeartbeat := d4,
               A_JanitorInterval := d5, A_JanitorTimeout := d6\<rparr>))))))))"

definition duration_texts_of :: "(duration \<Rightarrow> string) \<Rightarrow> AppConfig \<Rightarrow> duration_texts" where
  "duration_texts_of str a =
     \<lparr>T_ScheduleInterval = str (A_ScheduleInterval a), T_NewItemDuration = str (A_NewItemDuration a),
      T_GuestIdleTimeout = str (A_GuestIdleTimeout a), T_GuestHeartbeat = str (A_GuestHeartbeat a),
      T_JanitorInterval = str (A_JanitorInterval a), T_JanitorTimeout = str (A_JanitorTimeout a)\<rparr>"

definition MarshalJSON :: "(duration \<Rightarrow> string) \<Rightarrow> (duration_texts \<Rightarrow> AppConfig \<Rightarrow> string option) \<Rightarrow> AppConfig \<Rightarrow> string option" where
  "MarshalJSON str encode a = encode (duration_texts_of str a) a"

section \<open>What holds of a loaded configuration\<close>

lemma applyDefaults_secrets:
  "S_JWTSecret (C_Security (applyDefaults cfg)) \<noteq> [] \<and> A_JWTSecret (C_App (applyDefaults cfg)) \<noteq> []"
  by (simp add: applyDefaults_def secret_defaults_def getDefaultConfig_def or_default_def Let_def)

lemma or_default_idem [simp]: "or_default z d (or_default z d x) = or_default z d x"
  by (simp add: or_default_def)

lemma app_defaults_idem [simp]: "app_defaults (app_defaults a) = app_defaults a"
  by (simp add: app_defaults_def)

lemma browser_defaults_idem [simp]: "browser_defaults (browser_defaults b) = browser_defaults b"
  by (simp add: browser_defaults_def)

lemma app_defaults_secret: "app_defaults (a\<lparr>A_JWTSecret := x\<rparr>) = (app_defaults a)\<lparr>A_JWTSecret := x\<rparr>"
  by (simp add: app_defaults_def)

lemma secret_defaults_idem: "secret_defaults (secret_defaults cfg) = secret_defaults cfg"
  by (simp add: secret_defaults_def Let_def getDefaultConfig_def or_default_def)

lemma overrides_secrets:
  "S_JWTSecret (C_Security (applyEnvOverrides P drv getenv vp cfg)) =
     (if vp ''jwt_secret'' \<noteq> [] then vp ''jwt_secret'' else S_JWTSecret (C_Security cfg))"
  "A_JWTSecret (C_App (applyEnvOverrides P drv getenv vp cfg)) =
     (if vp ''jwt_secret'' \<noteq> [] then vp ''jwt_secret'' else A_JWTSecret (C_App cfg))"
  by (simp_all add: applyEnvOverrides_def secret_overrides_def app_overrides_def Let_def)

text \<open>
  A loaded configuration can sign tokens. Whatever the file holds and whatever is set in the
  environment, a configuration that loads has a signing secret, both in the security settings
  and in the application settings; a secret of the environment wins over the file in both places;
  without it and without a file the secret is the published development secret; and the variant
  that does not fail always returns such a configuration.
\<close>

theorem loaded_config_has_signing_secrets:
  "(case Load P drv getenv vp unmarshal file args of
      Inl e \<Rightarrow> file (config_path args) \<noteq> None
    | Inr cfg \<Rightarrow>
        S_JWTSecret (C_Security cfg) \<noteq> [] \<and> A_JWTSecret (C_App cfg) \<noteq> [] \<and>
        (if vp ''jwt_secret'' \<noteq> []
         then S_JWTSecret (C_Security cfg) = vp ''jwt_secret'' \<and> A_JWTSecret (C_App cfg) = vp ''jwt_secret''
         else if file (config_path args) = None then S_JWTSecret (C_Security cfg) = ''dev_secret_change_me'' else True)) \<and>
   S_JWTSecret (C_Security (LoadOrDefault P drv getenv vp unmarshal file args)) \<noteq> []"
  using applyDefaults_secrets
  by (simp add: LoadOrDefault_def Load_def overrides_secrets split: option.split sum.split)
    (simp add: getDefaultConfig_def default_app_def)

text \<open>
  The settings of the application survive their JSON form. When the codec returns what it wrote
  (the six durations as texts, the other settings as they are) and durations are read back from their
  texts, decoding an encoded record gives the same record.
\<close>

lemma app_config_round_trip:
  assumes "\<And>x. P_Duration P (str x) = Some x" and "\<And>x. str x \<noteq> []"
    and "encode (duration_texts_of str a) a = Some data"
    and "\<And>b. decode data b = Some (duration_texts_of str a,
           a\<lparr>A_ScheduleInterval := A_ScheduleInterval b, A_NewItemDuration := A_NewItemDuration b,
             A_GuestIdleTimeout := A_GuestIdleTimeout b, A_GuestHeartbeat := A_GuestHeartbeat b,
             A_JanitorInterval := A_JanitorInterval b, A_JanitorTimeout := A_JanitorTimeout b\<rparr>)"
  shows "MarshalJSON str encode a = Some data \<and> UnmarshalJSON P decode data b = Inr a"
  using assms by (simp add: MarshalJSON_def UnmarshalJSON_def read_duration_def duration_texts_of_def)

end
