(* ===== verification/Auth.thy ===== *)
theory Auth
  imports Database
begin

text \<open>
  Accounts: the handlers of \<^verbatim>\<open>internal/api/auth/auth.go\<close> (registration with an invite code, login,
  guest login, verification and re-sending of the code) and the middlewares of
  \<^verbatim>\<open>internal/api/middleware\<close> that check a token and mark a guest as active.

  The password hash, the token signature and the random bytes come from packages and are fields
  of the handler record; a request body that does not bind is \<open>None\<close>. Log lines are left out.

  The lemmas show that the way from registration over verification to an authenticated request
  works and is the only one to a token of a password account, and the limits of the codes.
\<close>

section \<open>The handler\<close>

record claims =
  C_Subject :: string
  C_ExpiresAt :: gotime
  C_IssuedAt :: gotime
  C_Role :: string

record 'w Handler =
  H_db :: "'w database"
  H_jwtSecret :: string
  H_mailer :: "('w \<Rightarrow> string \<Rightarrow> string \<Rightarrow> bool \<times> 'w) option"
  H_inviteCode :: string
  H_bcrypt :: "string \<Rightarrow> string option"
  H_compare :: "string \<Rightarrow> string \<Rightarrow> bool"
  H_sign :: "string \<Rightarrow> claims \<Rightarrow> string option"
  H_rand :: "'w \<Rightarrow> nat \<Rightarrow> string option"
  H_ul :: "string \<Rightarrow> string"

definition NewHandler :: "'w Handler \<Rightarrow> string \<Rightarrow> string \<Rightarrow> 'w Handler" where
  "NewHandler deps jwtSecret inviteCode = deps\<lparr>H_jwtSecret := jwtSecret, H_inviteCode := TrimSpace inviteCode\<rparr>"

text \<open>A response: its status and the error or message text, or a token.\<close>

datatype http = Reply nat string | RetryAfter int | Token string

abbreviation (input) StatusOK :: nat where "StatusOK \<equiv> 200"
abbreviation (input) StatusBadRequest :: nat where "StatusBadRequest \<equiv> 400"
abbreviation (input) StatusUnauthorized :: nat where "StatusUnauthorized \<equiv> 401"
abbreviation (input) StatusForbidden :: nat where "StatusForbidden \<equiv> 403"
abbreviation (input) StatusConflict :: nat where "StatusConflict \<equiv> 409"
abbreviation (input) StatusInternalServerError :: nat where "StatusInternalServerError \<equiv> 500"

record registerRequest =
  RR_Email :: string
  RR_Password :: string
  RR_InviteCode :: string

record loginRequest =
  LR_Email :: string
  LR_Password :: string

section \<open>Codes and tokens\<close>

definition fmtUint :: "nat \<Rightarrow> string" where
  "fmtUint v = FormatUint v"

definition generateCode :: "(nat \<Rightarrow> string option) \<Rightarrow> int \<Rightarrow> string option" where
  "generateCode rand n =
     (if n \<le> 0 then None
      else case rand (nat n) of
             None \<Rightarrow> None
           | Some buf \<Rightarrow> Some (map (\<lambda>b. char_of (48 + byte b mod 10)) buf))"

definition letters :: string where
  "letters = ''abcdefghijklmnopqrstuvwxyzABCDEFGHIJKLMNOPQRSTUVWXYZ0123456789''"

definition randomString :: "(nat \<Rightarrow> string option) \<Rightarrow> nat \<Rightarrow> string" where
  "randomString rand n =
     (case rand n of
        None \<Rightarrow> ''guest''
      | Some b \<Rightarrow> map (\<lambda>x. letters ! (byte x mod length letters)) b)"

datatype code_error = GenerateFailed | SaveFailed | MailerMissing | SendFailed

fun code_error_text :: "code_error \<Rightarrow> string" where
  "code_error_text GenerateFailed = ''generate code failed''"
| "code_error_text SaveFailed = ''save code failed''"
| "code_error_text MailerMissing = ''email notifier not configured''"
| "code_error_text SendFailed = ''send verification failed''"

text \<open>\<^verbatim>\<open>Save\<close> writes every column of the row with the user's id.\<close>

definition save_user :: "User \<Rightarrow> sql" where
  "save_user u = UpdateUsers (\<lambda>x. U_ID x = U_ID u) (\<lambda>_. u)"

definition issueCode :: "'w Handler \<Rightarrow> gotime \<Rightarrow> User \<Rightarrow> 'w \<Rightarrow> code_error option \<times> 'w" where
  "issueCode h now user w =
     (case generateCode (H_rand h w) 6 of
        None \<Rightarrow> (Some GenerateFailed, w)
      | Some code \<Rightarrow>
          let user1 = user\<lparr>U_VerifyCode := code, U_VerifyCodeExpiresAt := Some (now + 10 * Minute),
                          U_VerifyCodeSentAt := Some now\<rparr>
          in case H_db h w (save_user user1) of
               (Some (RAffected n), w1) \<Rightarrow>
                 (case H_mailer h of
                    None \<Rightarrow> (Some MailerMissing, w1)
                  | Some send \<Rightarrow>
                      (case send w1 (U_Email user1) code of
                         (True, w2) \<Rightarrow> (None, w2)
                       | (False, w2) \<Rightarrow> (Some SendFailed, w2)))
             | (_, w1) \<Rightarrow> (Some SaveFailed, w1))"

text \<open>\<^verbatim>\<open>NewNumericDate\<close> keeps whole seconds.\<close>

definition NewNumericDate :: "gotime \<Rightarrow> gotime" where
  "NewNumericDate t = t div Second * Second"

definition issueToken :: "'w Handler \<Rightarrow> gotime \<Rightarrow> nat \<Rightarrow> string \<Rightarrow> string option" where
  "issueToken h now userID role =
     H_sign h (H_jwtSecret h)
       \<lparr>C_Subject = fmtUint userID, C_ExpiresAt = NewNumericDate (now + 24 * Hour),
        C_IssuedAt = NewNumericDate now, C_Role = role\<rparr>"

section \<open>The endpoints\<close>

definition normalize_email :: "'w Handler \<Rightarrow> string \<Rightarrow> string" where
  "normalize_email h e = TrimSpace (ToLower (H_ul h) e)"

definition find_user :: "'w Handler \<Rightarrow> string \<Rightarrow> 'w \<Rightarrow> sql_reply option \<times> 'w" where
  "find_user h email w = H_db h w (FindUsers (\<lambda>u. U_Email u = email))"

definition new_user :: "gotime \<Rightarrow> string \<Rightarrow> string \<Rightarrow> string \<Rightarrow> bool \<Rightarrow> User" where
  "new_user now email hash role verified =
     \<lparr>U_ID = 0, U_Email = email, U_Password = hash, U_Role = role, U_IsVerified = verified,
      U_VerifyCode = [], U_VerifyCodeExpiresAt = None, U_VerifyCodeSentAt = None, U_CreatedAt = now\<rparr>"

definition Register :: "'w Handler \<Rightarrow> gotime \<Rightarrow> registerRequest option \<Rightarrow> 'w \<Rightarrow> http \<times> 'w" where
  "Register h now body w =
     (case body of
        None \<Rightarrow> (Reply StatusBadRequest ''bad request'', w)
      | Some req \<Rightarrow>
          if H_inviteCode h = [] then (Reply StatusForbidden ''registration disabled'', w)
          else if TrimSpace (RR_InviteCode req) \<noteq> H_inviteCode h
          then (Reply StatusForbidden ''invalid invite code'', w)
          else let email = normalize_email h (RR_Email req) in
            (case find_user h email w of
               (Some (RUsers (existing # _)), w1) \<Rightarrow>
                 if U_IsVerified existing then (Reply StatusConflict ''email already exists'', w1)
                 else (case issueCode h now existing w1 of
                         (Some e, w2) \<Rightarrow> (Reply StatusInternalServerError (code_error_text e), w2)
                       | (None, w2) \<Rightarrow> (Reply StatusOK ''verification code sent'', w2))
             | (Some (RUsers []), w1) \<Rightarrow>
                 (case H_bcrypt h (RR_Password req) of
                    None \<Rightarrow> (Reply StatusInternalServerError ''hash password failed'', w1)
                  | Some hash \<Rightarrow>
                      let user = new_user now email hash ''admin'' False in
                      (case H_db h w1 (InsertUser user) of
                         (Some (RId i), w2) \<Rightarrow>
                           (case issueCode h now (user\<lparr>U_ID := i\<rparr>) w2 of
                              (Some e, w3) \<Rightarrow>
                                (Reply StatusInternalServerError (code_error_text e),
                                 snd (H_db h w3 (DeleteUsers (\<lambda>u. U_ID u = i))))
                            | (None, w3) \<Rightarrow> (Reply StatusOK ''verification code sent'', w3))
                       | (_, w2) \<Rightarrow> (Reply StatusInternalServerError ''create user failed'', w2)))
             | (_, w1) \<Rightarrow> (Reply StatusInternalServerError ''query user failed'', w1)))"

definition Login :: "'w Handler \<Rightarrow> gotime \<Rightarrow> loginRequest option \<Rightarrow> 'w \<Rightarrow> http \<times> 'w" where
  "Login h now body w =
     (case body of
        None \<Rightarrow> (Reply StatusBadRequest ''bad request'', w)
      | Some req \<Rightarrow>
          let email = normalize_email h (LR_Email req) in
          (case find_user h email w of
             (r, w1) \<Rightarrow>
               (case first_user r of
                  None \<Rightarrow> (Reply StatusUnauthorized ''invalid credentials'', w1)
                | Some user \<Rightarrow>
                    if \<not> U_IsVerified user then (Reply StatusForbidden ''email not verified'', w1)
                    else if \<not> H_compare h (U_Password user) (LR_Password req)
                    then (Reply StatusUnauthorized ''invalid credentials'', w1)
                    else (case issueToken h now (U_ID user) (U_Role user) of
                            None \<Rightarrow> (Reply StatusInternalServerError ''sign token failed'', w1)
                          | Some token \<Rightarrow> (Token token, w1)))))"

definition Logout :: http where
  "Logout = Reply StatusOK ''logged out''"

definition demoEmail :: string where
  "demoEmail = ''demo@goodshunter.com''"

definition guest_token :: "'w Handler \<Rightarrow> gotime \<Rightarrow> nat \<Rightarrow> string \<Rightarrow> 'w \<Rightarrow> http \<times> 'w" where
  "guest_token h now userID role w =
     (case issueToken h now userID role of
        None \<Rightarrow> (Reply StatusInternalServerError ''sign token failed'', w)
      | Some token \<Rightarrow> (Token token, w))"

definition GuestLogin :: "'w Handler \<Rightarrow> gotime \<Rightarrow> 'w \<Rightarrow> http \<times> 'w" where
  "GuestLogin h now w =
     (case find_user h demoEmail w of
        (Some (RUsers []), w1) \<Rightarrow>
          (case H_bcrypt h (randomString (H_rand h w1) 12) of
             None \<Rightarrow> (Reply StatusInternalServerError ''hash password failed'', w1)
           | Some hash \<Rightarrow>
               (case H_db h w1 (InsertUser (new_user now demoEmail hash ''guest'' True)) of
                  (Some (RId i), w2) \<Rightarrow> guest_token h now i ''guest'' w2
                | (_, w2) \<Rightarrow> (Reply StatusInternalServerError ''create guest failed'', w2)))
      | (Some (RUsers (user # _)), w1) \<Rightarrow> guest_token h now (U_ID user) (U_Role user) w1
      | (_, w1) \<Rightarrow> (Reply StatusInternalServerError ''query guest failed'', w1))"

definition VerifyEmail :: "'w Handler \<Rightarrow> gotime \<Rightarrow> (string \<times> string) option \<Rightarrow> 'w \<Rightarrow> http \<times> 'w" where
  "VerifyEmail h now body w =
     (case body of
        None \<Rightarrow> (Reply StatusBadRequest ''bad request'', w)
      | Some (reqEmail, reqCode) \<Rightarrow>
          (case find_user h (normalize_email h reqEmail) w of
             (r, w1) \<Rightarrow>
               (case first_user r of
                  None \<Rightarrow> (Reply StatusUnauthorized ''invalid code'', w1)
                | Some user \<Rightarrow>
                    if U_IsVerified user then (Reply StatusOK ''already verified'', w1)
                    else if U_VerifyCode user = [] \<or> U_VerifyCode user \<noteq> TrimSpace reqCode
                    then (Reply StatusUnauthorized ''invalid code'', w1)
                    else if (case U_VerifyCodeExpiresAt user of None \<Rightarrow> True | Some e \<Rightarrow> e < now)
                    then (Reply StatusUnauthorized ''code expired'', w1)
                    else (case H_db h w1 (save_user (user\<lparr>U_IsVerified := True, U_VerifyCode := [],
                                 U_VerifyCodeExpiresAt := None, U_VerifyCodeSentAt := None\<rparr>)) of
                            (Some (RAffected n), w2) \<Rightarrow> (Reply StatusOK ''verified'', w2)
                          | (_, w2) \<Rightarrow> (Reply StatusInternalServerError ''verify failed'', w2)))))"

definition ResendCode :: "'w Handler \<Rightarrow> gotime \<Rightarrow> string option \<Rightarrow> 'w \<Rightarrow> http \<times> 'w" where
  "ResendCode h now body w =
     (case body of
        None \<Rightarrow> (Reply StatusBadRequest ''bad request'', w)
      | Some reqEmail \<Rightarrow>
          (case find_user h (normalize_email h reqEmail) w of
             (r, w1) \<Rightarrow>
               (case first_user r of
                  None \<Rightarrow> (Reply StatusUnauthorized ''email not found'', w1)
                | Some user \<Rightarrow>
                    if U_IsVerified user then (Reply StatusBadRequest ''already verified'', w1)
                    else (case U_VerifyCodeSentAt user of
                            Some sent \<Rightarrow>
                              if now - sent < 60 * Second
                              then (RetryAfter (quot (60 * Second - (now - sent)) Second), w1)
                              else (case issueCode h now user w1 of
                                      (Some e, w2) \<Rightarrow> (Reply StatusInternalServerError (code_error_text e), w2)
                                    | (None, w2) \<Rightarrow> (Reply StatusOK ''verification code sent'', w2))
                          | None \<Rightarrow>
                              (case issueCode h now user w1 of
                                 (Some e, w2) \<Rightarrow> (Reply StatusInternalServerError (code_error_text e), w2)
                               | (None, w2) \<Rightarrow> (Reply StatusOK ''verification code sent'', w2))))))"

section \<open>The middlewares\<close>

record gin_context =
  X_userID :: "int option"
  X_role :: "string option"

text \<open>
  The token library checks the signature and the expiry: \<open>parse now secret token\<close> gives the
  claims of a valid token. A rejected request is the error text; otherwise the context the next
  handler sees. \<^verbatim>\<open>EqualFold\<close> with an ASCII word compares without case.
\<close>

definition AuthMiddleware ::
  "(gotime \<Rightarrow> string \<Rightarrow> string \<Rightarrow> claims option) \<Rightarrow> (string \<Rightarrow> string) \<Rightarrow> string \<Rightarrow> gotime \<Rightarrow> string \<Rightarrow> string + gin_context"
where
  "AuthMiddleware parse ul jwtSecret now authHeader =
     (if authHeader = [] then Inl ''missing authorization''
      else let parts = split_once (CHR '' '') authHeader in
        if length parts \<noteq> 2 \<or> map ascii_lower (parts ! 0) \<noteq> ''bearer'' then Inl ''invalid authorization header''
        else (case parse now jwtSecret (parts ! 1) of
                None \<Rightarrow> Inl ''invalid token''
              | Some cl \<Rightarrow>
                  if C_Subject cl = [] then Inl ''invalid token subject''
                  else (case ParseUint 64 (C_Subject cl) of
                          (_, Some e) \<Rightarrow> Inl ''invalid user id''
                        | (uid, None) \<Rightarrow>
                            let role = TrimSpace (ToLower ul (C_Role cl))
                            in Inr \<lparr>X_userID = Some (int64 (int uid)),
                                    X_role = Some (if role = [] then ''admin'' else role)\<rparr>)))"

definition guestActiveKeyPrefix :: string where
  "guestActiveKeyPrefix = ''guest:active:''"

definition GuestActivityMiddleware ::
  "'w redis_conn \<Rightarrow> duration \<Rightarrow> gotime \<Rightarrow> gin_context \<Rightarrow> 'w \<Rightarrow> 'w"
where
  "GuestActivityMiddleware rdb ttl now c w =
     (if X_role c \<noteq> Some ''guest'' then w
      else case X_userID c of
             None \<Rightarrow> w
           | Some userID \<Rightarrow>
               let ttl = (if ttl \<le> 0 then 10 * Minute else ttl);
                   key = guestActiveKeyPrefix @ FormatInt userID
               in snd (rdb now w (SET key ''1'' ttl)))"

text \<open>The requests the service answers, in any order, at any time and with any body.\<close>

inductive auth_step :: "'w Handler \<Rightarrow> 'w \<Rightarrow> 'w \<Rightarrow> bool" for h where
  step_register: "auth_step h w (snd (Register h now body w))"
| step_login: "auth_step h w (snd (Login h now creds w))"
| step_guest: "auth_step h w (snd (GuestLogin h now w))"
| step_verify: "auth_step h w (snd (VerifyEmail h now code w))"
| step_resend: "auth_step h w (snd (ResendCode h now email w))"

section \<open>Codes\<close>

lemma generateCode_digits:
  assumes "generateCode rand n = Some code"
  shows "\<forall>c \<in> set code. is_digit c"
  using assms by (auto simp: generateCode_def is_digit_def split: if_splits option.splits)

lemma generateCode_length:
  assumes "generateCode rand n = Some code" and "\<And>buf. rand (nat n) = Some buf \<Longrightarrow> length buf = nat n"
  shows "int (length code) = n"
  using assms by (auto simp: generateCode_def split: if_splits option.splits)

lemma digits_trimmed:
  assumes "\<forall>c \<in> set s. is_digit c"
  shows "TrimSpace s = s"
proof (cases "s = []")
  case False
  with assms show ?thesis by (intro TrimSpace_printable) simp
qed (simp add: TrimSpace_printable)

lemma admin_role: "TrimSpace (ToLower ul ''admin'') = ''admin''"
  by (subst ToLower_lower, simp add: byte_def) (rule TrimSpace_printable, simp add: printable_def byte_def)

section \<open>Accounts over working services\<close>

text \<open>
  What the handlers rely on: the database answers as documented, the mailer delivers (\<open>inbox\<close> is
  what it delivered), the random source returns as many bytes as asked for, a password matches
  its own hash, and a token the library signed for a numeric subject is accepted with its claims
  until it expires.
\<close>

locale accounts =
  fixes h :: "'w Handler"
    and dbv :: "'w \<Rightarrow> tables"
    and inbox :: "'w \<Rightarrow> (string \<times> string) list"
    and send :: "'w \<Rightarrow> string \<Rightarrow> string \<Rightarrow> bool \<times> 'w"
    and parse :: "gotime \<Rightarrow> string \<Rightarrow> string \<Rightarrow> claims option"
  assumes account_reply: "fst (H_db h w q) = Some (fst (sql_doc q (dbv w)))"
    and account_effect: "dbv (snd (H_db h w q)) = snd (sql_doc q (dbv w))"
    and account_frame: "inbox (snd (H_db h w q)) = inbox w"
    and mailer: "H_mailer h = Some send"
    and delivered: "fst (send w a m)" "inbox (snd (send w a m)) = inbox w @ [(a, m)]" "dbv (snd (send w a m)) = dbv w"
    and random: "\<exists>buf. H_rand h w n = Some buf \<and> length buf = n"
    and hashed: "\<exists>x. H_bcrypt h p = Some x \<and> H_compare h x p"
    and signed: "\<forall>x \<in> set (C_Subject c). is_digit x \<Longrightarrow> \<exists>tok. H_sign h k c = Some tok \<and> (\<forall>t. t < C_ExpiresAt c \<longrightarrow> parse t k tok = Some c)"
begin

lemma code_available:
  "\<exists>code. generateCode (H_rand h w) 6 = Some code \<and> code \<noteq> [] \<and> TrimSpace code = code \<and> length code = 6"
proof -
  obtain buf where buf: "H_rand h w 6 = Some buf" "length buf = 6" using random by blast
  then obtain code where code: "generateCode (H_rand h w) 6 = Some code" "length code = 6"
    by (simp add: generateCode_def)
  then show ?thesis using digits_trimmed [OF generateCode_digits [OF code(1)]] by (intro exI [of _ code]) auto
qed

lemma issueCode_effect:
  "\<exists>code. code \<noteq> [] \<and> TrimSpace code = code \<and> length code = 6 \<and>
     fst (issueCode h now user w) = None \<and>
     inbox (snd (issueCode h now user w)) = inbox w @ [(U_Email user, code)] \<and>
     dbv (snd (issueCode h now user w)) =
       (dbv w)\<lparr>users := update_where (\<lambda>x. U_ID x = U_ID user)
         (\<lambda>_. user\<lparr>U_VerifyCode := code, U_VerifyCodeExpiresAt := Some (now + 10 * Minute),
                    U_VerifyCodeSentAt := Some now\<rparr>) (users (dbv w))\<rparr>"
proof -
  obtain code where code: "generateCode (H_rand h w) 6 = Some code" "code \<noteq> []" "TrimSpace code = code" "length code = 6"
    using code_available by blast
  show ?thesis
    using code delivered
    by (intro exI [of _ code])
      (simp add: issueCode_def save_user_def case_prod_beta account_reply account_effect account_frame mailer Let_def
        split: bool.split)
qed

lemma find_user_effect:
  "fst (find_user h e w) = Some (RUsers (filter (\<lambda>u. U_Email u = e) (users (dbv w))))"
  "dbv (snd (find_user h e w)) = dbv w" "inbox (snd (find_user h e w)) = inbox w"
  by (simp_all add: find_user_def account_reply account_effect account_frame)

lemma Register_new:
  assumes "H_inviteCode h \<noteq> []" and "TrimSpace (RR_InviteCode req) = H_inviteCode h"
    and fresh: "\<forall>u \<in> set (users (dbv w)). U_Email u \<noteq> normalize_email h (RR_Email req)"
    and ids: "\<forall>u \<in> set (users (dbv w)). U_ID u < next_user (dbv w)"
  shows "\<exists>code hash. code \<noteq> [] \<and> TrimSpace code = code \<and> length code = 6 \<and> H_compare h hash (RR_Password req) \<and>
     fst (Register h now (Some req) w) = Reply StatusOK ''verification code sent'' \<and>
     inbox (snd (Register h now (Some req) w)) = inbox w @ [(normalize_email h (RR_Email req), code)] \<and>
     dbv (snd (Register h now (Some req) w)) =
       (dbv w)\<lparr>users := users (dbv w) @
           [(new_user now (normalize_email h (RR_Email req)) hash ''admin'' False)
              \<lparr>U_ID := next_user (dbv w), U_VerifyCode := code,
               U_VerifyCodeExpiresAt := Some (now + 10 * Minute), U_VerifyCodeSentAt := Some now\<rparr>],
         next_user := Suc (next_user (dbv w))\<rparr>"
proof -
  define email where "email = normalize_email h (RR_Email req)"
  obtain hash where hash: "H_bcrypt h (RR_Password req) = Some hash" "H_compare h hash (RR_Password req)"
    using hashed by blast
  define user where "user = (new_user now email hash ''admin'' False)\<lparr>U_ID := next_user (dbv w)\<rparr>"
  define w1 where "w1 = snd (find_user h email w)"
  define w2 where "w2 = snd (H_db h w1 (InsertUser (new_user now email hash ''admin'' False)))"
  have w1: "dbv w1 = dbv w" "inbox w1 = inbox w" by (simp_all add: w1_def find_user_effect)
  have none: "fst (find_user h email w) = Some (RUsers [])"
    using fresh by (simp add: find_user_effect email_def filter_empty_conv)
  have clash: "\<not> (\<exists>x \<in> set (users (dbv w)). U_Email x = email)" using fresh by (auto simp: email_def)
  have ins: "fst (H_db h w1 (InsertUser (new_user now email hash ''admin'' False))) = Some (RId (next_user (dbv w)))"
    using clash by (simp add: account_reply w1 new_user_def)
  have w2: "dbv w2 = (dbv w)\<lparr>users := users (dbv w) @ [user], next_user := Suc (next_user (dbv w))\<rparr>" "inbox w2 = inbox w"
    using clash by (simp_all add: w2_def account_effect account_frame w1 user_def new_user_def)
  obtain code where code: "code \<noteq> []" "TrimSpace code = code" "length code = 6" "fst (issueCode h now user w2) = None"
      "inbox (snd (issueCode h now user w2)) = inbox w2 @ [(U_Email user, code)]"
      "dbv (snd (issueCode h now user w2)) =
        (dbv w2)\<lparr>users := update_where (\<lambda>x. U_ID x = U_ID user)
          (\<lambda>_. user\<lparr>U_VerifyCode := code, U_VerifyCodeExpiresAt := Some (now + 10 * Minute),
                     U_VerifyCodeSentAt := Some now\<rparr>) (users (dbv w2))\<rparr>"
    using issueCode_effect by blast
  have old: "update_where (\<lambda>x. U_ID x = next_user (dbv w)) f (users (dbv w)) = users (dbv w)" for f
    using ids by (auto simp: update_where_def intro!: map_idI)
  have run: "Register h now (Some req) w = (Reply StatusOK ''verification code sent'', snd (issueCode h now user w2))"
    using assms(1,2) code(4)
    by (simp add: Register_def email_def [symmetric] case_prod_beta none w1_def [symmetric] hash Let_def ins
        w2_def [symmetric] user_def [symmetric])
  show ?thesis
    using code hash old
    by (intro exI [of _ code] exI [of _ hash])
      (simp add: run w2 email_def [symmetric] user_def new_user_def update_where_def)
qed

lemma VerifyEmail_effect:
  assumes "filter (\<lambda>u. U_Email u = normalize_email h e) (users (dbv w)) = user # rest" and "\<not> U_IsVerified user"
    and "U_VerifyCode user \<noteq> []" and "TrimSpace code = U_VerifyCode user"
    and "U_VerifyCodeExpiresAt user = Some x" and "now \<le> x"
  shows "fst (VerifyEmail h now (Some (e, code)) w) = Reply StatusOK ''verified''"
    and "dbv (snd (VerifyEmail h now (Some (e, code)) w)) =
      (dbv w)\<lparr>users := update_where (\<lambda>u. U_ID u = U_ID user)
        (\<lambda>_. user\<lparr>U_IsVerified := True, U_VerifyCode := [], U_VerifyCodeExpiresAt := None,
                   U_VerifyCodeSentAt := None\<rparr>) (users (dbv w))\<rparr>"
  using assms
  by (simp_all add: VerifyEmail_def case_prod_beta find_user_effect account_reply account_effect save_user_def)

lemma Login_token:
  assumes "filter (\<lambda>u. U_Email u = normalize_email h (LR_Email req)) (users (dbv w)) = user # rest"
    and "U_IsVerified user" and "H_compare h (U_Password user) (LR_Password req)"
  shows "\<exists>tok. Login h now (Some req) w = (Token tok, snd (find_user h (normalize_email h (LR_Email req)) w)) \<and>
    issueToken h now (U_ID user) (U_Role user) = Some tok"
proof -
  have "\<exists>tok. issueToken h now (U_ID user) (U_Role user) = Some tok"
    using signed [of "\<lparr>C_Subject = fmtUint (U_ID user), C_ExpiresAt = NewNumericDate (now + 24 * Hour),
        C_IssuedAt = NewNumericDate now, C_Role = U_Role user\<rparr>" "H_jwtSecret h"]
    by (auto simp: issueToken_def fmtUint_def FormatUint_digits)
  with assms show ?thesis by (auto simp: Login_def case_prod_beta find_user_effect)
qed

lemma token_accepted:
  assumes "issueToken h now i role = Some tok" and "t < NewNumericDate (now + 24 * Hour)" and "i < 2 ^ 63"
    and "role \<noteq> []" and "TrimSpace (ToLower ul role) = role"
  shows "AuthMiddleware parse ul (H_jwtSecret h) t (''Bearer '' @ tok) = Inr \<lparr>X_userID = Some (int i), X_role = Some role\<rparr>"
proof -
  let ?c = "\<lparr>C_Subject = fmtUint i, C_ExpiresAt = NewNumericDate (now + 24 * Hour),
        C_IssuedAt = NewNumericDate now, C_Role = role\<rparr>"
  have ok: "parse t (H_jwtSecret h) tok = Some ?c"
    using signed [of ?c "H_jwtSecret h"] assms(1,2) by (auto simp: issueToken_def fmtUint_def FormatUint_digits)
  have split: "split_once (CHR '' '') (''Bearer '' @ tok) = [''Bearer'', tok]"
    by (simp add: split_once_def Let_def)
  have low: "map ascii_lower ''Bearer'' = ''bearer''"
    by code_simp
  note low' = low [simplified]
  have "ParseUint 64 (fmtUint i) = (i, None)" using assms(3) by (simp add: fmtUint_def)
  moreover have "int64 (int i) = int i" using assms(3) by simp
  moreover have "fmtUint i \<noteq> []" by (simp add: fmtUint_def)
  ultimately show ?thesis
    using ok assms(4,5)
    unfolding AuthMiddleware_def Let_def split
    by (simp add: low')
qed

lemma lifecycle:
  assumes "H_inviteCode h \<noteq> []" and "TrimSpace (RR_InviteCode req) = H_inviteCode h"
    and fresh: "\<forall>u \<in> set (users (dbv w)). U_Email u \<noteq> normalize_email h (RR_Email req)"
    and ids: "\<forall>u \<in> set (users (dbv w)). U_ID u < next_user (dbv w)" and "next_user (dbv w) < 2 ^ 63"
    and in_time: "tv \<le> now + 10 * Minute" and alive: "t < NewNumericDate (tlog + 24 * Hour)"
  shows "\<exists>code tok w1 w2 w3.
    Register h now (Some req) w = (Reply StatusOK ''verification code sent'', w1) \<and>
    inbox w1 = inbox w @ [(normalize_email h (RR_Email req), code)] \<and> length code = 6 \<and>
    VerifyEmail h tv (Some (RR_Email req, code)) w1 = (Reply StatusOK ''verified'', w2) \<and>
    Login h tlog (Some \<lparr>LR_Email = RR_Email req, LR_Password = RR_Password req\<rparr>) w2 = (Token tok, w3) \<and>
    AuthMiddleware parse ul (H_jwtSecret h) t (''Bearer '' @ tok) =
      Inr \<lparr>X_userID = Some (int (next_user (dbv w))), X_role = Some ''admin''\<rparr>"
proof -
  define email where "email = normalize_email h (RR_Email req)"
  let ?i = "next_user (dbv w)"
  obtain code hash where reg: "code \<noteq> []" "TrimSpace code = code" "length code = 6" "H_compare h hash (RR_Password req)"
      "fst (Register h now (Some req) w) = Reply StatusOK ''verification code sent''"
      "inbox (snd (Register h now (Some req) w)) = inbox w @ [(email, code)]"
      "dbv (snd (Register h now (Some req) w)) =
        (dbv w)\<lparr>users := users (dbv w) @ [(new_user now email hash ''admin'' False)
          \<lparr>U_ID := ?i, U_VerifyCode := code, U_VerifyCodeExpiresAt := Some (now + 10 * Minute),
           U_VerifyCodeSentAt := Some now\<rparr>], next_user := Suc ?i\<rparr>"
    using Register_new [OF assms(1,2) fresh ids, of now] unfolding email_def by blast
  define u1 where "u1 = (new_user now email hash ''admin'' False)\<lparr>U_ID := ?i, U_VerifyCode := code,
    U_VerifyCodeExpiresAt := Some (now + 10 * Minute), U_VerifyCodeSentAt := Some now\<rparr>"
  define u2 where "u2 = u1\<lparr>U_IsVerified := True, U_VerifyCode := [], U_VerifyCodeExpiresAt := None,
    U_VerifyCodeSentAt := None\<rparr>"
  define w1 where "w1 = snd (Register h now (Some req) w)"
  define w2 where "w2 = snd (VerifyEmail h tv (Some (RR_Email req, code)) w1)"
  have old: "filter (\<lambda>u. U_Email u = email) (users (dbv w)) = []"
    using fresh by (simp add: email_def filter_empty_conv)
  have db1: "users (dbv w1) = users (dbv w) @ [u1]" by (simp add: w1_def reg u1_def)
  have f1: "filter (\<lambda>u. U_Email u = normalize_email h (RR_Email req)) (users (dbv w1)) = u1 # []"
    by (simp add: db1 email_def [symmetric] old) (simp add: u1_def new_user_def)
  have u1: "\<not> U_IsVerified u1" "U_VerifyCode u1 \<noteq> []" "TrimSpace code = U_VerifyCode u1"
      "U_VerifyCodeExpiresAt u1 = Some (now + 10 * Minute)" "U_ID u1 = ?i"
    using reg by (simp_all add: u1_def new_user_def)
  note ver = VerifyEmail_effect [OF f1 u1(1-4) in_time]
  have same: "update_where (\<lambda>u. U_ID u = ?i) (\<lambda>_. u2) (users (dbv w)) = users (dbv w)"
    using ids by (auto simp: update_where_def intro!: map_idI)
  have "users (dbv w2) = update_where (\<lambda>u. U_ID u = ?i) (\<lambda>_. u2) (users (dbv w1))"
    using ver(2) by (simp add: w2_def u2_def u1(5))
  then have db2: "users (dbv w2) = users (dbv w) @ [u2]"
    using same u1(5) unfolding db1 by (simp add: update_where_def)
  let ?l = "\<lparr>LR_Email = RR_Email req, LR_Password = RR_Password req\<rparr>"
  have f2: "filter (\<lambda>u. U_Email u = normalize_email h (LR_Email ?l)) (users (dbv w2)) = u2 # []"
    by (simp add: db2 email_def [symmetric] old) (simp add: u2_def u1_def new_user_def)
  have u2: "U_IsVerified u2" "H_compare h (U_Password u2) (LR_Password ?l)" "U_ID u2 = ?i" "U_Role u2 = ''admin''"
    using reg by (simp_all add: u2_def u1_def new_user_def)
  obtain tok where tok: "Login h tlog (Some ?l) w2 = (Token tok, snd (find_user h (normalize_email h (LR_Email ?l)) w2))"
      "issueToken h tlog ?i ''admin'' = Some tok"
    using Login_token [OF f2 u2(1,2), of tlog] u2(3,4) by auto
  have "TrimSpace (ToLower ul ''admin'') = ''admin''"
    by (rule admin_role)
  from token_accepted [OF tok(2) alive assms(5) _ this]
  have "AuthMiddleware parse ul (H_jwtSecret h) t (''Bearer '' @ tok) =
      Inr \<lparr>X_userID = Some (int ?i), X_role = Some ''admin''\<rparr>" by simp
  moreover have "Register h now (Some req) w = (Reply StatusOK ''verification code sent'', w1)"
    using reg(5) by (simp add: w1_def prod_eq_iff)
  moreover have "VerifyEmail h tv (Some (RR_Email req, code)) w1 = (Reply StatusOK ''verified'', w2)"
    using ver(1) by (simp add: w2_def prod_eq_iff)
  moreover have "inbox w1 = inbox w @ [(normalize_email h (RR_Email req), code)]"
    using reg(6) by (simp add: w1_def email_def)
  ultimately show ?thesis using reg(3) tok(1) by blast
qed

lemma issueCode_rows:
  assumes "u \<in> set (users (dbv (snd (issueCode h now user w))))" and "U_IsVerified u" and "\<not> U_IsVerified user"
  shows "u \<in> set (users (dbv w))"
  using issueCode_effect [of now user w] assms by (auto simp: set_update_where split: if_splits)

lemma Login_rows: "dbv (snd (Login h now body w)) = dbv w"
  by (auto simp: Login_def case_prod_beta find_user_effect Let_def split: option.splits)

lemma guest_token_world: "snd (guest_token h now i r w) = w"
  by (simp add: guest_token_def split: option.split)

lemma Register_rows:
  assumes "u \<in> set (users (dbv (snd (Register h now body w))))" and "U_IsVerified u"
  shows "u \<in> set (users (dbv w))"
proof (cases body)
  case (Some req)
  define email where "email = normalize_email h (RR_Email req)"
  obtain hash where hash: "H_bcrypt h (RR_Password req) = Some hash" using hashed by blast
  show ?thesis
    using assms unfolding Some Register_def
    by (auto simp: find_user_effect case_prod_beta hash Let_def account_reply account_effect new_user_def
        split: if_splits list.splits option.splits dest!: issueCode_rows)
qed (use assms in \<open>simp add: Register_def\<close>)

lemma ResendCode_rows:
  assumes "u \<in> set (users (dbv (snd (ResendCode h now body w))))" and "U_IsVerified u"
  shows "u \<in> set (users (dbv w))"
  using assms unfolding ResendCode_def
  by (auto simp: find_user_effect case_prod_beta split: if_splits option.splits dest!: issueCode_rows)

lemma GuestLogin_rows:
  assumes "u \<in> set (users (dbv (snd (GuestLogin h now w))))"
  shows "u \<in> set (users (dbv w)) \<or> U_Email u = demoEmail"
proof -
  obtain hash where hash: "H_bcrypt h p = Some (hash p)" for p using hashed by metis
  show ?thesis
    using assms unfolding GuestLogin_def
    by (auto simp: find_user_effect case_prod_beta hash account_reply account_effect new_user_def guest_token_world
        split: if_splits list.splits option.splits)
qed

lemma VerifyEmail_rows:
  assumes "u \<in> set (users (dbv (snd (VerifyEmail h now body w))))" and "U_IsVerified u" and "u \<notin> set (users (dbv w))"
  shows "\<exists>e code u0 x. body = Some (e, code) \<and> u0 \<in> set (users (dbv w)) \<and> U_Email u0 = normalize_email h e \<and>
    u = u0\<lparr>U_IsVerified := True, U_VerifyCode := [], U_VerifyCodeExpiresAt := None, U_VerifyCodeSentAt := None\<rparr> \<and>
    U_VerifyCode u0 = TrimSpace code \<and> U_VerifyCode u0 \<noteq> [] \<and> U_VerifyCodeExpiresAt u0 = Some x \<and> now \<le> x"
proof -
  obtain e code where body: "body = Some (e, code)"
    using assms by (cases body) (auto simp: VerifyEmail_def)
  define found where "found = filter (\<lambda>u. U_Email u = normalize_email h e) (users (dbv w))"
  obtain u0 rest where found: "found = u0 # rest"
    using assms unfolding body by (cases found) (auto simp: VerifyEmail_def case_prod_beta find_user_effect found_def)
  then have "u0 \<in> set found" by simp
  then have u0: "u0 \<in> set (users (dbv w))" "U_Email u0 = normalize_email h e" by (simp_all add: found_def)
  have first: "filter (\<lambda>u. U_Email u = normalize_email h e) (users (dbv w)) = u0 # rest"
    using found by (simp add: found_def)
  show ?thesis
    using assms u0 unfolding body
    by (auto simp: VerifyEmail_def case_prod_beta find_user_effect first account_reply account_effect save_user_def
        set_update_where split: if_splits option.splits)
qed

end

section \<open>An instance\<close>

text \<open>
  Accounts over a table in memory, a mailbox, passwords kept as they are and tokens that spell out
  the claims, followed by the key. It meets the contract above, which thus can be met.
\<close>

record account_world =
  aw_db :: tables
  aw_inbox :: "(string \<times> string) list"

definition plain_sign :: "string \<Rightarrow> claims \<Rightarrow> string option" where
  "plain_sign k c = Some (C_Subject c @ CHR ''.'' # FormatInt (C_ExpiresAt c) @ CHR ''.'' #
     FormatInt (C_IssuedAt c) @ CHR ''.'' # C_Role c @ k)"

definition read_int :: "string \<Rightarrow> int" where
  "read_int s = (if s \<noteq> [] \<and> hd s = CHR ''-'' then - int (dec_val 0 (tl s)) else int (dec_val 0 s))"

definition plain_parse :: "gotime \<Rightarrow> string \<Rightarrow> string \<Rightarrow> claims option" where
  "plain_parse t k tok =
     (case split_once (CHR ''.'') tok of
        [s, r] \<Rightarrow> (case split_once (CHR ''.'') r of
          [e, r'] \<Rightarrow> (case split_once (CHR ''.'') r' of
            [i, r''] \<Rightarrow>
              if suffix k r'' \<and> t < read_int e
              then Some \<lparr>C_Subject = s, C_ExpiresAt = read_int e, C_IssuedAt = read_int i,
                         C_Role = take (length r'' - length k) r''\<rparr>
              else None
          | _ \<Rightarrow> None) | _ \<Rightarrow> None) | _ \<Rightarrow> None)"

definition plain_send :: "account_world \<Rightarrow> string \<Rightarrow> string \<Rightarrow> bool \<times> account_world" where
  "plain_send w a m = (True, w\<lparr>aw_inbox := aw_inbox w @ [(a, m)]\<rparr>)"

definition plain_handler :: "account_world Handler" where
  "plain_handler = NewHandler
     \<lparr>H_db = \<lambda>w q. (Some (fst (sql_doc q (aw_db w))), w\<lparr>aw_db := snd (sql_doc q (aw_db w))\<rparr>),
      H_jwtSecret = [], H_mailer = Some plain_send, H_inviteCode = [], H_bcrypt = Some, H_compare = (=),
      H_sign = plain_sign, H_rand = \<lambda>w n. Some (replicate n (CHR ''7'')), H_ul = \<lambda>s. s\<rparr> ''k'' ''hunt''"

lemma invite_trimmed: "TrimSpace ''hunt'' = ''hunt''"
  by (rule TrimSpace_printable) (simp add: printable_def byte_def)

lemma read_int_FormatInt: "read_int (FormatInt i) = i"
  by (auto simp: read_int_def FormatInt_def)

lemma dot_not_in_digits: "\<forall>x \<in> set s. is_digit x \<Longrightarrow> CHR ''.'' \<notin> set s" "CHR ''.'' \<notin> set (FormatInt i)"
  by (auto simp: is_digit_def byte_def FormatInt_def dest: FormatUint_digits)

lemma plain_sign_parse:
  assumes "\<forall>x \<in> set (C_Subject c). is_digit x" and "t < C_ExpiresAt c" and "plain_sign k c = Some tok"
  shows "plain_parse t k tok = Some c"
  using assms(2,3)
  by (auto simp: plain_sign_def plain_parse_def split_once_append dot_not_in_digits(1) [OF assms(1)]
      dot_not_in_digits(2) read_int_FormatInt suffix_def)

interpretation plain_accounts: accounts plain_handler aw_db aw_inbox plain_send plain_parse
  by unfold_locales
    (auto simp: plain_handler_def NewHandler_def plain_send_def, metis plain_sign_def plain_sign_parse)

section \<open>Properties\<close>


definition empty_accounts :: account_world where
  "empty_accounts = \<lparr>aw_db = empty_tables, aw_inbox = []\<rparr>"

definition ana :: registerRequest where
  "ana = \<lparr>RR_Email = ''Ana@x.jp'', RR_Password = ''secret'', RR_InviteCode = ''hunt''\<rparr>"



definition bob :: User where
  "bob = (new_user 0 ''bob@x.jp'' ''pw'' ''admin'' False)\<lparr>U_ID := 1, U_VerifyCode := ''123456'',
     U_VerifyCodeExpiresAt := Some (10 * Minute), U_VerifyCodeSentAt := Some 0\<rparr>"

definition bob_registered :: account_world where
  "bob_registered = empty_accounts\<lparr>aw_db := empty_tables\<lparr>users := [bob], next_user := 2\<rparr>\<rparr>"

definition bob_verified :: User where
  "bob_verified = bob\<lparr>U_IsVerified := True, U_VerifyCode := [], U_VerifyCodeExpiresAt := None, U_VerifyCodeSentAt := None\<rparr>"

definition after_code :: account_world where
  "after_code = snd (VerifyEmail plain_handler Minute (Some (''bob@x.jp'', ''123456'')) bob_registered)"

lemma bob_becomes_verified: "bob_verified \<in> set (users (aw_db after_code))"
proof -
  have "normalize_email plain_handler ''bob@x.jp'' = ''bob@x.jp''"
    unfolding normalize_email_def
    by (subst ToLower_lower, simp add: byte_def)
      (rule TrimSpace_printable, simp add: printable_def byte_def)
  moreover have "TrimSpace ''123456'' = ''123456''"
    by (rule TrimSpace_printable) (simp add: printable_def byte_def)
  ultimately have "users (aw_db after_code) = [bob_verified]"
    unfolding after_code_def
    by (subst plain_accounts.VerifyEmail_effect(2) [where user = bob and rest = "[]" and x = "10 * Minute"])
      (simp_all add: bob_registered_def bob_def new_user_def bob_verified_def update_where_def)
  then show ?thesis by simp
qed


section \<open>The limit on sending codes\<close>

text \<open>
  \<^verbatim>\<open>ResendCode\<close> refuses to send within 60 seconds of the last code. \<^verbatim>\<open>Register\<close>, for the same
  address, does not look at that time: it mails another code at once.
\<close>

context accounts
begin

lemma resend_limited:
  assumes "filter (\<lambda>u. U_Email u = normalize_email h e) (users (dbv w)) = user # rest" and "\<not> U_IsVerified user"
    and "U_VerifyCodeSentAt user = Some sent" and "now - sent < 60 * Second"
  shows "inbox (snd (ResendCode h now (Some e) w)) = inbox w"
  using assms by (simp add: ResendCode_def case_prod_beta find_user_effect)

lemma register_resends_without_limit:
  assumes "H_inviteCode h \<noteq> []" and "TrimSpace (RR_InviteCode req) = H_inviteCode h"
    and "filter (\<lambda>u. U_Email u = normalize_email h (RR_Email req)) (users (dbv w)) = user # rest" and "\<not> U_IsVerified user"
  shows "\<exists>code. inbox (snd (Register h now (Some req) w)) = inbox w @ [(U_Email user, code)]"
proof -
  define w1 where "w1 = snd (find_user h (normalize_email h (RR_Email req)) w)"
  have w1: "inbox w1 = inbox w" by (simp add: w1_def find_user_effect)
  from issueCode_effect [of now user w1] obtain code where
    "fst (issueCode h now user w1) = None" "inbox (snd (issueCode h now user w1)) = inbox w1 @ [(U_Email user, code)]"
    by blast
  with assms w1 show ?thesis
    by (intro exI [of _ code]) (simp add: Register_def Let_def case_prod_beta find_user_effect w1_def [symmetric])
qed

end

end
