(* ===== verification/Dedup.thy ===== *)
theory Dedup
  imports RedisTTL "HOL-Library.Word"
begin

text \<open>
  The window of \<^verbatim>\<open>internal/pkg/dedup/dedup.go\<close> in which a URL counts as seen: one Redis key per
  URL, set only when it is missing, with a time to live. The key carries the SHA-256 digest of
  the URL, as \<^verbatim>\<open>crypto/sha256\<close> and \<^verbatim>\<open>encoding/hex\<close> compute it.

  The lemmas show when a URL counts as a duplicate, and that URLs with different digests do not
  disturb each other.
\<close>

unbundle bit_operations_syntax

section \<open>SHA-256\<close>

text \<open>The round constants and the initial state, in decimal.\<close>

definition sha256_k :: "32 word list" where
  "sha256_k =
     [1116352408, 1899447441, 3049323471, 3921009573, 961987163, 1508970993, 2453635748, 2870763221,
      3624381080, 310598401, 607225278, 1426881987, 1925078388, 2162078206, 2614888103, 3248222580,
      3835390401, 4022224774, 264347078, 604807628, 770255983, 1249150122, 1555081692, 1996064986,
      2554220882, 2821834349, 2952996808, 3210313671, 3336571891, 3584528711, 113926993, 338241895,
      666307205, 773529912, 1294757372, 1396182291, 1695183700, 1986661051, 2177026350, 2456956037,
      2730485921, 2820302411, 3259730800, 3345764771, 3516065817, 3600352804, 4094571909, 275423344,
      430227734, 506948616, 659060556, 883997877, 958139571, 1322822218, 1537002063, 1747873779,
      1955562222, 2024104815, 2227730452, 2361852424, 2428436474, 2756734187, 3204031479, 3329325298]"

definition sha256_init :: "32 word list" where
  "sha256_init =
     [1779033703, 3144134277, 1013904242, 2773480762, 1359893119, 2600822924, 528734635, 1541459225]"

definition be_word :: "string \<Rightarrow> 32 word" where
  "be_word bs = foldl (\<lambda>w c. push_bit 8 w OR word_of_nat (byte c)) 0 bs"

definition be_bytes :: "nat \<Rightarrow> nat \<Rightarrow> string" where
  "be_bytes k n = map (\<lambda>i. char_of (n div 256 ^ (k - 1 - i) mod 256)) [0..<k]"

fun chunks :: "nat \<Rightarrow> nat \<Rightarrow> 'a list \<Rightarrow> 'a list list" where
  "chunks n 0 xs = []"
| "chunks n (Suc m) xs = take n xs # chunks n m (drop n xs)"

text \<open>The message, a one bit, zeros, and the length in bits as eight bytes; whole blocks of 64 bytes.\<close>

definition sha256_pad :: "string \<Rightarrow> string" where
  "sha256_pad msg =
     msg @ [CHR 0x80] @ replicate ((119 - length msg mod 64) mod 64) (CHR 0x00) @
     be_bytes 8 (8 * length msg)"

fun sha256_schedule :: "nat \<Rightarrow> 32 word list \<Rightarrow> 32 word list" where
  "sha256_schedule 0 w = w"
| "sha256_schedule (Suc n) w =
     (let t = length w; x = w ! (t - 15); y = w ! (t - 2);
          s0 = word_rotr 7 x XOR word_rotr 18 x XOR drop_bit 3 x;
          s1 = word_rotr 17 y XOR word_rotr 19 y XOR drop_bit 10 y
      in sha256_schedule n (w @ [w ! (t - 16) + s0 + w ! (t - 7) + s1]))"

definition sha256_round :: "32 word list \<Rightarrow> 32 word \<times> 32 word \<Rightarrow> 32 word list" where
  "sha256_round v kw =
     (let a = v ! 0; b = v ! 1; c = v ! 2; d = v ! 3; e = v ! 4; f = v ! 5; g = v ! 6; h = v ! 7;
          t1 = h + (word_rotr 6 e XOR word_rotr 11 e XOR word_rotr 25 e) +
               ((e AND f) XOR (NOT e AND g)) + fst kw + snd kw;
          t2 = (word_rotr 2 a XOR word_rotr 13 a XOR word_rotr 22 a) +
               ((a AND b) XOR (a AND c) XOR (b AND c))
      in [t1 + t2, a, b, c, d + t1, e, f, g])"

definition sha256_block :: "32 word list \<Rightarrow> string \<Rightarrow> 32 word list" where
  "sha256_block h block =
     (let w = sha256_schedule 48 (map be_word (chunks 4 16 block))
      in map2 (+) h (foldl sha256_round h (zip sha256_k w)))"

definition Sum256 :: "string \<Rightarrow> string" where
  "Sum256 msg =
     (let padded = sha256_pad msg
      in concat (map (\<lambda>w. be_bytes 4 (unat w))
           (foldl sha256_block sha256_init (chunks 64 (length padded div 64) padded))))"

definition hex_digit :: "nat \<Rightarrow> char" where
  "hex_digit d = (if d < 10 then char_of (48 + d) else char_of (87 + d))"

definition EncodeToString :: "string \<Rightarrow> string" where
  "EncodeToString bs = concat (map (\<lambda>c. [hex_digit (byte c div 16), hex_digit (byte c mod 16)]) bs)"

section \<open>The deduplicator\<close>

definition dedup_keyPrefix :: string where
  "dedup_keyPrefix = ''goodshunter:dedup:url:''"

definition hashURL :: "string \<Rightarrow> string" where
  "hashURL url = EncodeToString (Sum256 url)"

text \<open>A nil deduplicator, or one without a connection, is \<open>None\<close>.\<close>

type_synonym 'd Deduplicator = "('d ttl_server \<times> duration) option"

definition NewDeduplicator :: "'d ttl_server option \<Rightarrow> duration \<Rightarrow> 'd Deduplicator" where
  "NewDeduplicator rdb ttl =
     (case rdb of None \<Rightarrow> None | Some T \<Rightarrow> Some (T, if ttl \<le> 0 then Hour else ttl))"

datatype dedup_error = ErrSetNX | ErrDel

definition IsDuplicate ::
  "'d Deduplicator \<Rightarrow> outcome \<Rightarrow> gotime \<Rightarrow> string \<Rightarrow> 'd \<Rightarrow> (dedup_error + bool) \<times> 'd"
where
  "IsDuplicate dd net t url d =
     (case dd of
        None \<Rightarrow> (Inr False, d)
      | Some (T, ttl) \<Rightarrow>
          if url = [] then (Inr False, d)
          else (let key = dedup_keyPrefix @ hashURL url in
                case client_call net (\<lambda>d. T t d (SETNX key ''1'' ttl)) d of
                  (Some (RInt n), d') \<Rightarrow> (Inr (\<not> n = 1), d')
                | (_, d') \<Rightarrow> (Inl ErrSetNX, d')))"

definition Delete ::
  "'d Deduplicator \<Rightarrow> outcome \<Rightarrow> gotime \<Rightarrow> string \<Rightarrow> 'd \<Rightarrow> dedup_error option \<times> 'd"
where
  "Delete dd net t url d =
     (case dd of
        None \<Rightarrow> (None, d)
      | Some (T, ttl) \<Rightarrow>
          if url = [] then (None, d)
          else (let key = dedup_keyPrefix @ hashURL url in
                case client_call net (\<lambda>d. T t d (TDEL key)) d of
                  (Some (RInt n), d') \<Rightarrow> (None, d')
                | (_, d') \<Rightarrow> (Some ErrDel, d')))"

section \<open>When a URL is a duplicate\<close>

definition url_key :: "string \<Rightarrow> string" where
  "url_key url = dedup_keyPrefix @ hashURL url"

definition seen_at :: "gotime \<Rightarrow> string \<Rightarrow> tkeyspace \<Rightarrow> bool" where
  "seen_at t url ks \<longleftrightarrow> live t ks (url_key url) \<noteq> RNone"

context ttl_redis
begin

lemma IsDuplicate_effect:
  assumes "url \<noteq> []"
  shows "fst (IsDuplicate (Some (T, ttl)) Delivered t url d) = Inr (seen_at t url (tview d))"
    and "tview (snd (IsDuplicate (Some (T, ttl)) Delivered t url d)) =
           (if seen_at t url (tview d) then tview d
            else (tview d)(url_key url := (RStr ''1'', expire_at t ttl)))"
  using assms by (auto simp: IsDuplicate_def redis_simps seen_at_def url_key_def Let_def)

lemma Delete_effect:
  assumes "url \<noteq> []"
  shows "fst (Delete (Some (T, ttl)) Delivered t url d) = None"
    and "tview (snd (Delete (Some (T, ttl)) Delivered t url d)) = (tview d)(url_key url := (RNone, None))"
  using assms by (auto simp: Delete_def redis_simps url_key_def Let_def)

end

section \<open>Properties\<close>

text \<open>
  A URL is new the first time, a duplicate from then on until its time to live is over, and
  new again afterwards (a repeated call does not extend the window); no key but the one of its
  digest changes, and deleting the URL makes it new at once.
\<close>

theorem duplicate_exactly_within_window:
  assumes "ttl_redis T tview" and "url \<noteq> []" and "\<not> seen_at t1 url (tview d)" and "t1 \<le> t2" and "t2 \<le> t3"
    and "Millisecond \<le> ttl" and "Millisecond dvd ttl"
  shows "let dd = NewDeduplicator (Some T) ttl; (first, d1) = IsDuplicate dd Delivered t1 url d;
             (second, d2) = IsDuplicate dd Delivered t2 url d1
         in first = Inr False \<and> second = Inr (t2 < t1 + ttl) \<and>
            (t2 < t1 + ttl \<longrightarrow> fst (IsDuplicate dd Delivered t3 url d2) = Inr (t3 < t1 + ttl)) \<and>
            (\<forall>k. k \<noteq> url_key url \<longrightarrow> tview d2 k = tview d k) \<and>
            fst (IsDuplicate dd Delivered t2 url (snd (Delete dd Delivered t2 url d1))) = Inr False"
proof -
  have ttl: "NewDeduplicator (Some T) ttl = Some (T, ttl)" using assms(6) by (simp add: NewDeduplicator_def)
  have exp: "expire_at t1 ttl = Some (t1 + ttl)" using assms(6,7) by (auto simp: expire_at_def)
  show ?thesis
    using assms(3-5)
    by (simp add: ttl Let_def prod.case_eq_if ttl_redis.IsDuplicate_effect [OF assms(1)] assms(2)
        ttl_redis.Delete_effect [OF assms(1)] seen_at_def exp not_le)
qed

theorem duplicate_exactly_within_window_witness:
  "let dd = NewDeduplicator (Some memory_ttl) 1000000000; (first, d1) = IsDuplicate dd Delivered 5 ''u'' empty_tks
   in first = Inr False \<and> fst (IsDuplicate dd Delivered 6 ''u'' d1) = Inr True"
  using duplicate_exactly_within_window [OF ttl_memory.ttl_redis_axioms, of "''u''" 5 empty_tks 6 6 1000000000]
  by (simp add: Let_def prod.case_eq_if seen_at_def)

end
