(* ===== verification/Server.thy ===== *)
theory Server
  imports Auth MercariURL RedisQueue Dedup
begin

text \<open>
  The HTTP API of \<^verbatim>\<open>internal/api/server.go\<close>: creating, listing, changing and deleting tasks, the
  timeline of found items, deleting an account, and the demonstration data of \<^verbatim>\<open>seed.go\<close>.

  The interfaces \<^verbatim>\<open>TaskStore\<close>, \<^verbatim>\<open>TaskScheduler\<close> and \<^verbatim>\<open>Deduper\<close> of the source are fields of the server
  record. A path parameter is a string; how the database compares it with a numeric column is
  the field \<open>V_same_id\<close>. A body that does not bind is \<open>None\<close>. Log lines, metrics and the routing
  library are left out.
\<close>

section \<open>The server\<close>

datatype tx_cmd = Begin | Commit | Rollback

record 'w Server =
  V_db :: "'w database"
  V_tx :: "'w \<Rightarrow> tx_cmd \<Rightarrow> bool \<times> 'w"
  V_rdb :: "'w redis_conn"
  V_redisQueue :: "'w Client"
  V_net :: "'w \<Rightarrow> outcome"
  V_countTasks :: "int \<Rightarrow> 'w \<Rightarrow> int option \<times> 'w"
  V_createTask :: "gotime \<Rightarrow> Task \<Rightarrow> 'w \<Rightarrow> nat option \<times> 'w"
  V_startTask :: "Task \<Rightarrow> 'w \<Rightarrow> 'w"
  V_isDuplicate :: "gotime \<Rightarrow> string \<Rightarrow> 'w \<Rightarrow> (dedup_error + bool) \<times> 'w"
  V_dedupDelete :: "gotime \<Rightarrow> string \<Rightarrow> 'w \<Rightarrow> dedup_error option \<times> 'w"
  V_same_id :: "string \<Rightarrow> nat \<Rightarrow> bool"
  V_ul :: "string \<Rightarrow> string"
  V_bcrypt :: "string \<Rightarrow> string option"
  V_MaxTasksPerUser :: int
  V_NewItemDuration :: duration
  V_GuestHeartbeat :: duration

record createTaskRequest =
  CT_Keyword :: string
  CT_MinPrice :: int
  CT_MaxPrice :: int
  CT_Platform :: int
  CT_Sort :: string
  CT_Status :: string
  CT_Type :: string

record updateTaskRequest =
  UT_Keyword :: "string option"
  UT_MinPrice :: "int option"
  UT_MaxPrice :: "int option"
  UT_Platform :: "int option"
  UT_Sort :: "string option"

record taskResponse =
  TR_ID :: nat
  TR_UserID :: nat
  TR_Keyword :: string
  TR_MinPrice :: int
  TR_MaxPrice :: int
  TR_Platform :: int
  TR_SortBy :: int
  TR_Status :: string
  TR_NotifyEnabled :: bool
  TR_Type :: string

record timelineItem =
  TL_ID :: string
  TL_SourceID :: string
  TL_Title :: string
  TL_Price :: int
  TL_ImageURL :: string
  TL_ItemURL :: string
  TL_CreatedAt :: gotime
  TL_IsNew :: bool

datatype api_reply =
    Fail nat string
  | Created nat
  | SkippedDuplicate
  | TaskDeleted string
  | AccountDeleted
  | TaskList "taskResponse list"
  | NotifySet bool
  | StatusSet string
  | Updated
  | Timeline "timelineItem list" "(string \<times> string) option"
  | ConfigReply int int int
  | HealthOk

text \<open>The replies to a guest, in UTF-8.\<close>

definition demo_no_create :: string where
  "demo_no_create = bytes [230, 188, 148, 231, 164, 186, 230, 168, 161, 229, 188, 143, 228, 184, 139, 231, 166, 129,
     230, 173, 162, 229, 136, 155, 229, 187, 186, 47, 229, 136, 160, 233, 153, 164, 228, 187, 187, 229, 138, 161]"

definition demo_no_update :: string where
  "demo_no_update = bytes [230, 188, 148, 231, 164, 186, 230, 168, 161, 229, 188, 143, 228, 184, 139, 231, 166, 129,
     230, 173, 162, 228, 191, 174, 230, 148, 185, 228, 187, 187, 229, 138, 161]"

definition demo_no_close :: string where
  "demo_no_close = bytes [230, 188, 148, 231, 164, 186, 232, 180, 166, 229, 143, 183, 228, 184, 141, 229, 143, 175,
     230, 179, 168, 233, 148, 128]"

section \<open>Reading a request\<close>

definition getUserID :: "gin_context \<Rightarrow> int" where
  "getUserID c = (case X_userID c of None \<Rightarrow> 0 | Some i \<Rightarrow> i)"

definition getUserRole :: "gin_context \<Rightarrow> string" where
  "getUserRole c = (case X_role c of None \<Rightarrow> ''admin'' | Some r \<Rightarrow> if r \<noteq> [] then r else ''admin'')"

definition parseQueryInt :: "string \<Rightarrow> int \<Rightarrow> int" where
  "parseQueryInt val def =
     (if val = [] then def else case Atoi val of (iv, None) \<Rightarrow> iv | (_, Some e) \<Rightarrow> def)"

definition mapSortAndOrder :: "(string \<Rightarrow> string) \<Rightarrow> string \<Rightarrow> int \<times> int" where
  "mapSortAndOrder ul s =
     (let parts = Split (CHR ''|'') s;
          sortStr = ToLower ul (TrimSpace (parts ! 0));
          orderStr = (if 1 < length parts then parts ! 1 else []);
          sortOrder = (if ToLower ul (TrimSpace orderStr) = ''asc'' then SORT_ORDER_ASC else SORT_ORDER_DESC)
      in if sortStr \<in> {'''', ''created_time'', ''created'', ''time''} then (SORT_BY_CREATED_TIME, sortOrder)
         else if sortStr = ''price'' then (SORT_BY_PRICE, sortOrder)
         else if sortStr = ''score'' then (SORT_BY_SCORE, sortOrder)
         else if sortStr \<in> {''likes'', ''num_likes''} then (SORT_BY_NUM_LIKES, sortOrder)
         else (- 1, 0))"

definition buildDedupURL :: "createTaskRequest \<Rightarrow> int \<Rightarrow> int \<Rightarrow> string" where
  "buildDedupURL req sortBy sortOrder =
     (if CT_Keyword req = [] then []
      else if CT_Platform req = PLATFORM_MERCARI
      then BuildMercariURL (empty_FetchRequest\<lparr>
             FR_Platform := int32 (CT_Platform req), FR_Keyword := CT_Keyword req,
             FR_MinPrice := CT_MinPrice req, FR_MaxPrice := CT_MaxPrice req,
             FR_Sort := int32 sortBy, FR_Order := int32 sortOrder, FR_OnlyOnSale := True\<rparr>)
      else let v1 = Set ''keyword'' (CT_Keyword req) [];
               v2 = (if 0 < CT_MinPrice req then Set ''min_price'' (FormatInt (CT_MinPrice req)) v1 else v1);
               v3 = (if 0 < CT_MaxPrice req then Set ''max_price'' (FormatInt (CT_MaxPrice req)) v2 else v2);
               v4 = Set ''sort_by'' (FormatInt sortBy) v3;
               v5 = Set ''sort_order'' (FormatInt sortOrder) v4
           in ''goodshunter://platform-'' @ FormatInt (CT_Platform req) @ ''/search?'' @ Encode v5)"

definition toFullMercariURL :: "string \<Rightarrow> string" where
  "toFullMercariURL url =
     (if url = [] then []
      else if HasPrefix url ''http://'' \<or> HasPrefix url ''https://'' then url
      else ''https://jp.mercari.com'' @ (if HasPrefix url ''/'' then url else CHR ''/'' # url))"

section \<open>The task store\<close>

definition dbTaskStore_CountTasks :: "'w database \<Rightarrow> int \<Rightarrow> 'w \<Rightarrow> int option \<times> 'w" where
  "dbTaskStore_CountTasks D userID w =
     (case D w (FindTasks (\<lambda>t. int (T_UserID t) = userID)) of
        (Some (RTasks ts), w1) \<Rightarrow> (Some (int (length ts)), w1)
      | (_, w1) \<Rightarrow> (None, w1))"

text \<open>
  Creating a row sets its times and, as the mapping library documents, leaves a zero value to the
  column's default: type \<^verbatim>\<open>monitor\<close>, status \<^verbatim>\<open>running\<close>, notifications enabled.
\<close>

definition stored_task :: "gotime \<Rightarrow> Task \<Rightarrow> Task" where
  "stored_task now t =
     t\<lparr>T_CreatedAt := now, T_UpdatedAt := now, T_NotifyEnabled := True,
       T_Type := (if T_Type t = [] then TaskTypeMonitor else T_Type t),
       T_Status := (if T_Status t = [] then ''running'' else T_Status t)\<rparr>"

definition dbTaskStore_CreateTask :: "'w database \<Rightarrow> gotime \<Rightarrow> Task \<Rightarrow> 'w \<Rightarrow> nat option \<times> 'w" where
  "dbTaskStore_CreateTask D now task w =
     (case D w (InsertTask (stored_task now task)) of
        (Some (RId i), w1) \<Rightarrow> (Some i, w1)
      | (_, w1) \<Rightarrow> (None, w1))"

section \<open>Creating a task\<close>

definition dup_check :: "'w Server \<Rightarrow> gotime \<Rightarrow> string \<Rightarrow> 'w \<Rightarrow> bool \<times> 'w" where
  "dup_check s now url w =
     (if url = [] then (False, w)
      else case V_isDuplicate s now url w of
             (Inl e, w1) \<Rightarrow> (False, w1)
           | (Inr dup, w1) \<Rightarrow> (dup, w1))"

definition requested_task :: "int \<Rightarrow> createTaskRequest \<Rightarrow> int \<Rightarrow> int \<Rightarrow> string \<Rightarrow> string \<Rightarrow> Task" where
  "requested_task userID req sortBy sortOrder status taskType =
     \<lparr>T_ID = 0, T_CreatedAt = zero_time, T_UpdatedAt = zero_time, T_UserID = nat (userID mod 2 ^ 64),
      T_Keyword = CT_Keyword req, T_MinPrice = CT_MinPrice req, T_MaxPrice = CT_MaxPrice req,
      T_Platform = CT_Platform req, T_SortBy = sortBy, T_SortOrder = sortOrder, T_Type = taskType,
      T_Status = status, T_LastRunAt = None, T_NotifyEnabled = False, T_BaselineAt = None\<rparr>"

definition task_limit :: "'w Server \<Rightarrow> int" where
  "task_limit s = (if V_MaxTasksPerUser s \<le> 0 then 3 else V_MaxTasksPerUser s)"

definition store_new_task :: "'w Server \<Rightarrow> gotime \<Rightarrow> int \<Rightarrow> createTaskRequest \<Rightarrow> int \<Rightarrow> int \<Rightarrow> 'w \<Rightarrow> api_reply \<times> 'w" where
  "store_new_task s now userID req sortBy sortOrder w =
     (let status = (if CT_Status req = [] then ''running'' else CT_Status req);
          t0 = ToLower (V_ul s) (TrimSpace (CT_Type req));
          taskType = (if t0 = [] then TaskTypeMonitor else t0)
      in if taskType \<noteq> TaskTypeMonitor \<and> taskType \<noteq> TaskTypeOneShot
         then (Fail StatusBadRequest ''invalid task type'', w)
         else let task = requested_task userID req sortBy sortOrder status taskType
              in case V_createTask s now task w of
                   (None, w1) \<Rightarrow> (Fail StatusInternalServerError ''create task failed'', w1)
                 | (Some i, w1) \<Rightarrow>
                     (Created i,
                      if T_Status task = ''running'' then V_startTask s ((stored_task now task)\<lparr>T_ID := i\<rparr>) w1 else w1))"

definition handleCreateTask :: "'w Server \<Rightarrow> gotime \<Rightarrow> gin_context \<Rightarrow> createTaskRequest option \<Rightarrow> 'w \<Rightarrow> api_reply \<times> 'w" where
  "handleCreateTask s now c body w =
     (if getUserRole c = ''guest'' then (Fail StatusForbidden demo_no_create, w)
      else case body of
        None \<Rightarrow> (Fail StatusBadRequest ''bad request'', w)
      | Some req \<Rightarrow>
          let userID = getUserID c in
          (case V_countTasks s userID w of
             (None, w1) \<Rightarrow> (Fail StatusInternalServerError ''count tasks failed'', w1)
           | (Some taskCount, w1) \<Rightarrow>
               if task_limit s \<le> taskCount then (Fail StatusForbidden ''task limit reached'', w1)
               else (case mapSortAndOrder (V_ul s) (CT_Sort req) of
                 (sortBy, sortOrder) \<Rightarrow>
                   if sortBy = - 1 then (Fail StatusBadRequest ''invalid sort'', w1)
                   else (case dup_check s now (buildDedupURL req sortBy sortOrder) w1 of
                           (True, w2) \<Rightarrow> (SkippedDuplicate, w2)
                         | (False, w2) \<Rightarrow> store_new_task s now userID req sortBy sortOrder w2))))"

section \<open>Changing a task\<close>

definition own_task :: "'w Server \<Rightarrow> string \<Rightarrow> int \<Rightarrow> Task \<Rightarrow> bool" where
  "own_task s tid userID t \<longleftrightarrow> V_same_id s tid (T_ID t) \<and> int (T_UserID t) = userID"

definition succeeded :: "sql_reply option \<Rightarrow> bool" where
  "succeeded r \<longleftrightarrow> r \<noteq> None \<and> r \<noteq> Some RSqlError"

definition handleToggleNotify :: "'w Server \<Rightarrow> gotime \<Rightarrow> gin_context \<Rightarrow> string \<Rightarrow> bool option \<Rightarrow> 'w \<Rightarrow> api_reply \<times> 'w" where
  "handleToggleNotify s now c tid body w =
     (case body of
        None \<Rightarrow> (Fail StatusBadRequest ''bad request'', w)
      | Some enabled \<Rightarrow>
          (case V_db s w (UpdateTasks (own_task s tid (getUserID c))
                  (\<lambda>t. t\<lparr>T_NotifyEnabled := enabled, T_UpdatedAt := now\<rparr>)) of
             (r, w1) \<Rightarrow> if succeeded r then (NotifySet enabled, w1)
                        else (Fail StatusInternalServerError ''update notify failed'', w1)))"

definition handleUpdateTaskStatus :: "'w Server \<Rightarrow> gotime \<Rightarrow> gin_context \<Rightarrow> string \<Rightarrow> string option \<Rightarrow> 'w \<Rightarrow> api_reply \<times> 'w" where
  "handleUpdateTaskStatus s now c tid body w =
     (case body of
        None \<Rightarrow> (Fail StatusBadRequest ''bad request'', w)
      | Some status \<Rightarrow>
          if status \<noteq> ''running'' \<and> status \<noteq> ''stopped'' then (Fail StatusBadRequest ''invalid status'', w)
          else let userID = getUserID c in
            (case V_db s w (UpdateTasks (own_task s tid userID) (\<lambda>t. t\<lparr>T_Status := status, T_UpdatedAt := now\<rparr>)) of
               (r, w1) \<Rightarrow>
                 if \<not> succeeded r then (Fail StatusInternalServerError ''update failed'', w1)
                 else let taskID = fst (ParseUint 32 tid) in
                   if status = ''running''
                   then (case V_db s w1 (FindTasks (\<lambda>t. T_ID t = taskID \<and> int (T_UserID t) = userID)) of
                           (r2, w2) \<Rightarrow>
                             (StatusSet status,
                              case first_task r2 of None \<Rightarrow> w2 | Some task \<Rightarrow> V_startTask s task w2))
                   else (StatusSet status, w1)))"

text \<open>The assignments of an update in the order they are collected, or the error.\<close>

type_synonym task_update = "string + (Task \<Rightarrow> Task) list"

definition collect :: "'a option \<Rightarrow> ('a \<Rightarrow> string + (Task \<Rightarrow> Task)) \<Rightarrow> task_update \<Rightarrow> task_update" where
  "collect v f acc =
     (case acc of
        Inl e \<Rightarrow> Inl e
      | Inr us \<Rightarrow> (case v of
                    None \<Rightarrow> Inr us
                  | Some x \<Rightarrow> (case f x of Inl e \<Rightarrow> Inl e | Inr u \<Rightarrow> Inr (us @ [u]))))"

definition task_updates :: "(string \<Rightarrow> string) \<Rightarrow> updateTaskRequest \<Rightarrow> task_update" where
  "task_updates ul req =
     collect (UT_Sort req)
       (\<lambda>v. case mapSortAndOrder ul v of
              (sortBy, sortOrder) \<Rightarrow>
                if sortBy = - 1 then Inl ''invalid sort''
                else Inr (\<lambda>t. t\<lparr>T_SortBy := sortBy, T_SortOrder := sortOrder\<rparr>))
     (collect (UT_Platform req)
       (\<lambda>v. if v \<le> 0 then Inl ''invalid platform'' else Inr (\<lambda>t. t\<lparr>T_Platform := v\<rparr>))
     (collect (UT_MaxPrice req)
       (\<lambda>v. if v < 0 then Inl ''invalid max_price'' else Inr (\<lambda>t. t\<lparr>T_MaxPrice := v\<rparr>))
     (collect (UT_MinPrice req)
       (\<lambda>v. if v < 0 then Inl ''invalid min_price'' else Inr (\<lambda>t. t\<lparr>T_MinPrice := v\<rparr>))
     (collect (UT_Keyword req)
       (\<lambda>v. if TrimSpace v = [] then Inl ''invalid keyword'' else Inr (\<lambda>t. t\<lparr>T_Keyword := TrimSpace v\<rparr>))
       (Inr [])))))"

definition handleUpdateTask :: "'w Server \<Rightarrow> gotime \<Rightarrow> gin_context \<Rightarrow> string \<Rightarrow> updateTaskRequest option \<Rightarrow> 'w \<Rightarrow> api_reply \<times> 'w" where
  "handleUpdateTask s now c tid body w =
     (if getUserRole c = ''guest'' then (Fail StatusForbidden demo_no_update, w)
      else case body of
        None \<Rightarrow> (Fail StatusBadRequest ''bad request'', w)
      | Some req \<Rightarrow>
          (case task_updates (V_ul s) req of
             Inl e \<Rightarrow> (Fail StatusBadRequest e, w)
           | Inr us \<Rightarrow>
               if us = [] then (Fail StatusBadRequest ''no updates'', w)
               else (case V_db s w (UpdateTasks (own_task s tid (getUserID c))
                             (\<lambda>t. (fold (\<lambda>u. u) us t)\<lparr>T_UpdatedAt := now\<rparr>)) of
                       (r, w1) \<Rightarrow> if succeeded r then (Updated, w1)
                                  else (Fail StatusInternalServerError ''update failed'', w1))))"

section \<open>Deleting\<close>

text \<open>The queries of the deletion handlers over several tables.\<close>

definition linked_items :: "'w Server \<Rightarrow> string \<Rightarrow> int \<Rightarrow> tables \<Rightarrow> nat list" where
  "linked_items s tid userID db =
     map TI_ItemID (filter (\<lambda>x. V_same_id s tid (TI_TaskID x) \<and>
       (\<exists>t \<in> set (tasks db). T_ID t = TI_TaskID x \<and> int (T_UserID t) = userID)) (task_items db))"

definition own_links :: "'w Server \<Rightarrow> string \<Rightarrow> int \<Rightarrow> tables \<Rightarrow> TaskItem \<Rightarrow> bool" where
  "own_links s tid userID db x \<longleftrightarrow> V_same_id s tid (TI_TaskID x) \<and>
     TI_TaskID x \<in> set (map T_ID (filter (\<lambda>t. int (T_UserID t) = userID) (tasks db)))"

definition orphans :: "nat list \<Rightarrow> tables \<Rightarrow> nat list" where
  "orphans itemIDs db =
     map I_ID (filter (\<lambda>i. I_ID i \<in> set itemIDs \<and> I_ID i \<notin> set (map TI_ItemID (task_items db))) (items db))"

definition the_ids :: "sql_reply option \<Rightarrow> nat list" where
  "the_ids r = (case r of Some (RIds is) \<Rightarrow> is | _ \<Rightarrow> [])"

definition task_dedup_url :: "Task \<Rightarrow> string" where
  "task_dedup_url t =
     buildDedupURL \<lparr>CT_Keyword = T_Keyword t, CT_MinPrice = T_MinPrice t, CT_MaxPrice = T_MaxPrice t,
       CT_Platform = T_Platform t, CT_Sort = [], CT_Status = [], CT_Type = []\<rparr> (T_SortBy t) (T_SortOrder t)"

definition delete_orphans :: "'w Server \<Rightarrow> nat list \<Rightarrow> 'w \<Rightarrow> 'w" where
  "delete_orphans s itemIDs w =
     (if itemIDs = [] then w
      else case V_db s w (SelectIds (orphans itemIDs)) of
             (r, w1) \<Rightarrow> if the_ids r = [] then w1
                        else snd (V_db s w1 (DeleteItems (\<lambda>i. I_ID i \<in> set (the_ids r)))))"

definition forget_pending :: "'w Server \<Rightarrow> string \<Rightarrow> 'w \<Rightarrow> 'w" where
  "forget_pending s tid w =
     (if V_redisQueue s = None then w else snd (RemoveFromPendingSet (V_redisQueue s) (V_net s w) tid w))"

definition handleDeleteTask :: "'w Server \<Rightarrow> gotime \<Rightarrow> gin_context \<Rightarrow> string \<Rightarrow> 'w \<Rightarrow> api_reply \<times> 'w" where
  "handleDeleteTask s now c tid w =
     (if getUserRole c = ''guest'' then (Fail StatusForbidden demo_no_create, w)
      else if snd (ParseUint 32 tid) \<noteq> None then (Fail StatusBadRequest ''invalid task id'', w)
      else let userID = getUserID c in
        (case V_db s w (FindTasks (own_task s tid userID)) of
           (r1, w1) \<Rightarrow>
             let dedupURL = (case first_task r1 of None \<Rightarrow> [] | Some t \<Rightarrow> task_dedup_url t);
                 w2 = forget_pending s tid w1
             in (case V_db s w2 (SelectIds (linked_items s tid userID)) of
                   (r3, w3) \<Rightarrow>
                     let w4 = snd (V_db s w3 (DeleteTaskItemsIn (own_links s tid userID)));
                         w5 = delete_orphans s (the_ids r3) w4
                     in (case V_db s w5 (DeleteTasks (own_task s tid userID)) of
                           (r6, w6) \<Rightarrow>
                             if \<not> succeeded r6 then (Fail StatusInternalServerError ''delete task failed'', w6)
                             else (TaskDeleted tid,
                                   if dedupURL = [] then w6 else snd (V_dedupDelete s now dedupURL w6))))))"

text \<open>
  A statement inside the transaction of an account deletion: an error rolls back and ends the
  request with a message.
\<close>

definition tx_do :: "'w Server \<Rightarrow> string \<Rightarrow> sql_reply option \<times> 'w \<Rightarrow> (sql_reply option \<Rightarrow> 'w \<Rightarrow> api_reply \<times> 'w) \<Rightarrow> api_reply \<times> 'w" where
  "tx_do s msg r cont =
     (if succeeded (fst r) then cont (fst r) (snd r)
      else (Fail StatusInternalServerError msg, snd (V_tx s (snd r) Rollback)))"

fun clear_pending :: "'w Server \<Rightarrow> nat list \<Rightarrow> 'w \<Rightarrow> 'w" where
  "clear_pending s [] w = w"
| "clear_pending s (i # is) w =
     clear_pending s is (forget_pending s (FormatUint i) w)"

definition drop_links :: "'w Server \<Rightarrow> nat list \<Rightarrow> (nat list \<Rightarrow> 'w \<Rightarrow> api_reply \<times> 'w) \<Rightarrow> 'w \<Rightarrow> api_reply \<times> 'w" where
  "drop_links s taskIDs cont w =
     (if taskIDs = [] then cont [] w
      else tx_do s ''load items failed''
             (V_db s w (SelectIds (\<lambda>db. map TI_ItemID (filter (\<lambda>x. TI_TaskID x \<in> set taskIDs) (task_items db)))))
             (\<lambda>r w1. tx_do s ''delete task_items failed''
                (V_db s w1 (DeleteTaskItems (\<lambda>x. TI_TaskID x \<in> set taskIDs))) (\<lambda>_ w2. cont (the_ids r) w2)))"

definition drop_orphans :: "'w Server \<Rightarrow> nat list \<Rightarrow> ('w \<Rightarrow> api_reply \<times> 'w) \<Rightarrow> 'w \<Rightarrow> api_reply \<times> 'w" where
  "drop_orphans s itemIDs cont w =
     (if itemIDs = [] then cont w
      else tx_do s ''load orphaned items failed'' (V_db s w (SelectIds (orphans itemIDs)))
             (\<lambda>r w1. if the_ids r = [] then cont w1
                      else tx_do s ''delete items failed''
                             (V_db s w1 (DeleteItems (\<lambda>i. I_ID i \<in> set (the_ids r)))) (\<lambda>_ w2. cont w2)))"

definition drop_account :: "'w Server \<Rightarrow> int \<Rightarrow> 'w \<Rightarrow> api_reply \<times> 'w" where
  "drop_account s userID w =
     tx_do s ''delete tasks failed'' (V_db s w (DeleteTasks (\<lambda>t. int (T_UserID t) = userID)))
       (\<lambda>_ w1. tx_do s ''delete user failed'' (V_db s w1 (DeleteUsers (\<lambda>u. int (U_ID u) = userID)))
         (\<lambda>_ w2. case V_tx s w2 Commit of
                   (True, w3) \<Rightarrow> (AccountDeleted, w3)
                 | (False, w3) \<Rightarrow> (Fail StatusInternalServerError ''commit failed'', w3)))"

definition handleDeleteAccount :: "'w Server \<Rightarrow> gin_context \<Rightarrow> 'w \<Rightarrow> api_reply \<times> 'w" where
  "handleDeleteAccount s c w =
     (let userID = getUserID c in
      if getUserRole c = ''guest'' then (Fail StatusForbidden demo_no_close, w)
      else (case V_tx s w Begin of
        (False, w0) \<Rightarrow> (Fail StatusInternalServerError ''transaction failed'', w0)
      | (True, w0) \<Rightarrow>
          tx_do s ''load tasks failed''
            (V_db s w0 (SelectIds (\<lambda>db. map T_ID (filter (\<lambda>t. int (T_UserID t) = userID) (tasks db)))))
            (\<lambda>r w1.
              drop_links s (the_ids r)
                (\<lambda>itemIDs. drop_orphans s itemIDs (drop_account s userID))
                (clear_pending s (the_ids r) w1))))"

section \<open>Reading\<close>

definition task_response :: "Task \<Rightarrow> taskResponse" where
  "task_response t =
     \<lparr>TR_ID = T_ID t, TR_UserID = T_UserID t, TR_Keyword = T_Keyword t, TR_MinPrice = T_MinPrice t,
      TR_MaxPrice = T_MaxPrice t, TR_Platform = T_Platform t, TR_SortBy = T_SortBy t, TR_Status = T_Status t,
      TR_NotifyEnabled = T_NotifyEnabled t, TR_Type = T_Type t\<rparr>"

definition handleListTasks :: "'w Server \<Rightarrow> gin_context \<Rightarrow> 'w \<Rightarrow> api_reply \<times> 'w" where
  "handleListTasks s c w =
     (case V_db s w (FindTasks (\<lambda>t. int (T_UserID t) = getUserID c)) of
        (Some (RTasks ts), w1) \<Rightarrow> (TaskList (map task_response (rev (sort_key T_ID ts))), w1)
      | (_, w1) \<Rightarrow> (Fail StatusInternalServerError ''list tasks failed'', w1))"

text \<open>The joined rows of the timeline, newest link first; links of one time by rank.\<close>

definition joined_rows :: "tables \<Rightarrow> (Item \<times> TaskItem \<times> Task) list" where
  "joined_rows db =
     [(i, x, t). x \<leftarrow> task_items db, i \<leftarrow> filter (\<lambda>i. I_ID i = TI_ItemID x) (items db),
                 t \<leftarrow> filter (\<lambda>t. T_ID t = TI_TaskID x) (tasks db)]"

definition timeline_rows :: "'w Server \<Rightarrow> int \<Rightarrow> string \<Rightarrow> tables \<Rightarrow> (Item \<times> TaskItem \<times> Task) list" where
  "timeline_rows s userID taskID db =
     sort_key (\<lambda>(i, x, t). link_recency x)
       (filter (\<lambda>(i, x, t). int (T_UserID t) = userID \<and> (taskID \<noteq> [] \<longrightarrow> V_same_id s taskID (TI_TaskID x)))
         (joined_rows db))"

definition row_is_new :: "duration \<Rightarrow> gotime \<Rightarrow> Item \<times> TaskItem \<times> Task \<Rightarrow> bool" where
  "row_is_new newItemDuration now row =
     (case row of (i, x, t) \<Rightarrow>
        (case T_BaselineAt t of
           None \<Rightarrow> False
         | Some b \<Rightarrow>
             \<not> IsZero b \<and> b < TI_CreatedAt x \<and>
             0 \<le> now - TI_CreatedAt x \<and> now - TI_CreatedAt x \<le> newItemDuration))"

definition timeline_item :: "'w Server \<Rightarrow> gotime \<Rightarrow> Item \<times> TaskItem \<times> Task \<Rightarrow> timelineItem" where
  "timeline_item s now row =
     (case row of (i, x, t) \<Rightarrow>
        \<lparr>TL_ID = FormatInt (int64 (int (I_ID i))), TL_SourceID = I_SourceID i, TL_Title = I_Title i,
         TL_Price = I_Price i, TL_ImageURL = I_ImageURL i, TL_ItemURL = toFullMercariURL (I_ItemURL i),
         TL_CreatedAt = I_CreatedAt i, TL_IsNew = row_is_new (V_NewItemDuration s) now row\<rparr>)"

definition load_key :: "'w Server \<Rightarrow> gotime \<Rightarrow> string \<Rightarrow> string \<Rightarrow> 'w \<Rightarrow> string \<times> 'w" where
  "load_key s now kp taskID w =
     (if taskID = [] then ([], w)
      else case V_rdb s now w (GET (kp @ taskID)) of
             (Some (RBulk (Some v)), w1) \<Rightarrow> (v, w1)
           | (_, w1) \<Rightarrow> ([], w1))"

definition loadTaskCrawlStatus :: "'w Server \<Rightarrow> gotime \<Rightarrow> string \<Rightarrow> 'w \<Rightarrow> string \<times> 'w" where
  "loadTaskCrawlStatus s now = load_key s now ''task:crawl_status:''"

definition loadTaskCrawlMessage :: "'w Server \<Rightarrow> gotime \<Rightarrow> string \<Rightarrow> 'w \<Rightarrow> string \<times> 'w" where
  "loadTaskCrawlMessage s now = load_key s now ''task:crawl_message:''"

definition crawl_state :: "'w Server \<Rightarrow> gotime \<Rightarrow> string \<Rightarrow> 'w \<Rightarrow> (string \<times> string) \<times> 'w" where
  "crawl_state s now taskID w =
     (case loadTaskCrawlStatus s now taskID w of
        (status, w1) \<Rightarrow> (case loadTaskCrawlMessage s now taskID w1 of (message, w2) \<Rightarrow> ((status, message), w2)))"

text \<open>The query's limit and offset; an offset that is not positive is no offset.\<close>

definition page_limit :: "string \<Rightarrow> int" where
  "page_limit v = (let limit = parseQueryInt v 20 in if limit \<le> 0 \<or> 100 < limit then 20 else limit)"

definition handleTimeline ::
  "'w Server \<Rightarrow> gotime \<Rightarrow> gin_context \<Rightarrow> string \<Rightarrow> string \<Rightarrow> string \<Rightarrow> 'w \<Rightarrow> api_reply \<times> 'w"
where
  "handleTimeline s now c limit offset taskID w =
     (case V_db s w (SelectTimeline (\<lambda>db. take (nat (page_limit limit))
              (drop (nat (parseQueryInt offset 0)) (timeline_rows s (getUserID c) taskID db)))) of
        (Some (RTimeline rows), w1) \<Rightarrow>
          (case crawl_state s now taskID w1 of
             (st, w2) \<Rightarrow> (Timeline (map (timeline_item s now) rows) (Some st), w2))
      | (_, w1) \<Rightarrow> (Fail StatusInternalServerError ''query timeline failed'', w1))"

definition handleTimelineGuest ::
  "(string \<Rightarrow> timelineItem list option) \<Rightarrow> 'w Server \<Rightarrow> gotime \<Rightarrow> string \<Rightarrow> 'w \<Rightarrow> api_reply \<times> 'w"
where
  "handleTimelineGuest unmarshal s now taskID w =
     (if taskID = [] then (Timeline [] None, w)
      else case V_rdb s now w (GET (''guest:task:'' @ taskID @ '':items'')) of
        (r, w1) \<Rightarrow>
          (case r of
             Some (RBulk (Some raw)) \<Rightarrow>
               if raw = [] then (case crawl_state s now taskID w1 of (st, w2) \<Rightarrow> (Timeline [] (Some st), w2))
               else (case unmarshal raw of
                       None \<Rightarrow> (Timeline [] None, w1)
                     | Some its \<Rightarrow>
                         (case crawl_state s now taskID w1 of
                            (st, w2) \<Rightarrow>
                              (Timeline (map (\<lambda>i. i\<lparr>TL_ItemURL := toFullMercariURL (TL_ItemURL i)\<rparr>) its) (Some st), w2)))
           | _ \<Rightarrow> (case crawl_state s now taskID w1 of (st, w2) \<Rightarrow> (Timeline [] (Some st), w2))))"

definition handleGetConfig :: "'w Server \<Rightarrow> api_reply" where
  "handleGetConfig s =
     ConfigReply (quot (V_NewItemDuration s) Millisecond) (quot (V_GuestHeartbeat s) Millisecond) (V_MaxTasksPerUser s)"

text \<open>The health check asks the database for a constant and pings Redis; either may be missing.\<close>

definition handleHealthz :: "('w \<Rightarrow> bool \<times> 'w) option \<Rightarrow> ('w \<Rightarrow> bool \<times> 'w) option \<Rightarrow> 'w \<Rightarrow> api_reply \<times> 'w" where
  "handleHealthz db rdb w =
     (case (db, rdb) of
        (Some select_one, Some ping) \<Rightarrow>
          (case select_one w of
             (False, w1) \<Rightarrow> (Fail 503 ''error'', w1)
           | (True, w1) \<Rightarrow> (case ping w1 of
                             (False, w2) \<Rightarrow> (Fail 503 ''error'', w2)
                           | (True, w2) \<Rightarrow> (HealthOk, w2)))
      | _ \<Rightarrow> (Fail 503 ''error'', w))"

section \<open>The routes\<close>

text \<open>The requests behind the authentication, and their dispatch.\<close>

datatype api_call =
    GetConfig
  | CloseAccount
  | CreateTask "createTaskRequest option"
  | ListTasks
  | UpdateTask string "updateTaskRequest option"
  | UpdateStatus string "string option"
  | ToggleNotify string "bool option"
  | DeleteTask string
  | GetTimeline string string string

fun handle_call :: "'w Server \<Rightarrow> gotime \<Rightarrow> gin_context \<Rightarrow> api_call \<Rightarrow> 'w \<Rightarrow> api_reply \<times> 'w" where
  "handle_call s now c GetConfig w = (handleGetConfig s, w)"
| "handle_call s now c CloseAccount w = handleDeleteAccount s c w"
| "handle_call s now c (CreateTask body) w = handleCreateTask s now c body w"
| "handle_call s now c ListTasks w = handleListTasks s c w"
| "handle_call s now c (UpdateTask tid body) w = handleUpdateTask s now c tid body w"
| "handle_call s now c (UpdateStatus tid body) w = handleUpdateTaskStatus s now c tid body w"
| "handle_call s now c (ToggleNotify tid body) w = handleToggleNotify s now c tid body w"
| "handle_call s now c (DeleteTask tid) w = handleDeleteTask s now c tid w"
| "handle_call s now c (GetTimeline limit offset tid) w = handleTimeline s now c limit offset tid w"

definition registerRoutes ::
  "(gotime \<Rightarrow> string \<Rightarrow> string \<Rightarrow> claims option) \<Rightarrow> string \<Rightarrow> duration \<Rightarrow> 'w Server \<Rightarrow> gotime \<Rightarrow> string \<Rightarrow> api_call \<Rightarrow>
   'w \<Rightarrow> api_reply \<times> 'w"
where
  "registerRoutes parse jwtSecret guestIdleTimeout s now authHeader call w =
     (case AuthMiddleware parse (V_ul s) jwtSecret now authHeader of
        Inl e \<Rightarrow> (Fail StatusUnauthorized e, w)
      | Inr c \<Rightarrow> handle_call s now c call (GuestActivityMiddleware (V_rdb s) guestIdleTimeout now c w))"

section \<open>The demonstration data\<close>

definition demo_keyword :: string where
  "demo_keyword = bytes [233, 128, 178, 230, 146, 131, 227, 129, 174, 229, 183, 168, 228, 186, 186]"

definition demo_task :: "nat \<Rightarrow> Task" where
  "demo_task userID =
     \<lparr>T_ID = 0, T_CreatedAt = zero_time, T_UpdatedAt = zero_time, T_UserID = userID, T_Keyword = demo_keyword,
      T_MinPrice = 0, T_MaxPrice = 0, T_Platform = PLATFORM_MERCARI, T_SortBy = SORT_BY_CREATED_TIME, T_SortOrder = 0,
      T_Type = [], T_Status = ''running'', T_LastRunAt = None, T_NotifyEnabled = False, T_BaselineAt = None\<rparr>"

text \<open>The id of the guest account, created or brought up to date; \<open>None\<close> is an error.\<close>

definition seed_user :: "'w Server \<Rightarrow> gotime \<Rightarrow> 'w \<Rightarrow> nat option \<times> 'w" where
  "seed_user s now w =
     (case V_db s w (FindUsers (\<lambda>u. U_Email u = demoEmail)) of
        (Some (RUsers []), w1) \<Rightarrow>
          (case V_bcrypt s ''guest-demo'' of
             None \<Rightarrow> (None, w1)
           | Some hash \<Rightarrow>
               (case V_db s w1 (InsertUser (new_user now demoEmail hash ''guest'' True)) of
                  (Some (RId i), w2) \<Rightarrow> (Some i, w2)
                | (_, w2) \<Rightarrow> (None, w2)))
      | (Some (RUsers (user # _)), w1) \<Rightarrow>
          (case V_db s w1 (UpdateUsers (\<lambda>u. U_ID u = U_ID user) (\<lambda>u. u\<lparr>U_Role := ''guest'', U_IsVerified := True\<rparr>)) of
             (r, w2) \<Rightarrow> (if succeeded r then Some (U_ID user) else None, w2))
      | (_, w1) \<Rightarrow> (None, w1))"

definition seed_task :: "'w Server \<Rightarrow> gotime \<Rightarrow> nat \<Rightarrow> 'w \<Rightarrow> nat option \<times> 'w" where
  "seed_task s now userID w =
     (case V_db s w (UpdateTasks (\<lambda>t. T_UserID t = userID \<and> T_Keyword t = ''HimeHina GiGO'')
              (\<lambda>t. t\<lparr>T_Keyword := demo_keyword, T_BaselineAt := None, T_LastRunAt := None, T_UpdatedAt := now\<rparr>)) of
        (_, w1) \<Rightarrow>
          (case V_db s w1 (FindTasks (\<lambda>t. T_UserID t = userID \<and> T_Keyword t = demo_keyword)) of
             (Some (RTasks []), w2) \<Rightarrow>
               (case V_db s w2 (InsertTask (stored_task now (demo_task userID))) of
                  (Some (RId i), w3) \<Rightarrow> (Some i, w3)
                | (_, w3) \<Rightarrow> (None, w3))
           | (Some (RTasks (task # _)), w2) \<Rightarrow>
               (case V_db s w2 (UpdateTasks (\<lambda>t. T_ID t = T_ID task)
                       (\<lambda>t. t\<lparr>T_MinPrice := 0, T_MaxPrice := 0, T_NotifyEnabled := False, T_BaselineAt := None,
                             T_LastRunAt := None, T_UpdatedAt := now\<rparr>)) of
                  (r, w3) \<Rightarrow> (if succeeded r then Some (T_ID task) else None, w3))
           | (_, w2) \<Rightarrow> (None, w2)))"

text \<open>The two cache keys are removed last; a failure there is only printed.\<close>

definition SeedDemoData :: "'w Server \<Rightarrow> gotime \<Rightarrow> 'w \<Rightarrow> bool \<times> 'w" where
  "SeedDemoData s now w =
     (case seed_user s now w of
        (None, w1) \<Rightarrow> (False, w1)
      | (Some userID, w1) \<Rightarrow>
          (case seed_task s now userID w1 of
             (None, w2) \<Rightarrow> (False, w2)
           | (Some taskID, w2) \<Rightarrow>
               let w3 = snd (V_rdb s now w2 (TDEL (''guest:task:'' @ FormatUint taskID @ '':items'')))
               in (True, snd (V_rdb s now w3 (TDEL (''dedup:'' @ FormatUint taskID))))))"

section \<open>Building the server\<close>

text \<open>
  The dependencies come connected (or the constructor fails); the task store is that of the
  database and the deduplicator works on the Redis connection \<open>T\<close> with the configured window.
\<close>

definition NewServer ::
  "'w Server \<Rightarrow> 'w ttl_server \<Rightarrow> int \<Rightarrow> bool \<Rightarrow> bool \<Rightarrow> bool \<Rightarrow> 'w Server option"
where
  "NewServer deps T dedupWindow opened migrated pinged =
     (if \<not> opened \<or> \<not> migrated \<or> \<not> pinged then None
      else let dd = NewDeduplicator (Some T) (int64 (dedupWindow * Second))
           in Some (deps\<lparr>
                V_countTasks := dbTaskStore_CountTasks (V_db deps),
                V_createTask := dbTaskStore_CreateTask (V_db deps),
                V_isDuplicate := \<lambda>t u w. IsDuplicate dd (V_net deps w) t u w,
                V_dedupDelete := \<lambda>t u w. Delete dd (V_net deps w) t u w\<rparr>))"

end
