(* ===== verification/Lifecycle.thy ===== *)
theory Lifecycle
  imports Fleet Config Server Draining CrawlerGuarantees
begin

text \<open>
  The two processes: how \<^verbatim>\<open>cmd/crawler\<close> and \<^verbatim>\<open>cmd/api\<close> start and stop, what runs in their background
  (\<^verbatim>\<open>StartScheduler\<close>, the queue monitor, the browser health check), and the logger they set up.
\<close>

section \<open>The logger\<close>

datatype slog_level = LevelDebug | LevelInfo | LevelWarn | LevelError

definition parseLevel :: "(string \<Rightarrow> string) \<Rightarrow> string \<Rightarrow> slog_level" where
  "parseLevel ul levelStr =
     (let l = ToLower ul levelStr
      in if l = ''debug'' then LevelDebug else if l = ''warn'' then LevelWarn
         else if l = ''error'' then LevelError else LevelInfo)"

text \<open>A logger is its level and the attributes of every line; the host name may be unknown.\<close>

record slogger =
  lg_level :: slog_level
  lg_attrs :: "(string \<times> string) list"

definition NewDefault :: "(string \<Rightarrow> string) \<Rightarrow> string \<Rightarrow> slogger" where
  "NewDefault ul level = \<lparr>lg_level = parseLevel ul level, lg_attrs = []\<rparr>"

definition NewWithIdentity :: "(string \<Rightarrow> string) \<Rightarrow> string option \<Rightarrow> (string \<Rightarrow> string) \<Rightarrow> string \<Rightarrow> slogger" where
  "NewWithIdentity ul hostname getenv level =
     (let host = (case hostname of None \<Rightarrow> ''unknown'' | Some h \<Rightarrow> if TrimSpace h = [] then ''unknown'' else h);
          workerID = TrimSpace (getenv ''WORKER_ID'');
          workerID = (if workerID = [] then TrimSpace (getenv ''HOSTNAME'') else workerID);
          workerID = (if workerID = [] then ''unknown'' else workerID)
      in (NewDefault ul level)\<lparr>lg_attrs := [(''hostname'', host), (''worker_id'', workerID)]\<rparr>)"

section \<open>The API's background\<close>

text \<open>The scheduler as \<^verbatim>\<open>NewServer\<close> builds it from the configuration.\<close>

definition sched_of :: "'w Scheduler \<Rightarrow> AppConfig \<Rightarrow> 'w Scheduler \<times> nat Queue" where
  "sched_of deps app =
     NewScheduler deps (A_ScheduleInterval app) (A_NewItemDuration app) (A_MaxItemsPerTask app)
       (A_WorkerPoolSize app) (A_QueueCapacity app) (A_QueueBatchSize app) (A_JanitorInterval app) (A_JanitorTimeout app)"

text \<open>A goroutine that recovers: a panic ends it where it was, and only a log line tells.\<close>

fun recovered :: "'a ending \<Rightarrow> 'a" where
  "recovered (Returned x) = x"
| "recovered (Panicked x) = x"

definition dispatcher ::
  "nat \<Rightarrow> 'w Scheduler \<Rightarrow> dispatch_event list \<Rightarrow> (nat Queue \<Rightarrow> nat Queue) \<Rightarrow> bool \<Rightarrow> nat Queue \<Rightarrow> 'w \<Rightarrow>
   (nat Queue \<times> 'w) option"
where
  "dispatcher fuel s events run expired q w = map_option recovered (DispatchTasks fuel s events run expired q w)"

text \<open>The gauges of the queue monitor; an error keeps the last values.\<close>

record queue_gauges =
  g_tasks :: int
  g_results :: int
  g_pending :: int

definition monitorQueueDepth ::
  "'d Client \<Rightarrow> outcome \<Rightarrow> outcome \<Rightarrow> outcome \<Rightarrow> 'd \<Rightarrow> queue_gauges \<Rightarrow> queue_gauges"
where
  "monitorQueueDepth c net1 net2 net3 d g =
     (case QueueDepth c net1 net2 d of
        Inl _ \<Rightarrow> g
      | Inr (ts, rs) \<Rightarrow>
          (let g1 = g\<lparr>g_tasks := ts, g_results := rs\<rparr>
           in case PendingSetSize c net3 d of Inl _ \<Rightarrow> g1 | Inr n \<Rightarrow> g1\<lparr>g_pending := n\<rparr>))"

context redis_server
begin

lemma monitor_reads_the_queue:
  assumes "queue_typed (view d)"
  shows "monitorQueueDepth (Some S) Delivered Delivered Delivered d g =
    \<lparr>g_tasks = int (length (q_tasks (Q d))), g_results = int (length (q_results (Q d))),
     g_pending = int (card (q_pending (Q d)))\<rparr>"
  using assms
  by (auto simp: monitorQueueDepth_def QueueDepth_def PendingSetSize_def redis_simps queue_typed_def)

end

text \<open>The line of the queue statistics, and whether a warning follows it.\<close>

definition printQueueStats :: "nat Queue \<Rightarrow> (string \<times> int) list \<times> bool" where
  "printQueueStats q =
     (let st = Stats q
      in ([(''pending'', Len q), (''capacity'', Cap q), (''total_enqueued'', TotalEnqueued st),
           (''total_processed'', TotalProcessed st), (''total_succeeded'', TotalSucceeded st),
           (''total_failed'', TotalFailed st), (''total_dropped'', TotalDropped st), (''total_panics'', TotalPanics st)],
          100 < TotalDropped st))"

text \<open>
  \<^verbatim>\<open>Close\<close>: both connections are closed whatever happens to the other, and the first error is returned.
  A connection is missing (\<open>None\<close>) or closes with or without an error; the handle of the database may not
  be had at all (\<open>Inl\<close>).
\<close>

definition Close :: "'e option option \<Rightarrow> ('e + 'e option) option \<Rightarrow> 'e option" where
  "Close rdb db =
     (let firstErr = (case rdb of None \<Rightarrow> None | Some e \<Rightarrow> e)
      in case db of
           None \<Rightarrow> firstErr
         | Some (Inl e) \<Rightarrow> (if firstErr = None then Some e else firstErr)
         | Some (Inr None) \<Rightarrow> firstErr
         | Some (Inr (Some e)) \<Rightarrow> (if firstErr = None then Some e else firstErr))"

text \<open>The API's \<^verbatim>\<open>main\<close> up to its HTTP server: an exit code, or the server it goes on with.\<close>

definition api_main ::
  "config_error + Config \<Rightarrow> (Config \<Rightarrow> 'w Server option) \<Rightarrow> gotime \<Rightarrow> 'w \<Rightarrow> (nat + 'w Server) \<times> 'w"
where
  "api_main loaded newServer now w =
     (case loaded of
        Inl _ \<Rightarrow> (Inl 1, w)
      | Inr cfg \<Rightarrow>
          (case newServer cfg of
             None \<Rightarrow> (Inl 1, w)
           | Some s \<Rightarrow> (case SeedDemoData s now w of (ok, w1) \<Rightarrow> (if ok then Inr s else Inl 1, w1))))"

text \<open>
  What \<^verbatim>\<open>main\<close> does after the signal at \<open>now\<close>: the HTTP server may finish its open requests for five seconds
  (\<open>requests\<close> is how long they take; the flag is its error), five more seconds pass for the background, and
  the connections are closed. The result is the time at which the process ends, and the errors it logs.
\<close>

definition api_stop ::
  "gotime \<Rightarrow> duration \<Rightarrow> 'e option option \<Rightarrow> ('e + 'e option) option \<Rightarrow> gotime \<times> bool \<times> 'e option"
where
  "api_stop now requests rdb db =
     (now + min requests (5 * Second) + 5 * Second, 5 * Second < requests, Close rdb db)"

text \<open>
  The process is gone within ten seconds, before the thirty seconds are over that the dispatcher grants the
  jobs of its pool.
\<close>

lemma api_ends_before_the_pool:
  assumes "0 \<le> requests" and "api_stop now requests rdb db = (t, late, err)"
  shows "now + 5 * Second \<le> t" and "t \<le> now + 10 * Second" and "t < now + 30 * Second"
  using assms by (auto simp: api_stop_def min_def split: if_splits)

text \<open>
  The middleware around every handler: the handler runs, and a line with the request, the status and the
  time it took is logged when there is a logger.
\<close>

record request_line =
  rq_method :: string
  rq_path :: string
  rq_status :: int
  rq_client_ip :: string
  rq_latency :: duration

definition RequestLogger ::
  "bool \<Rightarrow> gotime \<Rightarrow> gotime \<Rightarrow> string \<Rightarrow> string \<Rightarrow> string \<Rightarrow> ('w \<Rightarrow> int \<times> 'w) \<Rightarrow> 'w \<Rightarrow> request_line option \<times> int \<times> 'w"
where
  "RequestLogger logger start now method path clientIP handler w =
     (case handler w of
        (status, w1) \<Rightarrow>
          (if logger
           then Some \<lparr>rq_method = method, rq_path = path, rq_status = status, rq_client_ip = clientIP,
                      rq_latency = now - start\<rparr>
           else None,
           status, w1))"

lemma logging_changes_nothing: "snd (RequestLogger logger start now method path clientIP handler w) = handler w"
  by (simp add: RequestLogger_def split: prod.split)

section \<open>The crawler's process\<close>

text \<open>The background loop of the service, for a list of ticks.\<close>

definition startBrowserHealthCheck ::
  "((bool \<times> bool) \<times> (bool \<Rightarrow> crawl_err + browser)) list \<Rightarrow> Service \<Rightarrow> Service"
where
  "startBrowserHealthCheck ticks s = fold (\<lambda>((page, eval), start). browser_health_tick page eval start) ticks s"

text \<open>
  The process after its start: how far \<^verbatim>\<open>main\<close> has come, the worker loop, whether the context of the
  workers has been cancelled, whether the pop in progress was called before that, the tasks taken after
  it, and the service.
\<close>

datatype phase = PServing | PWorkersStopped | PMetricsStopped | PServiceStopped | PExited nat

record crawler_proc =
  cp_phase :: phase
  cp_loop :: loop_state
  cp_cancelled :: bool
  cp_live :: bool
  cp_late :: nat
  cp_sv :: Service

text \<open>
  The start of \<^verbatim>\<open>main\<close>: without a configuration or a service the process ends with code 1; the stuck
  tasks are looked for before the service is built.
\<close>

definition crawler_main ::
  "config_error + Config \<Rightarrow> 'd Client \<Rightarrow> request_unmarshal \<Rightarrow> gotime \<Rightarrow> outcome \<Rightarrow> outcome \<Rightarrow> outcome list \<Rightarrow>
   (Config \<Rightarrow> crawl_err + Service) \<Rightarrow> 'd \<Rightarrow> (nat + crawler_proc) \<times> 'd"
where
  "crawler_main loaded c unm now net1 net2 nets newService d =
     (case loaded of
        Inl _ \<Rightarrow> (Inl 1, d)
      | Inr cfg \<Rightarrow>
          (let d1 = startup_rescue c unm now net1 net2 nets d
           in case newService cfg of
                Inl _ \<Rightarrow> (Inl 1, d1)
              | Inr sv \<Rightarrow>
                  (Inr \<lparr>cp_phase = PServing, cp_loop = StartWorker (B_MaxConcurrency (C_Browser cfg)), cp_cancelled = False,
                        cp_live = False, cp_late = 0, cp_sv = sv\<rparr>, d1)))"

definition proc_up :: "crawler_proc \<Rightarrow> bool" where
  "proc_up p \<longleftrightarrow> (case cp_phase p of PExited _ \<Rightarrow> False | _ \<Rightarrow> True)"

text \<open>
  The steps of the process. The queue's client returns no task for a call with a cancelled context, but
  a pop that is under way when the context is cancelled may still return one (\<open>cp_live\<close>). A panic in
  the worker loop is recovered and ends the process with code 1; one in a crawl, which runs in a
  goroutine of its own, ends it with the runtime's code 2.
\<close>

inductive crawler_step :: "crawler_proc \<Rightarrow> crawler_proc \<Rightarrow> bool" where
  loop_acquire: "proc_up p \<Longrightarrow> ws_loop (cp_loop p) = LAcquire \<Longrightarrow> ws_sem (cp_loop p) < ws_limit (cp_loop p) \<Longrightarrow>
     crawler_step p (p\<lparr>cp_loop := (cp_loop p)\<lparr>ws_sem := ws_sem (cp_loop p) + 1, ws_loop := LPop\<rparr>,
                       cp_live := \<not> cp_cancelled p\<rparr>)"
| loop_cancelled: "proc_up p \<Longrightarrow> ws_loop (cp_loop p) = LAcquire \<Longrightarrow> cp_cancelled p \<Longrightarrow>
     crawler_step p (p\<lparr>cp_loop := (cp_loop p)\<lparr>ws_loop := LReturned\<rparr>\<rparr>)"
| loop_popped: "proc_up p \<Longrightarrow> ws_loop (cp_loop p) = LPop \<Longrightarrow> cp_live p \<Longrightarrow>
     crawler_step p (p\<lparr>cp_loop := start_task t (cp_loop p), cp_live := False,
                       cp_late := cp_late p + (if cp_cancelled p then 1 else 0)\<rparr>)"
| loop_not_popped: "proc_up p \<Longrightarrow> ws_loop (cp_loop p) = LPop \<Longrightarrow>
     crawler_step p (p\<lparr>cp_loop := pop_failed stopped (cp_loop p), cp_live := False\<rparr>)"
| task_event: "proc_up p \<Longrightarrow> worker_step (cp_loop p) l \<Longrightarrow> ws_loop l = ws_loop (cp_loop p) \<Longrightarrow>
     crawler_step p (p\<lparr>cp_loop := l\<rparr>)"
| service_event: "proc_up p \<Longrightarrow> crawler_step p (p\<lparr>cp_sv := sv\<rparr>)"
| os_signal: "cp_phase p = PServing \<Longrightarrow> crawler_step p (p\<lparr>cp_phase := PWorkersStopped, cp_cancelled := True\<rparr>)"
| restart_signal: "cp_phase p = PServing \<Longrightarrow> sv_restartCh (cp_sv p) \<Longrightarrow>
     crawler_step p (p\<lparr>cp_phase := PWorkersStopped, cp_cancelled := True,
                       cp_sv := (cp_sv p)\<lparr>sv_restartCh := False\<rparr>\<rparr>)"
| metrics_shutdown: "cp_phase p = PWorkersStopped \<Longrightarrow> crawler_step p (p\<lparr>cp_phase := PMetricsStopped\<rparr>)"
| service_shutdown: "cp_phase p = PMetricsStopped \<Longrightarrow>
     crawler_step p (p\<lparr>cp_phase := PServiceStopped, cp_sv := Shutdown_Service (cp_sv p)\<rparr>)"
| main_returns: "cp_phase p = PServiceStopped \<Longrightarrow> crawler_step p (p\<lparr>cp_phase := PExited 0\<rparr>)"
| loop_panics: "proc_up p \<Longrightarrow> ws_loop (cp_loop p) \<noteq> LReturned \<Longrightarrow> crawler_step p (p\<lparr>cp_phase := PExited 1\<rparr>)"
| crawl_panics: "proc_up p \<Longrightarrow> 0 < running_crawls (cp_loop p) \<Longrightarrow> crawler_step p (p\<lparr>cp_phase := PExited 2\<rparr>)"

text \<open>
  Once the workers are stopped, at most one more task is taken; and the process ends with code 0 only by
  way of the stop.
\<close>

definition proc_ok :: "crawler_proc \<Rightarrow> bool" where
  "proc_ok p \<longleftrightarrow>
     cp_late p + (if cp_live p \<and> cp_cancelled p then 1 else 0) \<le> 1 \<and>
     (cp_live p \<longrightarrow> ws_loop (cp_loop p) = LPop) \<and> (\<not> cp_cancelled p \<longrightarrow> cp_late p = 0) \<and>
     (cp_phase p \<in> {PWorkersStopped, PMetricsStopped, PServiceStopped, PExited 0} \<longrightarrow> cp_cancelled p) \<and>
     worker_inv (cp_loop p)"

definition fresh_proc :: "crawler_proc \<Rightarrow> bool" where
  "fresh_proc p \<longleftrightarrow> (\<exists>n sv. p = \<lparr>cp_phase = PServing, cp_loop = StartWorker n, cp_cancelled = False,
     cp_live = False, cp_late = 0, cp_sv = sv\<rparr>)"

interpretation proc: invariant_system fresh_proc crawler_step proc_ok
proof
  show "proc_ok p" if "fresh_proc p" for p
    using that by (auto simp: fresh_proc_def proc_ok_def worker_inv_def StartWorker_def)
next
  fix p q assume ok: "proc_ok p" and step: "crawler_step p q"
  from step show "proc_ok q"
  proof cases
    case loop_acquire
    then show ?thesis using ok loop.step_invar [OF _ worker_step.acquire] by (auto simp: proc_ok_def)
  next
    case loop_cancelled
    then show ?thesis using ok loop.step_invar [OF _ worker_step.cancelled] by (auto simp: proc_ok_def)
  next
    case (loop_popped t)
    then show ?thesis
      using ok loop.step_invar [OF _ worker_step.popped] by (auto simp: proc_ok_def split: if_splits)
  next
    case (loop_not_popped stopped)
    then show ?thesis
      using ok loop.step_invar [OF _ worker_step.not_popped] by (auto simp: proc_ok_def split: if_splits)
  next
    case (task_event l)
    then show ?thesis using ok loop.step_invar by (auto simp: proc_ok_def)
  qed (use ok in \<open>auto simp: proc_ok_def split: if_splits\<close>)
qed

lemma crawler_main_fresh: "fst (crawler_main loaded c unm now net1 net2 nets newService d) = Inr p \<Longrightarrow> fresh_proc p"
  by (auto simp: crawler_main_def fresh_proc_def Let_def split: sum.splits)

section \<open>What they show\<close>

lemma overrides_interval:
  "A_ScheduleInterval (C_App (applyEnvOverrides P drv getenv vp cfg)) =
     env_parsed (P_Duration P) (getenv ''APP_SCHEDULE_INTERVAL'') (A_ScheduleInterval (C_App cfg))"
  by (simp add: applyEnvOverrides_def secret_overrides_def app_overrides_def Let_def)

lemma loaded_interval:
  assumes "Load P drv getenv vp unmarshal file args = Inr cfg"
    and "getenv ''APP_SCHEDULE_INTERVAL'' \<noteq> []" and "P_Duration P (getenv ''APP_SCHEDULE_INTERVAL'') = Some i"
  shows "A_ScheduleInterval (C_App cfg) = i"
proof -
  obtain c where "cfg = applyEnvOverrides P drv getenv vp c"
    using assms(1) by (auto simp: Load_def split: option.splits)
  then show ?thesis using assms(2,3) by (simp add: overrides_interval env_parsed_def)
qed

text \<open>
  C40. A schedule interval that is not positive stops the dispatch for good. The environment's value is
  taken over unchecked, the ticker panics after the first round, the panic is recovered, and no later
  tick enqueues anything, while the API goes on answering requests.
\<close>

theorem unusable_interval_dispatches_once:
  assumes "Load P drv getenv vp unmarshal file args = Inr cfg"
    and "getenv ''APP_SCHEDULE_INTERVAL'' \<noteq> []" and "P_Duration P (getenv ''APP_SCHEDULE_INTERVAL'') = Some i" and "i \<le> 0"
    and "S_redisQueue deps = Some S"
  shows "dispatcher fuel (fst (sched_of deps (C_App cfg))) events run expired q w =
         dispatch_start fuel (fst (sched_of deps (C_App cfg))) q w"
proof -
  have "S_interval (fst (sched_of deps (C_App cfg))) \<le> 0" "S_redisQueue (fst (sched_of deps (C_App cfg))) = Some S"
    using loaded_interval [OF assms(1-3)] assms(4,5) by (simp_all add: sched_of_def NewScheduler_def Let_def)
  then show ?thesis
    by (simp add: dispatcher_def DispatchTasks_def split: option.split)
qed

definition zero_interval_env :: "string \<Rightarrow> string" where
  "zero_interval_env k = (if k = ''APP_SCHEDULE_INTERVAL'' then ''0s'' else [])"

definition zero_parsers :: parsers where
  "zero_parsers = \<lparr>P_Duration = (\<lambda>v. if v = ''0s'' then Some 0 else None), P_Float = (\<lambda>_. None)\<rparr>"

definition queued_scheduler :: "world Scheduler" where
  "queued_scheduler = plain_scheduler\<lparr>S_redisQueue := Some (\<lambda>w c. (RInt 0, w))\<rparr>"

theorem unusable_interval_dispatches_once_witness:
  "\<exists>cfg. Load zero_parsers \<lparr>dd_ParseDSN = (\<lambda>_. None), dd_FormatDSN = (\<lambda>_. [])\<rparr> zero_interval_env (\<lambda>_. [])
       (\<lambda>_. None) (\<lambda>_. None) [] = Inr cfg \<and>
     dispatcher 3 (fst (sched_of queued_scheduler (C_App cfg))) [DispatchTick, DispatchTick] id False (NewQueue 1 10) two_tasks =
     dispatch_start 3 (fst (sched_of queued_scheduler (C_App cfg))) (NewQueue 1 10) two_tasks"
proof -
  let ?drv = "\<lparr>dd_ParseDSN = (\<lambda>_. None), dd_FormatDSN = (\<lambda>_. [])\<rparr>"
  obtain cfg where cfg: "Load zero_parsers ?drv zero_interval_env (\<lambda>_. []) (\<lambda>_. None) (\<lambda>_. None) [] = Inr cfg"
    by (simp add: Load_def)
  have "S_redisQueue queued_scheduler = Some (\<lambda>w c. (RInt 0, w))" by (simp add: queued_scheduler_def)
  from cfg unusable_interval_dispatches_once [OF cfg _ _ _ this] show ?thesis
    by (intro exI [of _ cfg]) (simp add: zero_interval_env_def zero_parsers_def)
qed

text \<open>
  C33. A crawler that is told to stop, by a signal or by its own limit on tasks, takes at most one more
  task (the one it was popping at that moment); at no time does it work on more tasks than the configured
  concurrency; and it ends with code 0 only after it was told to stop.
\<close>

theorem stop_takes_at_most_one_more_task:
  assumes "fst (crawler_main loaded c unm now net1 net2 nets newService d) = Inr p0" and "crawler_step\<^sup>*\<^sup>* p0 p"
  shows "cp_late p \<le> 1 \<and> length (ws_tasks (cp_loop p)) \<le> ws_limit (cp_loop p) \<and>
         (cp_phase p = PExited 0 \<longrightarrow> cp_cancelled p)"
proof -
  have "proc_ok p" using proc.reachable_invar [OF crawler_main_fresh [OF assms(1)] assms(2)] .
  then show ?thesis by (auto simp: proc_ok_def worker_inv_def split: if_splits)
qed

text \<open>A signal arrives while the crawler pops its first task, and the task is taken.\<close>

definition proc0 :: crawler_proc where
  "proc0 = \<lparr>cp_phase = PServing, cp_loop = StartWorker (B_MaxConcurrency (C_Browser getDefaultConfig)), cp_cancelled = False,
     cp_live = False, cp_late = 0, cp_sv = fresh_service\<rparr>"

definition proc1 :: crawler_proc where
  "proc1 = proc0\<lparr>cp_loop := (cp_loop proc0)\<lparr>ws_sem := ws_sem (cp_loop proc0) + 1, ws_loop := LPop\<rparr>, cp_live := True\<rparr>"

definition proc2 :: crawler_proc where
  "proc2 = proc1\<lparr>cp_phase := PWorkersStopped, cp_cancelled := True\<rparr>"

definition proc3 :: crawler_proc where
  "proc3 = proc2\<lparr>cp_loop := start_task req1 (cp_loop proc2), cp_live := False, cp_late := 1\<rparr>"

lemma proc_example: "crawler_step\<^sup>*\<^sup>* proc0 proc3"
proof -
  have "crawler_step proc0 proc1"
    using crawler_step.loop_acquire [of proc0] by (simp add: proc0_def proc1_def proc_up_def StartWorker_def)
  moreover have "crawler_step proc1 proc2"
    using crawler_step.os_signal [of proc1] by (simp add: proc0_def proc1_def proc2_def)
  moreover have "crawler_step proc2 proc3"
    using crawler_step.loop_popped [of proc2 req1]
    by (simp add: proc0_def proc1_def proc2_def proc3_def proc_up_def)
  ultimately show ?thesis by (meson converse_rtranclp_into_rtranclp rtranclp.rtrancl_refl)
qed

theorem stop_takes_at_most_one_more_task_witness:
  "cp_late proc3 = 1 \<and> length (ws_tasks (cp_loop proc3)) \<le> ws_limit (cp_loop proc3)"
proof -
  have "fst (crawler_main (Inr getDefaultConfig) (Some memory_server) unm1 0 Delivered Delivered [] (\<lambda>_. Inr fresh_service)
      empty_keyspace) = Inr proc0"
    by (simp add: crawler_main_def proc0_def Let_def)
  from stop_takes_at_most_one_more_task [OF this proc_example] show ?thesis by (simp add: proc3_def)
qed

end
