(* ===== verification/QueueMetrics.thy ===== *)
theory QueueMetrics
  imports Lifecycle Metrics
begin

text \<open>
  The metrics of the task queue: what the clients report about their operations
  (\<^verbatim>\<open>internal/pkg/redisqueue/client.go\<close>), what the monitor of the API shows (\<^verbatim>\<open>monitorQueueDepth\<close> in
  \<^verbatim>\<open>internal/api/scheduler/scheduler.go\<close>), and the requests that were refused as duplicates
  (\<^verbatim>\<open>internal/api/server.go\<close>). Every list of calls depends on the answer of the operation it belongs to.
\<close>

section \<open>Calls\<close>

definition PushTask_metrics :: "rq_error option \<Rightarrow> metric_call list" where
  "PushTask_metrics err =
     (case err of
        None \<Rightarrow> [(CrawlerTaskThroughput, [''in'', ''pushed''], Inc), (SchedulerTasksPushedTotal, [], Inc)]
      | Some ErrTaskExists \<Rightarrow> [(CrawlerTaskThroughput, [''in'', ''skipped''], Inc), (SchedulerTasksSkippedTotal, [], Inc)]
      | Some e \<Rightarrow> [])"

definition PushTaskForce_metrics :: "rq_error option \<Rightarrow> metric_call list" where
  "PushTaskForce_metrics err = (if err = None then [(CrawlerTaskThroughput, [''in'', ''pushed''], Inc)] else [])"

definition PopTask_metrics :: "rq_error + FetchRequest \<Rightarrow> metric_call list" where
  "PopTask_metrics r = (if isl r then [] else [(CrawlerTaskThroughput, [''out'', ''popped''], Inc)])"

definition monitorQueueDepth_metrics :: "rq_error + (int \<times> int) \<Rightarrow> rq_error + int \<Rightarrow> metric_call list" where
  "monitorQueueDepth_metrics depth pending =
     (case depth of
        Inl e \<Rightarrow> []
      | Inr (ts, rs) \<Rightarrow>
          [(CrawlerQueueDepth, [''tasks''], Set_to (real_of_int ts)),
           (CrawlerQueueDepth, [''results''], Set_to (real_of_int rs))] @
          (case pending of
             Inl e \<Rightarrow> []
           | Inr n \<Rightarrow> [(SchedulerTasksPendingInQueue, [], Set_to (real_of_int n))]))"

definition handleCreateTask_metrics :: "bool \<Rightarrow> metric_call list" where
  "handleCreateTask_metrics duplicate = (if duplicate then [(TaskDuplicatePreventedTotal, [], Inc)] else [])"

lemma queue_calls_known:
  "list_all (program_call eb) (PushTask_metrics err)" "list_all (program_call eb) (PushTaskForce_metrics err)"
  "list_all (program_call eb) (PopTask_metrics r)" "list_all (program_call eb) (monitorQueueDepth_metrics depth pending)"
  "list_all (program_call eb) (handleCreateTask_metrics duplicate)"
  by (auto simp: PushTask_metrics_def PushTaskForce_metrics_def PopTask_metrics_def monitorQueueDepth_metrics_def
      handleCreateTask_metrics_def program_call_def metric_simps split: option.split rq_error.split sum.split)

section \<open>What the samples tell\<close>

text \<open>
  One probe of the monitor, over a network that answers: the gauges are the lengths of the two lists and
  the number of pending ids, as \<open>monitorQueueDepth\<close> has them.
\<close>

context redis_server
begin

lemma monitor_sets_the_gauges:
  fixes g0 :: queue_gauges
  assumes "queue_typed (view d)"
  defines "calls \<equiv> monitorQueueDepth_metrics (QueueDepth (Some S) Delivered Delivered d) (PendingSetSize (Some S) Delivered d)"
    and "g \<equiv> monitorQueueDepth (Some S) Delivered Delivered Delivered d g0"
  shows "sample_after calls (metric_name CrawlerQueueDepth) [''tasks''] x = real_of_int (g_tasks g)"
    and "sample_after calls (metric_name CrawlerQueueDepth) [''results''] x = real_of_int (g_results g)"
    and "sample_after calls (metric_name SchedulerTasksPendingInQueue) [] x = real_of_int (g_pending g)"
proof -
  have depth: "QueueDepth (Some S) Delivered Delivered d = Inr (g_tasks g, g_results g)"
    and pending: "PendingSetSize (Some S) Delivered d = Inr (g_pending g)"
    using assms(1)
    by (auto simp: g_def monitorQueueDepth_def QueueDepth_def PendingSetSize_def redis_simps queue_typed_def)
  show "sample_after calls (metric_name CrawlerQueueDepth) [''tasks''] x = real_of_int (g_tasks g)"
    "sample_after calls (metric_name CrawlerQueueDepth) [''results''] x = real_of_int (g_results g)"
    "sample_after calls (metric_name SchedulerTasksPendingInQueue) [] x = real_of_int (g_pending g)"
    by (simp_all add: calls_def depth pending monitorQueueDepth_metrics_def apply_call_def metric_simps)
qed

end

text \<open>The counters of pushes count what the clients were told: a push counts once, as accepted or as skipped.\<close>

lemma push_counts_once:
  "sample_after (PushTask_metrics err) (metric_name SchedulerTasksPushedTotal) [] x = x + (if err = None then 1 else 0)"
  "sample_after (PushTask_metrics err) (metric_name SchedulerTasksSkippedTotal) [] x =
     x + (if err = Some ErrTaskExists then 1 else 0)"
  by (auto simp: PushTask_metrics_def apply_call_def metric_simps split: option.split rq_error.split)

end
