(* ===== verification/PageSetup.thy ===== *)
theory PageSetup
  imports MercariURL Detect
begin

text \<open>
  What the crawler does to a page before it reads it: the requests it forbids the browser
  (\<^verbatim>\<open>crawl.go\<close>) and the mouse movement and scrolling by which it passes for a person (\<^verbatim>\<open>humanize.go\<close>).
\<close>

section \<open>Forbidden requests\<close>

definition blockedURLs :: "string list" where
  "blockedURLs =
     [''*.png'', ''*.jpg'', ''*.jpeg'', ''*.gif'', ''*.webp'', ''*.svg'', ''*.ico'',
      ''*.avif'', ''*.apng'', ''*.heic'', ''*.heif'', ''*.bmp'', ''*.tif'', ''*.tiff'',
      ''*.woff'', ''*.woff2'', ''*.ttf'', ''*.eot'', ''*.otf'',
      ''*.mp4'', ''*.webm'', ''*.m4v'', ''*.mov'', ''*.avi'',
      ''*.mp3'', ''*.aac'', ''*.m4a'', ''*.ogg'', ''*.wav'', ''*.flac'',
      ''*google-analytics*'', ''*googletagmanager*'', ''*doubleclick*'', ''*criteo*'', ''*facebook*'', ''*twitter*'',
      ''*appsflyer*'', ''*smartnews*'', ''*bing*'', ''*yahoo*'', ''*popin*'', ''*tiktok*'', ''*sentry*'',
      ''*syndicatedsearch*'']"

text \<open>The words of the patterns that may stand anywhere in an address.\<close>

definition tracker_words :: "string list" where
  "tracker_words = [''google-analytics'', ''googletagmanager'', ''doubleclick'', ''criteo'', ''facebook'', ''twitter'',
      ''appsflyer'', ''smartnews'', ''bing'', ''yahoo'', ''popin'', ''tiktok'', ''sentry'', ''syndicatedsearch'']"

text \<open>An occurrence of a word does not reach over a byte that is not in it.\<close>

lemma sublist_split_at:
  assumes "c \<notin> set w" and "w \<noteq> []"
  shows "sublist w (xs @ c # ys) \<longleftrightarrow> sublist w xs \<or> sublist w ys"
proof
  assume "sublist w (xs @ c # ys)"
  then consider "sublist w xs" | "sublist w (c # ys)"
    | u v where "w = u @ v" "suffix u xs" "prefix v (c # ys)"
    by (auto simp: sublist_append)
  then show "sublist w xs \<or> sublist w ys"
  proof cases
    case 2
    then show ?thesis using assms by (auto simp: sublist_Cons_right prefix_Cons)
  next
    case 3
    then show ?thesis using assms by (auto simp: prefix_Cons dest: suffix_imp_sublist)
  qed simp
next
  assume "sublist w xs \<or> sublist w ys"
  then show "sublist w (xs @ c # ys)"
    using sublist_appendI sublist_order.order.trans by (metis append.left_neutral append_Cons sublist_append_leftI sublist_append_rightI)
qed

lemma sublist_Join:
  assumes "sep \<notin> set w" and "w \<noteq> []"
  shows "sublist w (Join sep xs) \<longleftrightarrow> (\<exists>x \<in> set xs. sublist w x)"
  using assms by (induction sep xs rule: Join.induct) (auto simp: sublist_split_at)

text \<open>A plain word: lower-case letters and hyphens.\<close>

definition plain_word :: "string \<Rightarrow> bool" where
  "plain_word w \<longleftrightarrow> w \<noteq> [] \<and> (\<forall>c \<in> set w. 97 \<le> byte c \<and> byte c \<le> 122 \<or> c = CHR ''-'')"

lemma plain_char: "97 \<le> byte c \<and> byte c \<le> 122 \<or> c = CHR ''-'' \<Longrightarrow> unreserved c \<and> c \<noteq> CHR ''*'' \<and> c \<noteq> CHR ''='' \<and> c \<noteq> CHR ''&'' \<and> c \<noteq> CHR ''?''"
  by (auto simp: unreserved_def byte_def)

lemma percent_not_plain:
  assumes "plain_word w" and "c \<in> set (percent x)"
  shows "c \<notin> set w"
proof
  assume "c \<in> set w"
  then have "97 \<le> byte c \<and> byte c \<le> 122 \<or> c = CHR ''-''" using assms(1) by (auto simp: plain_word_def)
  moreover have "byte (hex_upper d) \<le> 70 \<and> hex_upper d \<noteq> CHR ''-''" if "d < 16" for d
  proof -
    have "48 \<le> byte (hex_upper d)" "byte (hex_upper d) \<le> 70" using that by (auto simp: hex_upper_def)
    moreover have "byte (CHR ''-'') = 45" by (simp add: byte_def)
    ultimately show ?thesis by auto
  qed
  from this [OF byte_halves(1) [of x]] this [OF byte_halves(2) [of x]] assms(2)
  have "byte c \<le> 70 \<and> c \<noteq> CHR ''-''" by (auto simp: percent_def byte_def [of "CHR ''%''"])
  ultimately show False by auto
qed

lemma tracker_words_plain: "list_all plain_word tracker_words"
  by code_simp

lemma tracker_words_blocked: "list_all (\<lambda>w. List.member blockedURLs (CHR ''*'' # w @ ''*'')) tracker_words"
  by code_simp

lemma prefix_escape_all:
  assumes "\<forall>c \<in> set w. 97 \<le> byte c \<and> byte c \<le> 122 \<or> c = CHR ''-''"
  shows "prefix w (escape_all s) \<longleftrightarrow> prefix w s"
  using assms
proof (induction w arbitrary: s)
  case (Cons c w)
  show ?case
  proof (cases s)
    case (Cons x t)
    have "c \<notin> set (percent x)" using percent_not_plain [of "[c]" c x] Cons.prems by (auto simp: plain_word_def)
    then have "prefix (c # w) (percent x @ escape_all t) \<longleftrightarrow> False" by (auto simp: percent_def)
    moreover have "unreserved c" using plain_char Cons.prems by simp
    ultimately show ?thesis using Cons Cons.IH Cons.prems by (auto simp: escape_all_def)
  qed (simp add: escape_all_def)
qed simp

lemma sublist_escape_all:
  assumes "plain_word w"
  shows "sublist w (escape_all s) \<longleftrightarrow> sublist w s"
proof (induction s)
  case (Cons c s)
  have w: "w \<noteq> []" "\<forall>c \<in> set w. 97 \<le> byte c \<and> byte c \<le> 122 \<or> c = CHR ''-''" using assms by (auto simp: plain_word_def)
  show ?case
  proof (cases "unreserved c")
    case True
    then have "escape_all (c # s) = c # escape_all s" by (simp add: escape_all_def)
    moreover have "prefix w (c # escape_all s) \<longleftrightarrow> prefix w (c # s)"
      using prefix_escape_all [OF w(2), of "c # s"] calculation by simp
    ultimately show ?thesis using Cons by (simp add: sublist_Cons_right)
  next
    case False
    then have e: "escape_all (c # s) = percent c @ escape_all s" by (simp add: escape_all_def)
    have "sublist w (percent c @ escape_all s) \<longleftrightarrow> sublist w (escape_all s)"
      using percent_not_plain [OF assms, of _ c] w(1) sublist_split_at [of _ w "[]"] by (auto simp: percent_def)
    moreover have "c \<notin> set w" using False w(2) plain_char by blast
    then have "sublist w (c # s) \<longleftrightarrow> sublist w s" using sublist_split_at [of c w "[]" s] w(1) by simp
    ultimately show ?thesis using Cons e by simp
  qed
qed (simp add: escape_all_def)

lemma BuildMercariURL_parameters:
  "BuildMercariURL req =
     search_base @ CHR ''?'' # Join (CHR ''&'') (map (\<lambda>(k, v). escape_all k @ CHR ''='' # escape_all v) (search_parameters req))"
  by (simp add: BuildMercariURL_def Encode_def ReplaceByte_Join replace_QueryEscape case_prod_unfold comp_def
      sorted_search_values [symmetric])

lemma sublist_address:
  assumes "plain_word w"
  shows "sublist w (BuildMercariURL req) \<longleftrightarrow>
    sublist w search_base \<or> (\<exists>(k, v) \<in> set (search_parameters req). sublist w k \<or> sublist w v)"
proof -
  have "CHR ''?'' \<notin> set w" "CHR ''='' \<notin> set w" "CHR ''&'' \<notin> set w" "w \<noteq> []"
    using assms plain_char by (auto simp: plain_word_def)
  then show ?thesis
    by (simp add: BuildMercariURL_parameters sublist_split_at sublist_Join sublist_escape_all [OF assms] case_prod_unfold)
qed

text \<open>The fixed parts of an address hold none of the words.\<close>

definition fixed_parts :: "string list" where
  "fixed_parts = [search_base, ''exclude_keyword'', ''keyword'', ''order'', ''asc'', ''desc'', ''price_max'', ''price_min'',
     ''sort'', ''price'', ''score'', ''num_likes'', ''created_time'', ''status'', ''on_sale'']"

lemma fixed_parts_clean: "list_all (\<lambda>w. list_all (\<lambda>p. \<not> sublist w p) fixed_parts) tracker_words"
  by code_simp

lemma tracker_words_lettered: "list_all (\<lambda>w. list_ex (\<lambda>c. 97 \<le> byte c) w) tracker_words"
  by code_simp

lemma no_word_in_number:
  assumes "w \<in> set tracker_words"
  shows "\<not> sublist w (FormatInt i)"
proof
  assume "sublist w (FormatInt i)"
  then have sub: "set w \<subseteq> set (FormatInt i)" by (rule set_mono_sublist)
  obtain c where "c \<in> set w" "97 \<le> byte c"
    using assms tracker_words_lettered by (auto simp: list_all_iff list_ex_iff)
  moreover have "byte c < 97" if "c \<in> set (FormatInt i)"
    using that by (auto simp: FormatInt_def is_digit_def byte_def dest!: FormatUint_digits split: if_splits)
  ultimately show False using sub by auto
qed

lemma word_in_address:
  assumes w: "w \<in> set tracker_words"
  shows "sublist w (BuildMercariURL req) \<longleftrightarrow>
    sublist w (FR_Keyword req) \<or> (\<exists>ex \<in> set (shown_excludes req). sublist w ex)"
proof -
  have plain: "plain_word w" using w tracker_words_plain by (simp add: list_all_iff)
  have "list_all (\<lambda>p. \<not> sublist w p) fixed_parts"
    using w fixed_parts_clean by (simp add: list_all_iff)
  note clean = this [unfolded fixed_parts_def list.pred_inject]
  have "w \<noteq> []" using plain by (simp add: plain_word_def)
  then show ?thesis
    unfolding sublist_address [OF plain]
    using clean
    by (simp add: search_parameters_def bex_Un no_word_in_number [OF w] mapSortBy_def mapSortOrder_def) blast
qed

section \<open>Passing for a person\<close>

text \<open>\<^verbatim>\<open>rand.Intn\<close> draws from below a positive bound and panics otherwise (\<open>None\<close>); \<open>r\<close> is the random source.\<close>

definition Intn :: "nat \<Rightarrow> int \<Rightarrow> int option" where
  "Intn r n = (if n \<le> 0 then None else Some (int r mod n))"

record humanBehaviorConfig =
  EnableMouseMove :: bool
  EnableRandomScroll :: bool
  MinScrollPixels :: int
  MaxScrollPixels :: int
  ActionDelay :: duration

definition defaultHumanBehavior :: humanBehaviorConfig where
  "defaultHumanBehavior = \<lparr>EnableMouseMove = True, EnableRandomScroll = True, MinScrollPixels = 200, MaxScrollPixels = 500,
     ActionDelay = 300 * Millisecond\<rparr>"

text \<open>
  What the page answers: the size of the viewport (each part may be missing, and the whole may fail),
  whether the two scripts run, and whether the context ends during the pause between them; the pause after
  the second changes nothing.
\<close>

record human_page =
  hp_viewport :: "(int option \<times> int option) option"
  hp_move_ok :: bool
  hp_scroll_ok :: bool
  hp_ended :: bool

datatype page_action = MouseMove int int | ScrollBy int

definition viewport :: "human_page \<Rightarrow> int \<times> int" where
  "viewport p =
     (case hp_viewport p of
        None \<Rightarrow> (1280, 800)
      | Some (w, h) \<Rightarrow> (case w of None \<Rightarrow> 1280 | Some w \<Rightarrow> w, case h of None \<Rightarrow> 800 | Some h \<Rightarrow> h))"

definition randomMouseMove :: "nat \<Rightarrow> nat \<Rightarrow> human_page \<Rightarrow> page_action list ending" where
  "randomMouseMove r1 r2 p =
     (case viewport p of (viewportWidth, viewportHeight) \<Rightarrow>
        let margin = 100 in
        (case Intn r1 (int64 (viewportWidth - 2 * margin)) of
           None \<Rightarrow> Panicked []
         | Some x \<Rightarrow>
             (case Intn r2 (int64 (viewportHeight - 2 * margin)) of
                None \<Rightarrow> Panicked []
              | Some y \<Rightarrow> Returned (if hp_move_ok p then [MouseMove (margin + x) (margin + y)] else []))))"

definition randomScroll :: "nat \<Rightarrow> int \<Rightarrow> int \<Rightarrow> human_page \<Rightarrow> page_action list ending" where
  "randomScroll r minPixels maxPixels p =
     (case Intn r (int64 (maxPixels - minPixels)) of
        None \<Rightarrow> Panicked []
      | Some d \<Rightarrow> Returned (if hp_scroll_ok p then [ScrollBy (minPixels + d)] else []))"

definition simulateHumanBehavior :: "humanBehaviorConfig \<Rightarrow> nat \<Rightarrow> nat \<Rightarrow> nat \<Rightarrow> human_page \<Rightarrow> page_action list ending" where
  "simulateHumanBehavior cfg r1 r2 r3 p =
     (case (if EnableMouseMove cfg then randomMouseMove r1 r2 p else Returned []) of
        Panicked as \<Rightarrow> Panicked as
      | Returned as \<Rightarrow>
          if hp_ended p then Returned as
          else (case (if EnableRandomScroll cfg then randomScroll r3 (MinScrollPixels cfg) (MaxScrollPixels cfg) p
                      else Returned []) of
                  Panicked bs \<Rightarrow> Panicked (as @ bs)
                | Returned bs \<Rightarrow> Returned (as @ bs)))"

text \<open>An action that a person with this viewport could have taken.\<close>

fun within :: "int \<times> int \<Rightarrow> page_action \<Rightarrow> bool" where
  "within (w, h) (MouseMove x y) \<longleftrightarrow> 100 \<le> x \<and> x < w - 100 \<and> 100 \<le> y \<and> y < h - 100"
| "within (w, h) (ScrollBy d) \<longleftrightarrow> 200 \<le> d \<and> d < 500"

lemma below_the_edge: "\<not> n \<le> 200 \<Longrightarrow> 200 + int r mod (n - 200) < n"
  using pos_mod_bound [of "n - 200" "int r"] by linarith

lemma randomMouseMove_cases:
  assumes "viewport p = (w, h)" and "0 \<le> w" and "w \<le> 2 ^ 31" and "0 \<le> h" and "h \<le> 2 ^ 31"
  shows "if w \<le> 200 \<or> h \<le> 200 then randomMouseMove r1 r2 p = Panicked []
    else \<exists>as. randomMouseMove r1 r2 p = Returned as \<and> (\<forall>a \<in> set as. within (w, h) a)"
proof -
  have n: "int64 (w - 200) = w - 200" "int64 (h - 200) = h - 200" using assms(2-5) by simp_all
  show ?thesis
    by (auto simp: randomMouseMove_def assms(1) n Intn_def below_the_edge)
qed

text \<open>
  The simulated person acts inside the page or takes the crawler down: with a viewport of more than
  200 by 200 pixels the mouse moves inside it, at least 100 pixels from its edges, and the page scrolls by
  200 to 499 pixels; with a smaller one the draw of a position panics, and since the crawl runs in a
  goroutine without recover, so does the process.
\<close>

theorem simulated_actions_stay_in_the_viewport:
  assumes "viewport p = (w, h)" and "0 \<le> w" and "w \<le> 2 ^ 31" and "0 \<le> h" and "h \<le> 2 ^ 31"
  shows "case simulateHumanBehavior defaultHumanBehavior r1 r2 r3 p of
           Panicked as \<Rightarrow> (w \<le> 200 \<or> h \<le> 200) \<and> as = []
         | Returned as \<Rightarrow> 200 < w \<and> 200 < h \<and> (\<forall>a \<in> set as. within (w, h) a)"
  using randomMouseMove_cases [OF assms, of r1 r2]
  by (auto simp: simulateHumanBehavior_def defaultHumanBehavior_def randomScroll_def Intn_def split: if_splits)

theorem simulated_actions_stay_in_the_viewport_witness:
  "simulateHumanBehavior defaultHumanBehavior 1234 5678 91 \<lparr>hp_viewport = Some (Some 200, None), hp_move_ok = True,
     hp_scroll_ok = True, hp_ended = False\<rparr> = Panicked [] \<and>
   simulateHumanBehavior defaultHumanBehavior 1234 5678 91 \<lparr>hp_viewport = None, hp_move_ok = True,
     hp_scroll_ok = True, hp_ended = False\<rparr> = Returned [MouseMove 254 378, ScrollBy 291]"
  (is "?n = _ \<and> ?d = _")
proof -
  have "case ?n of Panicked as \<Rightarrow> ((200::int) \<le> 200 \<or> (800::int) \<le> 200) \<and> as = []
      | Returned as \<Rightarrow> (200::int) < 200 \<and> (200::int) < 800 \<and> (\<forall>a \<in> set as. within (200, 800) a)"
    by (rule simulated_actions_stay_in_the_viewport) (simp_all add: viewport_def)
  moreover have "?d = Returned [MouseMove 254 378, ScrollBy 291]" by code_simp
  ultimately show ?thesis by (auto split: ending.splits)
qed

section \<open>Searches that forbid themselves\<close>

text \<open>
  C34. A search can be forbidden by its own words. Whatever else the patterns of the form \<^verbatim>\<open>*word*\<close> are
  good for, they hit the address the crawler is about to open exactly when the keyword or a shown
  exclude keyword of the task has one of their words in it: a search for \<^verbatim>\<open>climbing shoes\<close> is hit by \<^verbatim>\<open>*bing*\<close>.
  The browser's matcher is an argument, of which only the meaning of the two stars is used.
\<close>

theorem search_forbidden_exactly_by_its_words:
  assumes "\<And>w u. CHR ''*'' \<notin> set w \<Longrightarrow> matches (''*'' @ w @ ''*'') u = Contains u w"
  shows "(\<exists>w \<in> set tracker_words. ''*'' @ w @ ''*'' \<in> set blockedURLs \<and> matches (''*'' @ w @ ''*'') (BuildMercariURL req)) \<longleftrightarrow>
         (\<exists>w \<in> set tracker_words. Contains (FR_Keyword req) w \<or> (\<exists>ex \<in> set (shown_excludes req). Contains ex w))"
proof -
  have "''*'' @ w @ ''*'' \<in> set blockedURLs" "matches (''*'' @ w @ ''*'') u = Contains u w" if "w \<in> set tracker_words" for w u
    using that tracker_words_blocked tracker_words_plain plain_char assms [of w u]
    by (auto simp: list_all_iff plain_word_def)
  then show ?thesis by (auto simp: Contains_def word_in_address)
qed

theorem search_forbidden_exactly_by_its_words_witness:
  "\<exists>w \<in> set tracker_words. ''*'' @ w @ ''*'' \<in> set blockedURLs \<and>
     Contains (BuildMercariURL (empty_FetchRequest\<lparr>FR_Keyword := ''climbing shoes''\<rparr>)) w"
proof -
  have "Contains ''climbing shoes'' ''bing''" unfolding Contains_def by code_simp
  then have "\<exists>w \<in> set tracker_words. Contains ''climbing shoes'' w" by (auto simp: tracker_words_def)
  then have "\<exists>w \<in> set tracker_words. Contains ''climbing shoes'' w \<or>
      (\<exists>ex \<in> set (shown_excludes (empty_FetchRequest\<lparr>FR_Keyword := ''climbing shoes''\<rparr>)). Contains ex w)" by blast
  then show ?thesis
    using search_forbidden_exactly_by_its_words [of "\<lambda>p u. Contains u (butlast (tl p))"
        "empty_FetchRequest\<lparr>FR_Keyword := ''climbing shoes''\<rparr>"] by simp
qed

end
