(* ===== verification/PageVisit.thy ===== *)
theory PageVisit
  imports CrawlerGuarantees PageSetup
begin

text \<open>
  What \<^verbatim>\<open>crawlOnce\<close> (\<^verbatim>\<open>internal/crawler/crawl.go\<close>) does to the browser: the page it opens, how it prepares the
  page for the visit, where it sends it, and whether it closes it. The code drops the errors of most of
  these commands; whether the page really closes and what becomes of a page that was given up on are
  arguments.

  The lemmas show that a page is never sent anywhere unprepared, and which pages stay open.
\<close>

section \<open>Commands\<close>

text \<open>\<^verbatim>\<open>NewService\<close> picks one of these at random; \<open>k\<close> is the random number.\<close>

definition userAgents :: "string list" where
  "userAgents =
     [''Mozilla/5.0 (Windows NT 10.0; Win64; x64) AppleWebKit/537.36 (KHTML, like Gecko) Chrome/144.0.0.0 Safari/537.36'',
      ''Mozilla/5.0 (Macintosh; Intel Mac OS X 10_15_7) AppleWebKit/537.36 (KHTML, like Gecko) Chrome/144.0.0.0 Safari/537.36'',
      ''Mozilla/5.0 (X11; Linux x86_64) AppleWebKit/537.36 (KHTML, like Gecko) Chrome/144.0.0.0 Safari/537.36'',
      ''Mozilla/5.0 (Windows NT 10.0; Win64; x64) AppleWebKit/537.36 (KHTML, like Gecko) Chrome/143.0.0.0 Safari/537.36'',
      ''Mozilla/5.0 (Macintosh; Intel Mac OS X 10_15_7) AppleWebKit/537.36 (KHTML, like Gecko) Chrome/143.0.0.0 Safari/537.36'',
      ''Mozilla/5.0 (Macintosh; Intel Mac OS X 10_15_7) AppleWebKit/605.1.15 (KHTML, like Gecko) Version/18.3 Safari/605.1.15'',
      ''Mozilla/5.0 (Macintosh; Intel Mac OS X 15_0) AppleWebKit/605.1.15 (KHTML, like Gecko) Version/18.3 Safari/605.1.15'',
      ''Mozilla/5.0 (Windows NT 10.0; Win64; x64) AppleWebKit/537.36 (KHTML, like Gecko) Chrome/144.0.0.0 Safari/537.36 Edg/144.0.0.0'']"

definition selectedUA :: "nat \<Rightarrow> string" where
  "selectedUA k = userAgents ! (k mod length userAgents)"

lemma selectedUA_listed: "selectedUA k \<in> set userAgents"
proof -
  have "userAgents \<noteq> []" by (simp add: userAgents_def)
  then show ?thesis by (simp add: selectedUA_def)
qed

datatype page_event =
    PageOpened
  | StealthScript \<comment> \<open>\<^verbatim>\<open>stealth.JS\<close>\<close>
  | EnhancedScript \<comment> \<open>\<^verbatim>\<open>enhancedStealthJS\<close>\<close>
  | SetBlockedURLs "string list"
  | SetUserAgent string
  | CookiesLoaded
  | NavigatedTo string
  | LoadAwaited
  | IdleAwaited
  | HumanSimulated
  | PageClosed

text \<open>
  The goroutine that creates the page hands it over through a channel with room for one. When nobody waits
  any more (the crawl has given up), the page stays in the channel; only without room it is closed.
\<close>

definition pageResultCh_send :: "nat \<Rightarrow> nat \<Rightarrow> bool" where
  "pageResultCh_send capacity queued = (queued < capacity)"

definition given_up_page :: "bool \<Rightarrow> page_event list" where
  "given_up_page created =
     (if created then PageOpened # (if pageResultCh_send 1 0 then [] else [PageClosed]) else [])"

text \<open>The scripts that were applied when the wait for them ended; all of them when it ended well.\<close>

definition stealth_scripts :: "step_outcome \<Rightarrow> nat \<Rightarrow> page_event list" where
  "stealth_scripts outcome n =
     (if outcome = StepOk then [StealthScript, EnhancedScript] else take n [StealthScript, EnhancedScript])"

definition navigation :: "string \<Rightarrow> 'e visit \<Rightarrow> FetchRequest \<Rightarrow> page_event list" where
  "navigation userAgent v req =
     [SetBlockedURLs blockedURLs, SetUserAgent userAgent, CookiesLoaded, NavigatedTo (BuildMercariURL req)] @
     (if vs_navigate v = StepOk then [LoadAwaited, IdleAwaited, HumanSimulated] else [])"

definition crawlOnce_pages ::
  "'w crawler_env \<Rightarrow> string \<Rightarrow> bool \<Rightarrow> nat \<Rightarrow> bool \<Rightarrow> 'e visit \<Rightarrow> FetchRequest \<Rightarrow> Service \<Rightarrow> page_event list"
where
  "crawlOnce_pages env userAgent created scripts closes v req s =
     (if ce_rateLimited env \<and> rateLimitLoop (vs_rate v) \<noteq> Some True then []
      else if \<not> isUsingProxy s \<and> vs_jitter_ended v then []
      else if fst (trackPageStart s) = None then []
      else case vs_page v of
             StepErr e \<Rightarrow> []
           | StepTimeout \<Rightarrow> given_up_page created
           | StepCtx e \<Rightarrow> given_up_page created
           | StepOk \<Rightarrow>
               PageOpened # stealth_scripts (vs_stealth v) scripts @
               (if vs_stealth v = StepOk then navigation userAgent v req else []) @
               (if closes then [PageClosed] else []))"

section \<open>Pages that stay open\<close>

text \<open>How many pages more are open, and where pages were sent to.\<close>

definition pages_left :: "page_event list \<Rightarrow> int" where
  "pages_left evs = tally ((=) PageOpened) evs - tally ((=) PageClosed) evs"

fun destinations :: "page_event list \<Rightarrow> string list" where
  "destinations [] = []"
| "destinations (NavigatedTo u # evs) = u # destinations evs"
| "destinations (ev # evs) = destinations evs"

lemma destinations_append [simp]: "destinations (evs @ evs') = destinations evs @ destinations evs'"
  by (induction evs rule: destinations.induct) simp_all

lemma scripts_neutral [simp]:
  "tally ((=) PageOpened) (stealth_scripts outcome n) = 0" "tally ((=) PageClosed) (stealth_scripts outcome n) = 0"
  "destinations (stealth_scripts outcome n) = []"
  by (auto simp: stealth_scripts_def take_Cons')

lemma navigation_neutral [simp]:
  "tally ((=) PageOpened) (navigation ua v req) = 0" "tally ((=) PageClosed) (navigation ua v req) = 0"
  "destinations (navigation ua v req) = [BuildMercariURL req]"
  by (simp_all add: navigation_def)

text \<open>A crawl that comes as far as asking for a page, and one that stops waiting for it.\<close>

definition asks_for_page :: "'w crawler_env \<Rightarrow> 'e visit \<Rightarrow> Service \<Rightarrow> bool" where
  "asks_for_page env v s \<longleftrightarrow>
     (ce_rateLimited env \<longrightarrow> rateLimitLoop (vs_rate v) = Some True) \<and> (isUsingProxy s \<or> \<not> vs_jitter_ended v) \<and>
     fst (trackPageStart s) \<noteq> None"

definition gives_up_page :: "'e visit \<Rightarrow> bool" where
  "gives_up_page v = (case vs_page v of StepTimeout \<Rightarrow> True | StepCtx e \<Rightarrow> True | _ \<Rightarrow> False)"

lemma crawlOnce_pages_left:
  "pages_left (crawlOnce_pages env ua created n closes v req s) =
     (if asks_for_page env v s \<and> (gives_up_page v \<and> created \<or> vs_page v = StepOk \<and> \<not> closes) then 1 else 0)"
  by (auto simp: crawlOnce_pages_def pages_left_def asks_for_page_def gives_up_page_def given_up_page_def
      pageResultCh_send_def split: step_outcome.split)

lemma crawlOnce_destinations:
  "destinations (crawlOnce_pages env ua created n closes v req s) =
     (if asks_for_page env v s \<and> vs_page v = StepOk \<and> vs_stealth v = StepOk then [BuildMercariURL req] else [])"
  by (auto simp: crawlOnce_pages_def asks_for_page_def given_up_page_def split: step_outcome.split)

lemma crawlOnce_gives_up:
  assumes "asks_for_page env v s" and "vs_page v = StepTimeout"
  shows "fst (crawlOnce env v req s w) = Inl (Errorf ''create page timeout after 10s'')"
  using assms by (auto simp: crawlOnce_def asks_for_page_def open_page_def prod.case_eq_if split: option.split)

section \<open>Properties\<close>



end
