(* ===== verification/RateLimit.thy ===== *)
theory RateLimit
  imports RedisTTL Complex_Main
begin

text \<open>
  The token bucket of \<^verbatim>\<open>internal/pkg/ratelimit/ratelimit.go\<close>: a Lua script over a hash with two
  fields, and \<^verbatim>\<open>Allow\<close> around it.

  A Lua number is a double: \<open>rnd\<close> is the rounding after each arithmetic operation, and
  \<open>tostr\<close>/\<open>tonumber\<close> are the conversions Redis and Lua apply when a number is stored and read.
  All three are arguments. \<open>bucket_take\<close> is the same computation without the store; the lemmas
  show that the script computes it, that the number of tokens stays between nothing and the
  burst, how many requests a window of time can admit, and that the expiry of an idle bucket
  cannot be observed.
\<close>

section \<open>The script\<close>

definition field_number :: "(string \<Rightarrow> rat option) \<Rightarrow> redis_reply \<Rightarrow> string \<Rightarrow> rat option" where
  "field_number tonumber data f =
     (case data of
        RPairs ps \<Rightarrow> (case map_of ps f of None \<Rightarrow> None | Some s \<Rightarrow> tonumber s)
      | _ \<Rightarrow> None)"

definition bucket_ttl :: "(rat \<Rightarrow> rat) \<Rightarrow> rat \<Rightarrow> rat \<Rightarrow> duration" where
  "bucket_ttl rnd rate burst = \<lceil>rnd (rnd (rnd (burst / rate) * 1000) * 2)\<rceil> * Millisecond"

definition tokenBucketLua ::
  "'d ttl_server \<Rightarrow> (rat \<Rightarrow> rat) \<Rightarrow> (rat \<Rightarrow> string) \<Rightarrow> (string \<Rightarrow> rat option) \<Rightarrow> gotime \<Rightarrow>
   string \<Rightarrow> rat \<Rightarrow> rat \<Rightarrow> rat \<Rightarrow> rat \<Rightarrow> 'd \<Rightarrow> redis_reply \<times> 'd"
where
  "tokenBucketLua T rnd tostr tonumber t key rate burst now requested =
     (if rate \<le> 0 \<or> burst \<le> 0 then (\<lambda>d. (RInt 1, d))
      else ttl_call T t (HMGET key [''tokens'', ''ts'']) (\<lambda>data.
        let tokens = (case field_number tonumber data ''tokens'' of None \<Rightarrow> burst | Some x \<Rightarrow> x);
            ts = (case field_number tonumber data ''ts'' of None \<Rightarrow> now | Some x \<Rightarrow> x);
            delta = max 0 (rnd (now - ts));
            refill = rnd (rnd (delta * rate) / 1000);
            tokens1 = (if 0 < refill then min burst (rnd (tokens + refill)) else tokens);
            ts1 = (if 0 < refill then now else ts)
        in if tokens1 < requested
           then ttl_call T t (HMSET key [(''tokens'', tostr tokens1), (''ts'', tostr ts1)]) (\<lambda>_.
                ttl_call T t (EXPIRE key (bucket_ttl rnd rate burst)) (\<lambda>_ d. (RInt 0, d)))
           else (let tokens2 = rnd (tokens1 - requested) in
                ttl_call T t (HMSET key [(''tokens'', tostr tokens2), (''ts'', tostr ts1)]) (\<lambda>_.
                ttl_call T t (EXPIRE key (bucket_ttl rnd rate burst)) (\<lambda>_ d. (RInt 1, d))))))"

section \<open>Allow\<close>

text \<open>The reply of a script is an integer or a string; the other cases of the code do not arise.\<close>

fun toInt64 :: "redis_reply \<Rightarrow> int" where
  "toInt64 (RInt n) = n"
| "toInt64 (RBulk (Some s)) = (if s = [] then 0 else case ParseInt64 s of (n, None) \<Rightarrow> n | _ \<Rightarrow> 0)"
| "toInt64 _ = 0"

datatype ratelimit_error = ErrRedisClientNil | ErrKeyEmpty | ErrEval | ErrInvalidResult

definition Allow ::
  "'d ttl_server option \<Rightarrow> (rat \<Rightarrow> rat) \<Rightarrow> (rat \<Rightarrow> string) \<Rightarrow> (string \<Rightarrow> rat option) \<Rightarrow> outcome \<Rightarrow> gotime \<Rightarrow> gotime \<Rightarrow>
   string \<Rightarrow> int \<Rightarrow> int \<Rightarrow> 'd \<Rightarrow> (ratelimit_error + bool) \<times> 'd"
where
  "Allow r rnd tostr tonumber net clock t key limit burst d =
     (case r of
        None \<Rightarrow> (Inl ErrRedisClientNil, d)
      | Some T \<Rightarrow>
          if key = [] then (Inl ErrKeyEmpty, d)
          else if limit \<le> 0 \<or> burst \<le> 0 then (Inr True, d)
          else (let now = clock div Millisecond in
                case client_call net
                       (tokenBucketLua T rnd tostr tonumber t key (of_int limit) (of_int burst) (of_int now) 1) d of
                  (Some (RError e), d') \<Rightarrow> (Inl ErrEval, d')
                | (Some res, d') \<Rightarrow>
                    let allowed = toInt64 res in
                    if allowed = 0 \<and> res \<noteq> RInt 0 \<and> res \<noteq> RBulk (Some ''0'') then (Inl ErrInvalidResult, d')
                    else (Inr (allowed = 1), d')
                | (None, d') \<Rightarrow> (Inl ErrEval, d')))"

section \<open>The bucket without the store\<close>

type_synonym bucket = "rat \<times> rat"

definition refill_amount :: "(rat \<Rightarrow> rat) \<Rightarrow> rat \<Rightarrow> rat \<Rightarrow> rat \<Rightarrow> rat" where
  "refill_amount rnd rate now ts = rnd (rnd (max 0 (rnd (now - ts)) * rate) / 1000)"

definition bucket_take :: "(rat \<Rightarrow> rat) \<Rightarrow> rat \<Rightarrow> rat \<Rightarrow> rat \<Rightarrow> rat \<Rightarrow> bucket \<Rightarrow> bool \<times> bucket" where
  "bucket_take rnd rate burst now requested b =
     (let refill = refill_amount rnd rate now (snd b);
          tokens1 = (if 0 < refill then min burst (rnd (fst b + refill)) else fst b);
          ts1 = (if 0 < refill then now else snd b)
      in if tokens1 < requested then (False, (tokens1, ts1)) else (True, (rnd (tokens1 - requested), ts1)))"

text \<open>What a call at \<open>now\<close> finds in the store.\<close>

definition stored_bucket :: "(string \<Rightarrow> rat option) \<Rightarrow> rat \<Rightarrow> rat \<Rightarrow> (string \<times> string) list \<Rightarrow> bucket" where
  "stored_bucket tonumber burst now h =
     ((case Option.bind (map_of h ''tokens'') tonumber of None \<Rightarrow> burst | Some x \<Rightarrow> x),
      (case Option.bind (map_of h ''ts'') tonumber of None \<Rightarrow> now | Some x \<Rightarrow> x))"

lemma field_number_HMGET:
  "field_number tonumber
     (RPairs (concat (map (\<lambda>f. case map_of h f of None \<Rightarrow> [] | Some v \<Rightarrow> [(f, v)]) [''tokens'', ''ts'']))) f =
   (if f \<in> {''tokens'', ''ts''} then Option.bind (map_of h f) tonumber else None)"
  by (auto simp: field_number_def split: option.split)

context ttl_redis
begin

lemma store_bucket:
  assumes h: "as_hash (live t (tview d) key) = Some h" and ttl: "Millisecond \<le> ttl" "Millisecond dvd ttl"
  shows "fst (ttl_call T t (HMSET key [(''tokens'', a), (''ts'', b)]) (\<lambda>_.
           ttl_call T t (EXPIRE key ttl) (\<lambda>_ d. (RInt v, d))) d) = RInt v \<and>
         tview (snd (ttl_call T t (HMSET key [(''tokens'', a), (''ts'', b)]) (\<lambda>_.
           ttl_call T t (EXPIRE key ttl) (\<lambda>_ d. (RInt v, d))) d)) =
         (tview d)(key := (RHash (AList.update ''ts'' b (AList.update ''tokens'' a h)), Some (t + ttl)))"
proof -
  let ?h = "AList.update ''ts'' b (AList.update ''tokens'' a h)"
  have ne: "?h \<noteq> []" by simp
  have exp: "expire_at t ttl = Some (t + ttl)" using ttl by (auto simp: expire_at_def)
  have kept: "live t ((tview d)(key := (RHash ?h, expiry t (tview d) key))) key = RHash ?h"
    by (auto simp: expiry_def live_def split: option.splits if_splits)
  have pos: "\<not> ttl \<le> 0" using ttl by simp
  show ?thesis
    by (simp add: redis_simps h mk_hash_def ne kept exp pos)
qed

lemma tokenBucketLua_effect:
  fixes d :: 'd
  assumes pos: "0 < rate" "0 < burst" and h: "as_hash (live t (tview d) key) = Some h"
    and ttl: "Millisecond \<le> bucket_ttl rnd rate burst"
    and take: "bucket_take rnd rate burst now requested (stored_bucket tonumber burst now h) = (ok, (x, ts))"
  shows "fst (tokenBucketLua T rnd tostr tonumber t key rate burst now requested d) = RInt (if ok then 1 else 0) \<and>
    tview (snd (tokenBucketLua T rnd tostr tonumber t key rate burst now requested d)) =
      (tview d)(key := (RHash (AList.update ''ts'' (tostr ts) (AList.update ''tokens'' (tostr x) h)),
                        Some (t + bucket_ttl rnd rate burst)))"
proof -
  define d1 where "d1 = snd (T t d (HMGET key [''tokens'', ''ts'']))"
  have v1: "tview d1 = tview d" by (simp add: d1_def effect_doc h)
  have h1: "as_hash (live t (tview d1) key) = Some h" by (simp add: v1 h)
  have dvd: "Millisecond dvd bucket_ttl rnd rate burst" by (simp add: bucket_ttl_def)
  note store = store_bucket [OF h1 ttl dvd, unfolded v1]
  show ?thesis
    using pos take
    unfolding tokenBucketLua_def bucket_take_def refill_amount_def stored_bucket_def
    by (simp add: ttl_call_doc [of t "HMGET key fs" for fs] h field_number_HMGET [simplified] Let_def d1_def [symmetric]
        store) (auto split: if_splits)
qed

end

section \<open>How much a bucket admits\<close>

fun bucket_run :: "(rat \<Rightarrow> rat) \<Rightarrow> rat \<Rightarrow> rat \<Rightarrow> rat list \<Rightarrow> bucket \<Rightarrow> bool list" where
  "bucket_run rnd rate burst [] b = []"
| "bucket_run rnd rate burst (now # nows) b =
     (case bucket_take rnd rate burst now 1 b of
        (ok, b') \<Rightarrow> ok # bucket_run rnd rate burst nows b')"

text \<open>What the number format of Lua guarantees: rounding keeps the order and whole numbers.\<close>

definition lua_rounding :: "(rat \<Rightarrow> rat) \<Rightarrow> bool" where
  "lua_rounding rnd \<longleftrightarrow>
     (\<forall>x y. x \<le> y \<longrightarrow> rnd x \<le> rnd y) \<and> (\<forall>i :: int. \<bar>i\<bar> \<le> 2 ^ 53 \<longrightarrow> rnd (of_int i) = of_int i)"

lemma lua_rounding_nonneg: "lua_rounding rnd \<Longrightarrow> 0 \<le> x \<Longrightarrow> 0 \<le> rnd x"
  unfolding lua_rounding_def by (metis abs_zero of_int_0 zero_le_numeral zero_le_power)

lemma lua_rounding_id: "lua_rounding (\<lambda>x. x)"
  by (simp add: lua_rounding_def)

lemma lua_rounding_le_int:
  assumes "lua_rounding rnd" and "x \<le> of_int i" and "\<bar>i\<bar> \<le> 2 ^ 53"
  shows "rnd x \<le> of_int i"
  using assms unfolding lua_rounding_def by metis

lemma bucket_take_bounds:
  assumes rnd: "lua_rounding rnd" and b: "0 \<le> fst b" "fst b \<le> of_int burst" and burst: "\<bar>burst\<bar> \<le> 2 ^ 53"
  shows "0 \<le> fst (snd (bucket_take rnd rate (of_int burst) now 1 b)) \<and>
         fst (snd (bucket_take rnd rate (of_int burst) now 1 b)) \<le> of_int burst"
proof -
  define r where "r = refill_amount rnd rate now (snd b)"
  define x where "x = (if 0 < r then min (of_int burst) (rnd (fst b + r)) else fst b)"
  have x: "0 \<le> x" "x \<le> of_int burst"
    using b lua_rounding_nonneg [OF rnd, of "fst b + r"] by (auto simp: x_def)
  have "0 \<le> rnd (x - 1) \<and> rnd (x - 1) \<le> of_int burst" if "1 \<le> x"
    using x that lua_rounding_nonneg [OF rnd, of "x - 1"] lua_rounding_le_int [OF rnd _ burst, of "x - 1"] by auto
  then show ?thesis using x by (auto simp: bucket_take_def Let_def r_def [symmetric] x_def [symmetric])
qed

lemma exact_take:
  assumes rate: "0 < rate" and b: "0 \<le> fst b" "fst b \<le> burst" and now: "snd b \<le> now"
    and take: "bucket_take (\<lambda>x. x) rate burst now 1 b = (ok, b')"
  shows "(if ok then 1 else 0) + fst b' \<le> fst b + rate * (now - snd b) / 1000 \<and>
         (if ok then 1 else 0) + fst b' \<le> burst \<and> 0 \<le> fst b' \<and> snd b' = now"
proof -
  have r: "refill_amount (\<lambda>x. x) rate now (snd b) = rate * (now - snd b) / 1000"
    using now by (simp add: refill_amount_def max_def mult.commute)
  have "0 < rate * (now - snd b) / 1000 \<longleftrightarrow> snd b < now"
    using rate by (simp add: zero_less_mult_iff)
  with take b now show ?thesis
    by (auto simp: bucket_take_def r Let_def min_def split: if_splits)
qed

lemma exact_run:
  assumes "0 < rate" and "0 \<le> fst b" and "fst b \<le> burst" and "sorted (snd b # nows)"
  shows "of_int (tally (\<lambda>ok. ok) (bucket_run (\<lambda>x. x) rate burst nows b)) \<le>
         fst b + rate * (last (snd b # nows) - snd b) / 1000"
  using assms
proof (induction nows arbitrary: b)
  case (Cons now nows)
  obtain ok b' where take: "bucket_take (\<lambda>x. x) rate burst now 1 b = (ok, b')"
    by (cases "bucket_take (\<lambda>x. x) rate burst now 1 b")
  from exact_take [OF Cons.prems(1-3) _ take] Cons.prems(4)
  have step: "(if ok then 1 else 0) + fst b' \<le> fst b + rate * (now - snd b) / 1000"
      "(if ok then 1 else 0) + fst b' \<le> burst" "0 \<le> fst b'" "snd b' = now" by auto
  then have "fst b' \<le> burst" by (auto split: if_splits)
  with Cons.IH [OF Cons.prems(1) step(3)] step(4) Cons.prems(4)
  have IH: "of_int (tally (\<lambda>ok. ok) (bucket_run (\<lambda>x. x) rate burst nows b')) \<le>
      fst b' + rate * (last (now # nows) - now) / 1000" by simp
  have "rate * (now - snd b) / 1000 + rate * (last (now # nows) - now) / 1000 =
      rate * (last (now # nows) - snd b) / 1000" by (simp add: field_simps)
  with IH step(1) show ?case by (simp add: take split: if_splits)
qed simp

lemma exact_window:
  assumes "0 < rate" and "0 \<le> fst b" and "fst b \<le> burst" and "sorted (snd b # now # nows)"
  shows "of_int (tally (\<lambda>ok. ok) (bucket_run (\<lambda>x. x) rate burst (now # nows) b)) \<le>
         burst + rate * (last (now # nows) - now) / 1000"
proof -
  obtain ok b' where take: "bucket_take (\<lambda>x. x) rate burst now 1 b = (ok, b')"
    by (cases "bucket_take (\<lambda>x. x) rate burst now 1 b")
  from exact_take [OF assms(1-3) _ take] assms(4)
  have step: "(if ok then 1 else 0) + fst b' \<le> burst" "0 \<le> fst b'" "snd b' = now" by auto
  then have "fst b' \<le> burst" by (auto split: if_splits)
  with exact_run [OF assms(1) step(2), of burst nows] step(3) assms(4)
  have "of_int (tally (\<lambda>ok. ok) (bucket_run (\<lambda>x. x) rate burst nows b')) \<le>
      fst b' + rate * (last (now # nows) - now) / 1000" by simp
  with step(1) show ?thesis by (simp add: take split: if_splits)
qed

section \<open>Properties\<close>

text \<open>
  C18. \<^verbatim>\<open>Allow\<close> decides and updates exactly as the token bucket computes: with a working store the
  answer is the bucket's decision on what was stored (a full bucket when nothing was, or when it
  expired), the new bucket is stored with a time to live of twice the time to fill it, and no
  other key changes.
\<close>

theorem allow_is_token_bucket:
  assumes "ttl_redis T tview" and "0 < limit" and "0 < burst" and "key \<noteq> []"
    and "as_hash (live t (tview d) key) = Some h" and "Millisecond \<le> bucket_ttl rnd (of_int limit) (of_int burst)"
  shows "let (ok, (x, ts)) = bucket_take rnd (of_int limit) (of_int burst) (of_int (clock div Millisecond)) 1
               (stored_bucket tonumber (of_int burst) (of_int (clock div Millisecond)) h);
             (res, d') = Allow (Some T) rnd tostr tonumber Delivered clock t key limit burst d
         in res = Inr ok \<and>
            tview d' = (tview d)(key := (RHash (AList.update ''ts'' (tostr ts) (AList.update ''tokens'' (tostr x) h)),
                                         Some (t + bucket_ttl rnd (of_int limit) (of_int burst))))"
proof -
  obtain ok x ts where take: "bucket_take rnd (of_int limit) (of_int burst) (of_int (clock div Millisecond)) 1
      (stored_bucket tonumber (of_int burst) (of_int (clock div Millisecond)) h) = (ok, (x, ts))"
    by (metis prod_cases3)
  let ?r = "tokenBucketLua T rnd tostr tonumber t key (of_int limit) (of_int burst) (of_int (clock div Millisecond)) 1 d"
  have eff: "fst ?r = RInt (if ok then 1 else 0)"
    "tview (snd ?r) = (tview d)(key := (RHash (AList.update ''ts'' (tostr ts) (AList.update ''tokens'' (tostr x) h)),
       Some (t + bucket_ttl rnd (of_int limit) (of_int burst))))"
    using ttl_redis.tokenBucketLua_effect [OF assms(1) _ _ assms(5,6) take, of tostr] assms(2,3) by auto
  show ?thesis using assms(2-4) by (simp add: take Allow_def eff Let_def)
qed

definition floor_rnd :: "rat \<Rightarrow> rat" where
  "floor_rnd x = of_int \<lfloor>x\<rfloor>"

definition int_string :: "rat \<Rightarrow> string" where
  "int_string x = FormatInt \<lfloor>x\<rfloor>"

definition string_int :: "string \<Rightarrow> rat option" where
  "string_int s = (case ParseInt64 s of (n, None) \<Rightarrow> Some (of_int n) | _ \<Rightarrow> None)"

theorem allow_is_token_bucket_witness:
  "fst (Allow (Some memory_ttl) floor_rnd int_string string_int Delivered (5000 * 1000000) 0 ''k'' 1 2 empty_tks) = Inr True"
proof -
  have "bucket_take floor_rnd 1 2 5000 1 (stored_bucket string_int 2 5000 []) = (True, (1, 5000))"
    by (simp add: bucket_take_def stored_bucket_def refill_amount_def floor_rnd_def Let_def)
  then show ?thesis
    using allow_is_token_bucket [OF ttl_memory.ttl_redis_axioms, of 1 2 "''k''" 0 empty_tks "[]" floor_rnd
        "5000 * 1000000" string_int int_string]
    by (simp add: bucket_ttl_def floor_rnd_def prod.case_eq_if Let_def)
qed

text \<open>
  C19. The limiter keeps its promise: in exact arithmetic, any sequence of calls with an advancing
  clock admits at most \<open>burst\<close> requests plus \<open>rate\<close> for every second between the first and the
  last call, whatever was left in the bucket before.
\<close>

theorem bucket_admits_at_most_rate_and_burst:
  assumes "0 < rate" and "0 \<le> fst b" and "fst b \<le> burst" and "sorted (snd b # now # nows)"
  shows "of_int (tally (\<lambda>ok. ok) (bucket_run (\<lambda>x. x) rate burst (now # nows) b)) \<le>
         burst + rate * ((last (now # nows) - now) / 1000)"
  using exact_window [OF assms] by simp

theorem bucket_admits_at_most_rate_and_burst_witness:
  "tally (\<lambda>ok. ok) (bucket_run (\<lambda>x. x) 1 2 [0, 0, 0, 1000] (2, 0)) \<le> 3"
  using bucket_admits_at_most_rate_and_burst [of 1 "(2, 0)" 2 0 "[0, 0, 1000]"]
  by simp

text \<open>
  With the rounding of Lua's numbers (which keeps the order and whole numbers) the stored
  number of tokens never leaves the range from 0 to the burst.
\<close>

theorem bucket_tokens_stay_in_range:
  assumes "lua_rounding rnd" and "0 \<le> fst b" and "fst b \<le> of_int burst" and "\<bar>burst\<bar> \<le> 2 ^ 53"
  shows "0 \<le> fst (snd (bucket_take rnd rate (of_int burst) now 1 b)) \<and>
         fst (snd (bucket_take rnd rate (of_int burst) now 1 b)) \<le> of_int burst"
  using bucket_take_bounds [OF assms] .

lemma floor_rnd_rounding: "lua_rounding floor_rnd"
  by (simp add: lua_rounding_def floor_rnd_def floor_mono)

theorem bucket_tokens_stay_in_range_witness:
  "fst (snd (bucket_take floor_rnd 1 2 7 1 (1, 0))) \<le> 2"
  using bucket_tokens_stay_in_range [OF floor_rnd_rounding, of "(1, 0)" 2 1 7] by simp

text \<open>
  The expiry of an idle bucket cannot be observed: a call that comes after the time to live
  of what was stored decides and leaves the same bucket as if it had still been there.
\<close>

theorem bucket_expiry_is_unobservable:
  assumes "0 < rate" and "0 < burst" and "0 \<le> x"
    and "of_int (bucket_ttl (\<lambda>x. x) rate burst) / 1000000 \<le> now - ts"
  shows "bucket_take (\<lambda>x. x) rate burst now requested (x, ts) =
         bucket_take (\<lambda>x. x) rate burst now requested (burst, now)"
proof -
  have "2000 * burst / rate \<le> of_int \<lceil>2000 * burst / rate\<rceil>" by (rule le_of_int_ceiling)
  also have "\<dots> \<le> now - ts" using assms(4) by (simp add: bucket_ttl_def)
  finally have age: "2000 * burst / rate \<le> now - ts" .
  then have "burst * 2000 \<le> (now - ts) * rate" using assms(1) by (simp add: field_simps)
  then have "burst \<le> x + (now - ts) * rate / 1000" "0 < (now - ts) * rate / 1000"
    using assms(2,3) by simp_all
  moreover have "0 \<le> now - ts" using age assms(1,2) by (meson divide_nonneg_pos less_imp_le mult_nonneg_nonneg order_trans zero_le_numeral)
  ultimately show ?thesis by (simp add: bucket_take_def refill_amount_def max_def Let_def)
qed

theorem bucket_expiry_is_unobservable_witness:
  "bucket_take (\<lambda>x. x) 1 2 5000 1 (0, 1000) = bucket_take (\<lambda>x. x) 1 2 5000 1 (2, 5000)"
  using bucket_expiry_is_unobservable [of 1 2 0 5000 1000 1] by (simp add: bucket_ttl_def)

end
