(* ===== verification/ServerGuarantees.thy ===== *)
theory ServerGuarantees
  imports Server Scheduler
begin

text \<open>
  What the API promises. The interface \<open>api_services\<close> says what the handlers rely on: a statement
  either fails without effect or does what it says, a transaction can be taken back, the task
  store is the one of the database, and the other services do not touch the tables. Every
  statement below also holds when statements fail.
\<close>

section \<open>What belongs to others\<close>

definition foreign_tasks :: "int \<Rightarrow> tables \<Rightarrow> Task list" where
  "foreign_tasks uid db = filter (\<lambda>t. int (T_UserID t) \<noteq> uid) (tasks db)"

definition foreign_links :: "int \<Rightarrow> tables \<Rightarrow> TaskItem list" where
  "foreign_links uid db = filter (\<lambda>x. TI_TaskID x \<in> T_ID ` set (foreign_tasks uid db)) (task_items db)"

definition foreign_items :: "int \<Rightarrow> tables \<Rightarrow> Item list" where
  "foreign_items uid db = filter (\<lambda>i. I_ID i \<in> TI_ItemID ` set (foreign_links uid db)) (items db)"

definition foreign_users :: "int \<Rightarrow> tables \<Rightarrow> User list" where
  "foreign_users uid db = filter (\<lambda>u. int (U_ID u) \<noteq> uid) (users db)"

text \<open>Everything of the other users: accounts, tasks, the links of their tasks and the linked items.\<close>

definition foreign_view :: "int \<Rightarrow> tables \<Rightarrow> User list \<times> Task list \<times> TaskItem list \<times> Item list" where
  "foreign_view uid db = (foreign_users uid db, foreign_tasks uid db, foreign_links uid db, foreign_items uid db)"

lemma filter_update_where:
  assumes "\<And>t. P t \<Longrightarrow> \<not> Q t" and "\<And>t. P t \<Longrightarrow> \<not> Q (f t)"
  shows "filter Q (update_where P f xs) = filter Q xs"
  using assms by (induction xs) (auto simp: update_where_def)

lemma filter_filter_other: "(\<And>x. Q x \<Longrightarrow> \<not> P x) \<Longrightarrow> filter Q (filter (\<lambda>x. \<not> P x) xs) = filter Q xs"
  by (simp add: conj_commute) (metis (mono_tags, lifting) filter_cong)

lemma foreign_view_tasks:
  assumes "foreign_tasks uid db' = foreign_tasks uid db" and "users db' = users db" and "items db' = items db"
    and "task_items db' = task_items db"
  shows "foreign_view uid db' = foreign_view uid db"
  using assms by (simp add: foreign_view_def foreign_users_def foreign_links_def foreign_items_def)

lemma foreign_update_own:
  assumes "\<And>t. P t \<Longrightarrow> int (T_UserID t) = uid" and "\<And>t. T_UserID (f t) = T_UserID t"
  shows "foreign_view uid (snd (sql_doc (UpdateTasks P f) db)) = foreign_view uid db"
  using assms by (intro foreign_view_tasks) (auto simp: foreign_tasks_def intro!: filter_update_where)

lemma foreign_delete_own:
  assumes "\<And>t. P t \<Longrightarrow> int (T_UserID t) = uid"
  shows "foreign_view uid (snd (sql_doc (DeleteTasks P) db)) = foreign_view uid db"
  using assms by (intro foreign_view_tasks) (auto simp: foreign_tasks_def intro!: filter_cong)

lemma foreign_insert_own:
  assumes "int (T_UserID t) = uid"
  shows "foreign_view uid (snd (sql_doc (InsertTask t) db)) = foreign_view uid db"
  using assms by (intro foreign_view_tasks) (simp_all add: foreign_tasks_def)

lemma foreign_delete_users:
  "foreign_view uid (snd (sql_doc (DeleteUsers (\<lambda>u. int (U_ID u) = uid)) db)) = foreign_view uid db"
  by (simp add: foreign_view_def foreign_users_def foreign_links_def foreign_items_def foreign_tasks_def)

lemma foreign_delete_links:
  assumes "\<And>x. P x \<Longrightarrow> TI_TaskID x \<notin> T_ID ` set (foreign_tasks uid db)"
  shows "foreign_view uid (db\<lparr>task_items := filter (\<lambda>x. \<not> P x) (task_items db)\<rparr>) = foreign_view uid db"
proof -
  let ?db = "db\<lparr>task_items := filter (\<lambda>x. \<not> P x) (task_items db)\<rparr>"
  have t: "foreign_tasks uid ?db = foreign_tasks uid db" by (simp add: foreign_tasks_def)
  have l: "foreign_links uid ?db = foreign_links uid db"
    unfolding foreign_links_def t using assms by (simp, intro filter_filter_other [simplified]) blast
  show ?thesis unfolding foreign_view_def foreign_items_def l t by (simp add: foreign_users_def)
qed

lemma foreign_delete_items:
  assumes "\<And>i. P i \<Longrightarrow> I_ID i \<notin> TI_ItemID ` set (task_items db)"
  shows "foreign_view uid (snd (sql_doc (DeleteItems P) db)) = foreign_view uid db"
proof -
  have "filter (\<lambda>i. I_ID i \<in> TI_ItemID ` set (foreign_links uid db)) (filter (\<lambda>i. \<not> P i) (items db)) = foreign_items uid db"
    unfolding foreign_items_def using assms by (intro filter_filter_other) (auto simp: foreign_links_def)
  then show ?thesis
    by (simp add: foreign_view_def foreign_users_def foreign_tasks_def foreign_links_def foreign_items_def)
qed

lemma own_id_not_foreign:
  assumes "distinct (map T_ID (tasks db))" and "t \<in> set (tasks db)" and "int (T_UserID t) = uid"
  shows "T_ID t \<notin> T_ID ` set (foreign_tasks uid db)"
  using assms by (auto simp: foreign_tasks_def distinct_map dest: inj_onD)

text \<open>An update the handler collects does not change the owner.\<close>

definition keeps_owner :: "task_update \<Rightarrow> bool" where
  "keeps_owner acc \<longleftrightarrow> (\<forall>us. acc = Inr us \<longrightarrow> (\<forall>u \<in> set us. \<forall>t. T_UserID (u t) = T_UserID t))"

lemma keeps_owner_collect:
  assumes "keeps_owner acc" and "\<And>x u. f x = Inr u \<Longrightarrow> \<forall>t. T_UserID (u t) = T_UserID t"
  shows "keeps_owner (collect v f acc)"
  using assms by (fastforce simp: keeps_owner_def collect_def split: sum.splits option.splits)

lemma task_updates_owner: "keeps_owner (task_updates ul req)"
  unfolding task_updates_def
  by (intro keeps_owner_collect) (auto simp: keeps_owner_def split: if_splits prod.splits)

lemma task_store_world:
  "snd (dbTaskStore_CreateTask D now t w) = snd (D w (InsertTask (stored_task now t)))"
  "snd (dbTaskStore_CountTasks D uid w) = snd (D w (FindTasks (\<lambda>t. int (T_UserID t) = uid)))"
  by (simp_all add: dbTaskStore_CreateTask_def dbTaskStore_CountTasks_def split: prod.split option.split sql_reply.split)

section \<open>The services behind the API\<close>

locale api_services =
  fixes s :: "'w Server"
    and dbv :: "'w \<Rightarrow> tables"
    and saved :: "'w \<Rightarrow> tables option"
  assumes db_result: "fst (V_db s w q) = None \<and> dbv (snd (V_db s w q)) = dbv w \<or>
        fst (V_db s w q) = Some (fst (sql_doc q (dbv w))) \<and> dbv (snd (V_db s w q)) = snd (sql_doc q (dbv w))"
    and db_saved: "saved (snd (V_db s w q)) = saved w"
    and tx_begin: "dbv (snd (V_tx s w Begin)) = dbv w" "fst (V_tx s w Begin) \<Longrightarrow> saved (snd (V_tx s w Begin)) = Some (dbv w)"
    and tx_rollback: "saved w = Some db \<Longrightarrow> dbv (snd (V_tx s w Rollback)) = db"
    and tx_commit: "fst (V_tx s w Commit) \<Longrightarrow> dbv (snd (V_tx s w Commit)) = dbv w"
      "\<not> fst (V_tx s w Commit) \<Longrightarrow> saved w = Some db \<Longrightarrow> dbv (snd (V_tx s w Commit)) = db"
    and task_store: "V_countTasks s = dbTaskStore_CountTasks (V_db s)" "V_createTask s = dbTaskStore_CreateTask (V_db s)"
    and redis_frame: "dbv (snd (V_rdb s t w c)) = dbv w" "saved (snd (V_rdb s t w c)) = saved w"
    and queue_frame: "V_redisQueue s = Some S \<Longrightarrow> dbv (snd (S w c')) = dbv w"
      "V_redisQueue s = Some S \<Longrightarrow> saved (snd (S w c')) = saved w"
    and sched_frame: "dbv (V_startTask s k w) = dbv w"
    and dedup_frame: "dbv (snd (V_isDuplicate s t u w)) = dbv w" "dbv (snd (V_dedupDelete s t u w)) = dbv w"
begin

lemma db_same:
  assumes "\<And>db. snd (sql_doc q db) = db"
  shows "dbv (snd (V_db s w q)) = dbv w"
  using db_result [of w q] assms by auto

lemma db_foreign:
  assumes "foreign_view uid (snd (sql_doc q (dbv w))) = foreign_view uid (dbv w)"
  shows "foreign_view uid (dbv (snd (V_db s w q))) = foreign_view uid (dbv w)"
  using db_result [of w q] assms by auto

lemma pending_frame: "dbv (forget_pending s i w) = dbv w" "saved (forget_pending s i w) = saved w"
  using queue_frame
  by (cases "V_net s w"; auto simp: forget_pending_def RemoveFromPendingSet_def client_call_def split: prod.splits option.splits redis_reply.splits)+

lemma toggle_foreign:
  "foreign_view (getUserID c) (dbv (snd (handleToggleNotify s now c tid body w))) = foreign_view (getUserID c) (dbv w)"
  by (auto simp: handleToggleNotify_def case_prod_beta own_task_def split: option.split
      intro!: db_foreign foreign_update_own)

lemma status_foreign:
  "foreign_view (getUserID c) (dbv (snd (handleUpdateTaskStatus s now c tid body w))) = foreign_view (getUserID c) (dbv w)"
proof (cases body)
  case (Some st)
  let ?q = "UpdateTasks (own_task s tid (getUserID c)) (\<lambda>t. t\<lparr>T_Status := st, T_UpdatedAt := now\<rparr>)"
  have "foreign_view (getUserID c) (dbv (snd (V_db s w ?q))) = foreign_view (getUserID c) (dbv w)"
    by (intro db_foreign foreign_update_own) (auto simp: own_task_def)
  then show ?thesis
    by (auto simp: Some handleUpdateTaskStatus_def case_prod_beta Let_def db_same sched_frame split: option.split)
qed (simp add: handleUpdateTaskStatus_def)

lemma update_foreign:
  "foreign_view (getUserID c) (dbv (snd (handleUpdateTask s now c tid body w))) = foreign_view (getUserID c) (dbv w)"
proof (cases "getUserRole c = ''guest'' \<or> body = None")
  case False
  then obtain req where body: "body = Some req" and role: "getUserRole c \<noteq> ''guest''" by auto
  show ?thesis
  proof (cases "task_updates (V_ul s) req")
    case (Inr us)
    have "T_UserID (fold (\<lambda>u. u) us t) = T_UserID t" for t
      using task_updates_owner [of "V_ul s" req, unfolded Inr keeps_owner_def]
      by (simp, induction us arbitrary: t) auto
    then have "foreign_view (getUserID c) (dbv (snd (V_db s w (UpdateTasks (own_task s tid (getUserID c))
        (\<lambda>t. (fold (\<lambda>u. u) us t)\<lparr>T_UpdatedAt := now\<rparr>))))) = foreign_view (getUserID c) (dbv w)"
      by (intro db_foreign foreign_update_own) (auto simp: own_task_def)
    with role Inr show ?thesis by (simp add: body handleUpdateTask_def case_prod_beta)
  qed (use role in \<open>simp add: body handleUpdateTask_def\<close>)
qed (auto simp: handleUpdateTask_def)

lemma create_row_foreign:
  assumes "0 \<le> uid" and "uid < 2 ^ 64"
  shows "foreign_view uid (dbv (snd (V_createTask s now (requested_task uid req a b st ty) w))) = foreign_view uid (dbv w)"
proof -
  have "foreign_view uid (dbv (snd (V_db s w (InsertTask (stored_task now (requested_task uid req a b st ty)))))) =
      foreign_view uid (dbv w)"
    using assms by (intro db_foreign foreign_insert_own) (simp add: stored_task_def requested_task_def)
  then show ?thesis by (simp add: task_store task_store_world)
qed

lemma store_new_task_foreign:
  assumes "0 \<le> uid" and "uid < 2 ^ 64"
  shows "foreign_view uid (dbv (snd (store_new_task s now uid req a b w))) = foreign_view uid (dbv w)"
  using create_row_foreign [OF assms]
  by (auto simp: store_new_task_def Let_def case_prod_beta sched_frame split: option.split)

lemma dup_check_frame: "dbv (snd (dup_check s now u w)) = dbv w"
  using dedup_frame by (simp add: dup_check_def case_prod_beta split: sum.split)

lemma count_frame: "dbv (snd (V_countTasks s uid w)) = dbv w"
  by (simp add: task_store task_store_world db_same)

lemma create_foreign:
  assumes "0 \<le> getUserID c" and "getUserID c < 2 ^ 64"
  shows "foreign_view (getUserID c) (dbv (snd (handleCreateTask s now c body w))) = foreign_view (getUserID c) (dbv w)"
  by (auto simp: handleCreateTask_def Let_def case_prod_beta count_frame dup_check_frame
      store_new_task_foreign [OF assms] split: option.split bool.split)

lemma ids_reply: "the_ids (fst (V_db s w (SelectIds e))) = [] \<or> the_ids (fst (V_db s w (SelectIds e))) = e (dbv w)"
  using db_result [of w "SelectIds e"] by (auto simp: the_ids_def)

lemma delete_orphans_foreign: "foreign_view uid (dbv (delete_orphans s ids w)) = foreign_view uid (dbv w)"
proof -
  define w1 where "w1 = snd (V_db s w (SelectIds (orphans ids)))"
  define os where "os = the_ids (fst (V_db s w (SelectIds (orphans ids))))"
  have w1: "dbv w1 = dbv w" unfolding w1_def by (rule db_same) simp
  have "foreign_view uid (dbv (snd (V_db s w1 (DeleteItems (\<lambda>i. I_ID i \<in> set os))))) = foreign_view uid (dbv w)"
    using ids_reply [of w "orphans ids"] unfolding w1 [symmetric] os_def [symmetric]
    by (intro db_foreign foreign_delete_items) (force simp: orphans_def)
  then show ?thesis
    by (simp add: delete_orphans_def case_prod_beta w1_def [symmetric] os_def [symmetric] w1)
qed

lemma delete_task_foreign:
  assumes "distinct (map T_ID (tasks (dbv w)))"
  shows "foreign_view (getUserID c) (dbv (snd (handleDeleteTask s now c tid w))) = foreign_view (getUserID c) (dbv w)"
proof -
  let ?uid = "getUserID c"
  define w1 where "w1 = snd (V_db s w (FindTasks (own_task s tid ?uid)))"
  define w2 where "w2 = forget_pending s tid w1"
  define w3 where "w3 = snd (V_db s w2 (SelectIds (linked_items s tid ?uid)))"
  define ids where "ids = the_ids (fst (V_db s w2 (SelectIds (linked_items s tid ?uid))))"
  define w4 where "w4 = snd (V_db s w3 (DeleteTaskItemsIn (own_links s tid ?uid)))"
  define w5 where "w5 = delete_orphans s ids w4"
  define w6 where "w6 = snd (V_db s w5 (DeleteTasks (own_task s tid ?uid)))"
  have "dbv w1 = dbv w" unfolding w1_def by (rule db_same) simp
  then have "dbv w2 = dbv w" by (simp add: w2_def pending_frame)
  moreover have "dbv w3 = dbv w2" unfolding w3_def by (rule db_same) simp
  ultimately have w3: "dbv w3 = dbv w" by simp
  have own: "TI_TaskID x \<notin> T_ID ` set (foreign_tasks ?uid (dbv w3))" if "own_links s tid ?uid (dbv w3) x" for x
    using that own_id_not_foreign [of "dbv w3" _ ?uid] assms
    by (auto simp: own_links_def w3) (metis image_eqI)
  have "foreign_view ?uid (dbv w4) = foreign_view ?uid (dbv w3)"
    unfolding w4_def
    by (rule db_foreign) (simp only: sql_doc.simps snd_conv, rule foreign_delete_links, rule own)
  moreover have "foreign_view ?uid (dbv w5) = foreign_view ?uid (dbv w4)" by (simp add: w5_def delete_orphans_foreign)
  moreover have "foreign_view ?uid (dbv w6) = foreign_view ?uid (dbv w5)"
    unfolding w6_def by (intro db_foreign foreign_delete_own) (auto simp: own_task_def)
  ultimately have "foreign_view ?uid (dbv w6) = foreign_view ?uid (dbv w)" using w3 by simp
  then show ?thesis
    by (simp add: handleDeleteTask_def Let_def case_prod_beta w1_def [symmetric] w2_def [symmetric] w3_def [symmetric]
        ids_def [symmetric] w4_def [symmetric] w5_def [symmetric] w6_def [symmetric] dedup_frame)
qed

text \<open>
  The deletion of an account, one statement after the other: an error takes back what was done,
  and what remains to be shown of a statement that succeeds is shown of the rest.
\<close>

definition all_or_nothing :: "tables \<Rightarrow> tables \<Rightarrow> api_reply \<times> 'w \<Rightarrow> bool" where
  "all_or_nothing db0 db1 x \<longleftrightarrow>
     (\<exists>code msg. fst x = Fail code msg) \<and> dbv (snd x) = db0 \<or> fst x = AccountDeleted \<and> dbv (snd x) = db1"

lemma tx_do_rule:
  assumes "saved w = Some db0"
    and "\<And>w1. saved w1 = Some db0 \<Longrightarrow> dbv w1 = snd (sql_doc q (dbv w)) \<Longrightarrow>
      all_or_nothing db0 db1 (cont (Some (fst (sql_doc q (dbv w)))) w1)"
  shows "all_or_nothing db0 db1 (tx_do s msg (V_db s w q) cont)"
proof (cases "succeeded (fst (V_db s w q))")
  case True
  then have "fst (V_db s w q) = Some (fst (sql_doc q (dbv w)))" "dbv (snd (V_db s w q)) = snd (sql_doc q (dbv w))"
    using db_result [of w q] by (auto simp: succeeded_def)
  with True assms show ?thesis by (simp add: tx_do_def db_saved)
next
  case False
  with tx_rollback [of "snd (V_db s w q)" db0] assms(1) show ?thesis
    by (simp add: tx_do_def db_saved all_or_nothing_def)
qed

lemma the_ids_simp [simp]: "the_ids (Some (RIds xs)) = xs"
  by (simp add: the_ids_def)

lemma tx_ids_rule:
  assumes "saved w = Some db0"
    and "\<And>w1. saved w1 = Some db0 \<Longrightarrow> dbv w1 = dbv w \<Longrightarrow> all_or_nothing db0 db1 (cont (Some (RIds (e (dbv w)))) w1)"
  shows "all_or_nothing db0 db1 (tx_do s msg (V_db s w (SelectIds e)) cont)"
  using assms by (intro tx_do_rule) simp_all

lemma commit_rule:
  assumes "saved w = Some db0"
  shows "all_or_nothing db0 (dbv w) (case V_tx s w Commit of (True, w5) \<Rightarrow> (AccountDeleted, w5)
    | (False, w5) \<Rightarrow> (Fail StatusInternalServerError ''commit failed'', w5))"
  using assms tx_commit by (auto simp: all_or_nothing_def split: prod.split bool.split)
    (metis fst_conv snd_conv)+

lemma clear_pending_frame: "dbv (clear_pending s is w) = dbv w \<and> saved (clear_pending s is w) = saved w"
  by (induction "is" arbitrary: w) (simp_all add: pending_frame)

end

text \<open>The tables without an account: its tasks, their links and the items only they link to.\<close>

definition own_ids :: "int \<Rightarrow> tables \<Rightarrow> nat list" where
  "own_ids uid db = map T_ID (filter (\<lambda>t. int (T_UserID t) = uid) (tasks db))"

definition without_user :: "int \<Rightarrow> tables \<Rightarrow> tables" where
  "without_user uid db =
     (let own = set (own_ids uid db);
          kept = filter (\<lambda>x. TI_TaskID x \<notin> own) (task_items db);
          dropped = TI_ItemID ` {x \<in> set (task_items db). TI_TaskID x \<in> own}
      in db\<lparr>users := foreign_users uid db, tasks := foreign_tasks uid db, task_items := kept,
            items := filter (\<lambda>i. \<not> (I_ID i \<in> dropped \<and> I_ID i \<notin> TI_ItemID ` set kept)) (items db)\<rparr>)"

context api_services
begin

lemma drop_links_rule:
  assumes "saved w = Some db0" and "dbv w = db"
    and rest: "\<And>w2. saved w2 = Some db0 \<Longrightarrow>
      dbv w2 = db\<lparr>task_items := filter (\<lambda>x. TI_TaskID x \<notin> set own) (task_items db)\<rparr> \<Longrightarrow>
      all_or_nothing db0 db1 (cont (map TI_ItemID (filter (\<lambda>x. TI_TaskID x \<in> set own) (task_items db))) w2)"
  shows "all_or_nothing db0 db1 (drop_links s own cont w)"
proof (cases "own = []")
  case True
  with rest [of w] assms(1,2) show ?thesis by (auto simp: drop_links_def)
next
  case False
  then show ?thesis
    using assms(1,2) rest by (auto simp: drop_links_def intro!: tx_ids_rule tx_do_rule)
qed

lemma drop_orphans_rule:
  assumes "saved w = Some db0" and "dbv w = db"
    and rest: "\<And>w2. saved w2 = Some db0 \<Longrightarrow>
      dbv w2 = db\<lparr>items := filter (\<lambda>i. \<not> (I_ID i \<in> set ids \<and> I_ID i \<notin> TI_ItemID ` set (task_items db))) (items db)\<rparr> \<Longrightarrow>
      all_or_nothing db0 db1 (cont w2)"
  shows "all_or_nothing db0 db1 (drop_orphans s ids cont w)"
proof -
  let ?kept = "filter (\<lambda>i. \<not> (I_ID i \<in> set ids \<and> I_ID i \<notin> TI_ItemID ` set (task_items db))) (items db)"
  have some: "filter (\<lambda>i. I_ID i \<notin> set (orphans ids db)) (items db) = ?kept"
    by (rule filter_cong) (auto simp: orphans_def, metis image_eqI)
  then have none: "orphans ids db = [] \<Longrightarrow> db\<lparr>items := ?kept\<rparr> = db" by (simp flip: some)
  show ?thesis
  proof (cases "ids = []")
    case True
    with rest [of w] assms(1,2) show ?thesis by (auto simp: drop_orphans_def)
  next
    case False
    have "all_or_nothing db0 db1
        (if the_ids (Some (RIds (orphans ids (dbv w)))) = [] then cont w1
         else tx_do s ''delete items failed''
           (V_db s w1 (DeleteItems (\<lambda>i. I_ID i \<in> set (the_ids (Some (RIds (orphans ids (dbv w)))))))) (\<lambda>_ w2. cont w2))"
      if w1: "saved w1 = Some db0" "dbv w1 = dbv w" for w1
    proof (cases "orphans ids db = []")
      case True
      with w1 rest [of w1] none assms(2) show ?thesis by simp
    next
      case False
      with w1 assms(2) have "all_or_nothing db0 db1
          (tx_do s ''delete items failed'' (V_db s w1 (DeleteItems (\<lambda>i. I_ID i \<in> set (orphans ids db)))) (\<lambda>_ w2. cont w2))"
        by (intro tx_do_rule [OF w1(1)] rest) (simp_all only: sql_doc.simps snd_conv some)
      with False assms(2) show ?thesis by simp
    qed
    with False show ?thesis by (simp only: drop_orphans_def if_False) (rule tx_ids_rule [OF assms(1)])
  qed
qed

lemma drop_account_rule:
  assumes "saved w = Some db0" and "dbv w = db"
  shows "all_or_nothing db0 (db\<lparr>users := foreign_users uid db, tasks := foreign_tasks uid db\<rparr>) (drop_account s uid w)"
  unfolding drop_account_def
proof (rule tx_do_rule [OF assms(1)], rule tx_do_rule, assumption)
  fix w1 w3
  assume *: "dbv w1 = snd (sql_doc (DeleteTasks (\<lambda>t. int (T_UserID t) = uid)) (dbv w))"
    "saved w3 = Some db0" "dbv w3 = snd (sql_doc (DeleteUsers (\<lambda>u. int (U_ID u) = uid)) (dbv w1))"
  then have "dbv w3 = db\<lparr>users := foreign_users uid db, tasks := foreign_tasks uid db\<rparr>"
    using assms by (simp add: foreign_users_def foreign_tasks_def)
  with commit_rule [OF *(2)]
  show "all_or_nothing db0 (db\<lparr>users := foreign_users uid db, tasks := foreign_tasks uid db\<rparr>)
      (case V_tx s w3 Commit of (True, w5) \<Rightarrow> (AccountDeleted, w5)
         | (False, w5) \<Rightarrow> (Fail StatusInternalServerError ''commit failed'', w5))"
    by simp
qed

lemma delete_account_outcome:
  assumes "getUserRole c \<noteq> ''guest''"
  shows "all_or_nothing (dbv w) (without_user (getUserID c) (dbv w)) (handleDeleteAccount s c w)"
proof -
  let ?uid = "getUserID c" and ?db = "dbv w"
  define w0 where "w0 = snd (V_tx s w Begin)"
  have w0: "dbv w0 = ?db" by (simp add: w0_def tx_begin)
  show ?thesis
  proof (cases "fst (V_tx s w Begin)")
    case False
    then have "handleDeleteAccount s c w = (Fail StatusInternalServerError ''transaction failed'', w0)"
      using assms by (simp add: handleDeleteAccount_def case_prod_beta w0_def)
    with w0 show ?thesis by (simp add: all_or_nothing_def)
  next
    case True
    let ?db2 = "?db\<lparr>task_items := filter (\<lambda>x. TI_TaskID x \<notin> set (own_ids ?uid ?db)) (task_items ?db)\<rparr>"
    let ?ids = "map TI_ItemID (filter (\<lambda>x. TI_TaskID x \<in> set (own_ids ?uid ?db)) (task_items ?db))"
    have saved0: "saved w0 = Some ?db" using True by (simp add: w0_def tx_begin)
    have run: "handleDeleteAccount s c w = tx_do s ''load tasks failed'' (V_db s w0 (SelectIds (own_ids ?uid)))
        (\<lambda>r w1. drop_links s (the_ids r) (\<lambda>ids. drop_orphans s ids (drop_account s ?uid)) (clear_pending s (the_ids r) w1))"
      using True assms by (simp add: handleDeleteAccount_def case_prod_beta w0_def own_ids_def [abs_def] Let_def)
    have last: "all_or_nothing ?db (without_user ?uid ?db) (drop_account s ?uid w3)"
      if w3: "saved w3 = Some ?db" "dbv w3 = ?db2\<lparr>items := filter (\<lambda>i. \<not> (I_ID i \<in> set ?ids \<and>
        I_ID i \<notin> TI_ItemID ` set (task_items ?db2))) (items ?db2)\<rparr>" for w3
    proof -
      have "without_user ?uid ?db = (dbv w3)\<lparr>users := foreign_users ?uid (dbv w3), tasks := foreign_tasks ?uid (dbv w3)\<rparr>"
        unfolding w3(2) by (rule tables.equality) (simp_all add: without_user_def Let_def foreign_users_def foreign_tasks_def)
      with drop_account_rule [OF w3(1) refl] show ?thesis by simp
    qed
    show ?thesis
      unfolding run
    proof (rule tx_ids_rule [OF saved0])
      fix w1 assume "saved w1 = Some ?db" "dbv w1 = dbv w0"
      then have w1: "saved (clear_pending s is w1) = Some ?db" "dbv (clear_pending s is w1) = ?db" for "is"
        by (simp_all add: clear_pending_frame w0)
      show "all_or_nothing ?db (without_user ?uid ?db) (drop_links s (the_ids (Some (RIds (own_ids ?uid (dbv w0)))))
          (\<lambda>ids. drop_orphans s ids (drop_account s ?uid)) (clear_pending s (the_ids (Some (RIds (own_ids ?uid (dbv w0))))) w1))"
        unfolding the_ids_simp w0
        by (rule drop_links_rule [OF w1], rule drop_orphans_rule, assumption, assumption, rule last)
    qed
  qed
qed

lemma list_frame: "dbv (snd (handleListTasks s c w)) = dbv w"
proof -
  have "snd (handleListTasks s c w) = snd (V_db s w (FindTasks (\<lambda>t. int (T_UserID t) = getUserID c)))"
    by (simp add: handleListTasks_def split: prod.split option.split sql_reply.split)
  then show ?thesis by (simp add: db_same)
qed

lemma crawl_state_frame: "dbv (snd (crawl_state s now tid w)) = dbv w"
proof -
  have "dbv (snd (load_key s now kp tid w')) = dbv w'" for kp w'
    using redis_frame(1) [of now w' "GET (kp @ tid)"]
    by (auto simp: load_key_def split: prod.split option.split redis_reply.split)
  then show ?thesis by (simp add: crawl_state_def case_prod_beta loadTaskCrawlStatus_def loadTaskCrawlMessage_def)
qed

lemma timeline_frame: "dbv (snd (handleTimeline s now c limit off tid w)) = dbv w"
proof -
  let ?q = "SelectTimeline (\<lambda>db. take (nat (page_limit limit))
              (drop (nat (parseQueryInt off 0)) (timeline_rows s (getUserID c) tid db)))"
  have "dbv (snd (V_db s w ?q)) = dbv w" by (rule db_same) simp
  then show ?thesis
    by (auto simp: handleTimeline_def split: prod.split option.split sql_reply.split)
      (metis crawl_state_frame snd_conv)
qed

end

section \<open>Counting tasks\<close>

definition own_count :: "int \<Rightarrow> tables \<Rightarrow> int" where
  "own_count uid db = tally (\<lambda>t. int (T_UserID t) = uid) (tasks db)"

lemma own_count_update:
  "(\<And>t. T_UserID (f t) = T_UserID t) \<Longrightarrow> own_count uid (snd (sql_doc (UpdateTasks P f) db)) = own_count uid db"
  by (auto simp: own_count_def tally_def update_where_def filter_map comp_def if_distrib [of T_UserID] cong: if_cong)

lemma tally_filter_le: "tally P (filter Q xs) \<le> tally P xs"
  by (induction xs) auto

lemma own_count_delete: "own_count uid (snd (sql_doc (DeleteTasks P) db)) \<le> own_count uid db"
  by (simp add: own_count_def tally_filter_le)

lemma own_count_same_tasks: "tasks db' = tasks db \<Longrightarrow> own_count uid db' = own_count uid db"
  by (simp add: own_count_def)

context api_services
begin

lemma db_count_le:
  assumes "own_count uid (snd (sql_doc q (dbv w))) \<le> own_count uid (dbv w)"
  shows "own_count uid (dbv (snd (V_db s w q))) \<le> own_count uid (dbv w)"
  using db_result [of w q] assms by auto

lemma db_tasks_same:
  assumes "tasks (snd (sql_doc q (dbv w))) = tasks (dbv w)"
  shows "tasks (dbv (snd (V_db s w q))) = tasks (dbv w)"
  using db_result [of w q] assms by auto

lemma toggle_count: "own_count uid (dbv (snd (handleToggleNotify s now c tid body w))) \<le> own_count uid (dbv w)"
  by (auto simp: handleToggleNotify_def case_prod_beta own_count_update simp del: sql_doc.simps
      split: option.split intro!: db_count_le)

lemma status_count: "own_count uid (dbv (snd (handleUpdateTaskStatus s now c tid body w))) \<le> own_count uid (dbv w)"
proof (cases body)
  case (Some st)
  let ?q = "UpdateTasks (own_task s tid (getUserID c)) (\<lambda>t. t\<lparr>T_Status := st, T_UpdatedAt := now\<rparr>)"
  have "own_count uid (dbv (snd (V_db s w ?q))) \<le> own_count uid (dbv w)"
    by (rule db_count_le) (simp add: own_count_update del: sql_doc.simps)
  then show ?thesis
    by (auto simp: Some handleUpdateTaskStatus_def case_prod_beta Let_def db_same sched_frame split: option.split)
qed (simp add: handleUpdateTaskStatus_def)

lemma update_count: "own_count uid (dbv (snd (handleUpdateTask s now c tid body w))) \<le> own_count uid (dbv w)"
proof (cases "getUserRole c = ''guest'' \<or> body = None")
  case False
  then obtain req where body: "body = Some req" and role: "getUserRole c \<noteq> ''guest''" by auto
  show ?thesis
  proof (cases "task_updates (V_ul s) req")
    case (Inr us)
    have "T_UserID (fold (\<lambda>u. u) us t) = T_UserID t" for t
      using task_updates_owner [of "V_ul s" req, unfolded Inr keeps_owner_def]
      by (simp, induction us arbitrary: t) auto
    then have "own_count uid (dbv (snd (V_db s w (UpdateTasks (own_task s tid (getUserID c))
        (\<lambda>t. (fold (\<lambda>u. u) us t)\<lparr>T_UpdatedAt := now\<rparr>))))) \<le> own_count uid (dbv w)"
      by (intro db_count_le) (simp add: own_count_update del: sql_doc.simps)
    with role Inr show ?thesis by (simp add: body handleUpdateTask_def case_prod_beta)
  qed (use role in \<open>simp add: body handleUpdateTask_def\<close>)
qed (auto simp: handleUpdateTask_def)

lemma delete_orphans_tasks: "tasks (dbv (delete_orphans s ids w)) = tasks (dbv w)"
  by (simp add: delete_orphans_def case_prod_beta db_tasks_same)

lemma delete_task_count: "own_count uid (dbv (snd (handleDeleteTask s now c tid w))) \<le> own_count uid (dbv w)"
proof -
  have last: "own_count uid (dbv (snd (V_db s w' (DeleteTasks P)))) \<le> own_count uid (dbv w)"
    if "tasks (dbv w') = tasks (dbv w)" for w' P
  proof -
    have "own_count uid (dbv (snd (V_db s w' (DeleteTasks P)))) \<le> own_count uid (dbv w')"
      by (rule db_count_le) (rule own_count_delete)
    with own_count_same_tasks [OF that] show ?thesis by simp
  qed
  show ?thesis
    by (auto simp: handleDeleteTask_def Let_def case_prod_beta dedup_frame delete_orphans_tasks db_tasks_same
        pending_frame intro!: last)
qed

lemma without_user_count: "own_count uid (without_user uid' db) \<le> own_count uid db"
proof -
  have "own_count uid (without_user uid' db) =
      own_count uid (snd (sql_doc (DeleteTasks (\<lambda>t. int (T_UserID t) = uid')) db))"
    by (rule own_count_same_tasks) (simp add: without_user_def Let_def foreign_tasks_def)
  with own_count_delete show ?thesis by metis
qed

lemma close_count: "own_count uid (dbv (snd (handleDeleteAccount s c w))) \<le> own_count uid (dbv w)"
proof (cases "getUserRole c = ''guest''")
  case False
  from delete_account_outcome [OF this, of w] without_user_count show ?thesis
    by (auto simp: all_or_nothing_def)
qed (simp add: handleDeleteAccount_def)

lemma store_new_task_count:
  "own_count uid (dbv (snd (store_new_task s now me req a b w))) \<le>
     own_count uid (dbv w) + (if uid = me mod 2 ^ 64 then 1 else 0)"
proof -
  define extra where "extra = (if uid = me mod 2 ^ 64 then 1 else 0 :: int)"
  have owner: "int (T_UserID (stored_task now (requested_task me req a b st ty))) = me mod 2 ^ 64" for st ty
    by (simp add: stored_task_def requested_task_def)
  have "own_count uid (dbv (snd (V_db s w (InsertTask (stored_task now (requested_task me req a b st ty)))))) \<le>
      own_count uid (dbv w) + extra" for st ty
    using db_result [of w "InsertTask (stored_task now (requested_task me req a b st ty))"] owner [of st ty]
    by (auto simp: own_count_def extra_def)
  then have "own_count uid (dbv (snd (V_createTask s now (requested_task me req a b st ty) w))) \<le>
      own_count uid (dbv w) + extra" for st ty
    by (simp add: task_store task_store_world)
  moreover have "0 \<le> extra" by (simp add: extra_def)
  ultimately have "own_count uid (dbv (snd (store_new_task s now me req a b w))) \<le> own_count uid (dbv w) + extra"
    by (simp add: store_new_task_def Let_def case_prod_beta sched_frame split: option.split)
  then show ?thesis by (simp only: extra_def)
qed

lemma counted:
  assumes "V_countTasks s uid w = (Some n, w1)"
  shows "n = own_count uid (dbv w)"
  using assms db_result [of w "FindTasks (\<lambda>t. int (T_UserID t) = uid)"]
  by (auto simp: task_store dbTaskStore_CountTasks_def own_count_def tally_def
      split: prod.splits option.splits sql_reply.splits)

lemma create_count:
  assumes "0 \<le> getUserID c" and "getUserID c < 2 ^ 64"
  shows "own_count uid (dbv (snd (handleCreateTask s now c body w))) \<le> max (own_count uid (dbv w)) (task_limit s)"
proof (cases "getUserRole c = ''guest'' \<or> body = None")
  case False
  let ?me = "getUserID c"
  from False obtain req where body: "body = Some req" and role: "getUserRole c \<noteq> ''guest''" by auto
  obtain r w1 where count: "V_countTasks s ?me w = (r, w1)" by fastforce
  have w1: "dbv w1 = dbv w" using count_frame [of ?me w] by (simp add: count)
  obtain a b where sort: "mapSortAndOrder (V_ul s) (CT_Sort req) = (a, b)" by fastforce
  obtain dup w2 where dup: "dup_check s now (buildDedupURL req a b) w1 = (dup, w2)" by fastforce
  have w2: "dbv w2 = dbv w" using dup_check_frame [of now "buildDedupURL req a b" w1] by (simp add: dup w1)
  show ?thesis
  proof (cases "\<exists>n. r = Some n \<and> n < task_limit s \<and> a \<noteq> - 1 \<and> \<not> dup")
    case True
    then obtain n where n: "r = Some n" "n < task_limit s" "a \<noteq> - 1" "\<not> dup" by blast
    then have run: "handleCreateTask s now c body w = store_new_task s now ?me req a b w2"
      using role by (simp add: handleCreateTask_def body count sort dup)
    have "own_count ?me (dbv w) < task_limit s" using counted [of ?me w n w1] n count by simp
    then show ?thesis
      using store_new_task_count [of uid now ?me req a b w2] assms unfolding run w2 by (auto split: if_splits)
  next
    case False
    then have "dbv (snd (handleCreateTask s now c body w)) = dbv w"
      using role w1 w2 by (cases r) (auto simp: handleCreateTask_def body count sort dup)
    then show ?thesis by simp
  qed
qed (auto simp: handleCreateTask_def)

end

section \<open>An instance\<close>

text \<open>
  A server over a table in memory with one transaction at a time, a queue and keys with a time
  to live in memory, and the scheduler's worker pool.
\<close>

record api_world =
  aw_tables :: tables
  aw_saved :: "tables option"
  aw_queue :: keyspace
  aw_keys :: tkeyspace
  aw_pool :: "nat Queue"

fun memory_tx :: "api_world \<Rightarrow> tx_cmd \<Rightarrow> bool \<times> api_world" where
  "memory_tx w Begin = (True, w\<lparr>aw_saved := Some (aw_tables w)\<rparr>)"
| "memory_tx w Commit = (True, w\<lparr>aw_saved := None\<rparr>)"
| "memory_tx w Rollback = (True, w\<lparr>aw_tables := (case aw_saved w of None \<Rightarrow> aw_tables w | Some db \<Rightarrow> db), aw_saved := None\<rparr>)"

definition memory_keys :: "api_world ttl_server" where
  "memory_keys t w c = (fst (ttl_doc t c (aw_keys w)), w\<lparr>aw_keys := snd (ttl_doc t c (aw_keys w))\<rparr>)"

definition memory_queue :: "api_world server" where
  "memory_queue w c = (fst (memory_server (aw_queue w) c), w\<lparr>aw_queue := snd (memory_server (aw_queue w) c)\<rparr>)"

definition decimal_id :: "string \<Rightarrow> nat \<Rightarrow> bool" where
  "decimal_id s n \<longleftrightarrow> (\<forall>c \<in> set s. is_digit c) \<and> dec_val 0 s = n"

definition memory_deps :: "api_world Server" where
  "memory_deps =
     \<lparr>V_db = \<lambda>w q. (Some (fst (sql_doc q (aw_tables w))), w\<lparr>aw_tables := snd (sql_doc q (aw_tables w))\<rparr>),
      V_tx = memory_tx, V_rdb = \<lambda>t w c. (Some (fst (memory_keys t w c)), snd (memory_keys t w c)),
      V_redisQueue = Some memory_queue, V_net = \<lambda>_. Delivered,
      V_countTasks = \<lambda>_ w. (None, w), V_createTask = \<lambda>_ _ w. (None, w),
      V_startTask = \<lambda>t w. w\<lparr>aw_pool := StartTask (Some t) (aw_pool w)\<rparr>,
      V_isDuplicate = \<lambda>_ _ w. (Inr False, w), V_dedupDelete = \<lambda>_ _ w. (None, w),
      V_same_id = decimal_id, V_ul = \<lambda>x. x, V_bcrypt = Some, V_MaxTasksPerUser = 3,
      V_NewItemDuration = Hour, V_GuestHeartbeat = Minute\<rparr>"

definition memory_api :: "api_world Server" where
  "memory_api = the (NewServer memory_deps memory_keys 3600 True True True)"

lemma memory_api_simps:
  "V_db memory_api w q = (Some (fst (sql_doc q (aw_tables w))), w\<lparr>aw_tables := snd (sql_doc q (aw_tables w))\<rparr>)"
  "V_tx memory_api = memory_tx"
  "V_rdb memory_api t w c = (Some (fst (memory_keys t w c)), snd (memory_keys t w c))"
  "V_redisQueue memory_api = Some memory_queue" "V_net memory_api w = Delivered"
  "V_countTasks memory_api = dbTaskStore_CountTasks (V_db memory_api)"
  "V_createTask memory_api = dbTaskStore_CreateTask (V_db memory_api)"
  "V_startTask memory_api k w = w\<lparr>aw_pool := StartTask (Some k) (aw_pool w)\<rparr>"
  "V_isDuplicate memory_api t u w = IsDuplicate (Some (memory_keys, Hour)) Delivered t u w"
  "V_dedupDelete memory_api t u w = Delete (Some (memory_keys, Hour)) Delivered t u w"
  "V_same_id memory_api = decimal_id" "V_ul memory_api x = x" "V_MaxTasksPerUser memory_api = 3"
  by (simp_all add: memory_api_def NewServer_def memory_deps_def NewDeduplicator_def Let_def)

lemma memory_dedup_frame:
  "aw_tables (snd (IsDuplicate (Some (memory_keys, ttl)) Delivered t u w)) = aw_tables w"
  "aw_tables (snd (Delete (Some (memory_keys, ttl)) Delivered t u w)) = aw_tables w"
  by (simp_all add: IsDuplicate_def Delete_def memory_keys_def Let_def split: redis_reply.split prod.split)

interpretation plain_api: api_services memory_api aw_tables aw_saved
  by unfold_locales
    (auto simp: memory_api_simps memory_keys_def memory_queue_def memory_dedup_frame)

text \<open>Two users with one task each; both tasks found item 1, the first one also item 2.\<close>

definition some_task :: "nat \<Rightarrow> nat \<Rightarrow> Task" where
  "some_task i uid = (requested_task (int uid) \<lparr>CT_Keyword = ''shoes'', CT_MinPrice = 0, CT_MaxPrice = 0, CT_Platform = 1,
     CT_Sort = [], CT_Status = [], CT_Type = []\<rparr> 0 0 ''running'' TaskTypeMonitor)\<lparr>T_ID := i\<rparr>"

definition some_item :: "nat \<Rightarrow> Item" where
  "some_item i = \<lparr>I_ID = i, I_CreatedAt = 0, I_UpdatedAt = 0, I_SourceID = FormatUint i, I_Title = [], I_Price = 100,
     I_ImageURL = [], I_ItemURL = []\<rparr>"

definition busy_tables :: tables where
  "busy_tables = empty_tables\<lparr>tasks := [some_task 1 7, some_task 2 8], items := [some_item 1, some_item 2],
     task_items := [\<lparr>TI_TaskID = 1, TI_ItemID = 1, TI_CreatedAt = 5, TI_Rank = 0\<rparr>,
       \<lparr>TI_TaskID = 1, TI_ItemID = 2, TI_CreatedAt = 5, TI_Rank = 1\<rparr>, \<lparr>TI_TaskID = 2, TI_ItemID = 1, TI_CreatedAt = 6, TI_Rank = 0\<rparr>],
     next_task := 3, next_item := 3\<rparr>"

definition start_world :: api_world where
  "start_world = \<lparr>aw_tables = busy_tables, aw_saved = None, aw_queue = empty_keyspace, aw_keys = empty_tks,
     aw_pool = NewQueue 2 10\<rparr>"

section \<open>Nobody else is affected\<close>

lemma foreign_without_user:
  assumes "distinct (map T_ID (tasks db))"
  shows "foreign_view uid (without_user uid db) = foreign_view uid db"
proof -
  let ?own = "set (own_ids uid db)"
  have own: "i \<notin> T_ID ` set (foreign_tasks uid db)" if "i \<in> ?own" for i
    using that own_id_not_foreign [OF assms] by (auto simp: own_ids_def)
  define db1 where "db1 = db\<lparr>task_items := filter (\<lambda>x. TI_TaskID x \<notin> ?own) (task_items db)\<rparr>"
  define db2 where "db2 = snd (sql_doc (DeleteItems (\<lambda>i. I_ID i \<in> TI_ItemID ` {x \<in> set (task_items db). TI_TaskID x \<in> ?own} \<and>
     I_ID i \<notin> TI_ItemID ` set (task_items db1))) db1)"
  have "foreign_view uid db1 = foreign_view uid db" unfolding db1_def by (rule foreign_delete_links) (rule own)
  moreover have "foreign_view uid db2 = foreign_view uid db1" unfolding db2_def by (rule foreign_delete_items) blast
  moreover have "foreign_view uid (without_user uid db) = foreign_view uid db2"
    by (simp add: db2_def db1_def without_user_def Let_def foreign_view_def foreign_users_def foreign_links_def
        foreign_items_def foreign_tasks_def)
  ultimately show ?thesis by simp
qed


definition user_seven :: gin_context where
  "user_seven = \<lparr>X_userID = Some 7, X_role = Some ''admin''\<rparr>"


text \<open>
  C15. Deleting an account is all or nothing. For a user who is not the guest, either the reply is
  success and the tables are those without the account, its tasks, their links and the items that
  only those tasks linked to, or the reply is an error and the tables are unchanged, whichever
  statement failed and whether or not the commit went through.
\<close>

theorem delete_account_all_or_nothing:
  assumes "api_services s dbv saved" and "getUserRole c \<noteq> ''guest''"
  shows "(\<exists>code msg. fst (handleDeleteAccount s c w) = Fail code msg) \<and> dbv (snd (handleDeleteAccount s c w)) = dbv w \<or>
    fst (handleDeleteAccount s c w) = AccountDeleted \<and>
    dbv (snd (handleDeleteAccount s c w)) = without_user (getUserID c) (dbv w)"
  using api_services.delete_account_outcome [OF assms, of w]
  unfolding api_services.all_or_nothing_def [OF assms(1)] by blast

theorem delete_account_all_or_nothing_witness:
  "(\<exists>code msg. fst (handleDeleteAccount memory_api user_seven start_world) = Fail code msg) \<and>
      aw_tables (snd (handleDeleteAccount memory_api user_seven start_world)) = aw_tables start_world \<or>
    fst (handleDeleteAccount memory_api user_seven start_world) = AccountDeleted \<and>
    aw_tables (snd (handleDeleteAccount memory_api user_seven start_world)) =
      without_user (getUserID user_seven) (aw_tables start_world)"
  by (rule delete_account_all_or_nothing [OF plain_api.api_services_axioms])
    (simp add: user_seven_def getUserRole_def)

section \<open>The limit on tasks\<close>

text \<open>Requests of any users, one after the other.\<close>

inductive api_step :: "'w Server \<Rightarrow> 'w \<Rightarrow> 'w \<Rightarrow> bool" for s where
  api_request: "0 \<le> getUserID c \<Longrightarrow> getUserID c < 2 ^ 64 \<Longrightarrow> api_step s w (snd (handle_call s now c call w))"

definition within_limit :: "'w Server \<Rightarrow> ('w \<Rightarrow> tables) \<Rightarrow> 'w \<Rightarrow> bool" where
  "within_limit s dbv w \<longleftrightarrow> (\<forall>uid. own_count uid (dbv w) \<le> task_limit s)"

context api_services
begin

lemma call_count:
  assumes "0 \<le> getUserID c" and "getUserID c < 2 ^ 64"
  shows "own_count uid (dbv (snd (handle_call s now c call w))) \<le> max (own_count uid (dbv w)) (task_limit s)"
proof (cases call)
  case (CreateTask body)
  then show ?thesis using create_count [OF assms] by simp
qed (use toggle_count status_count update_count delete_task_count close_count list_frame timeline_frame
    in \<open>auto simp: le_max_iff_disj\<close>)

lemma step_within_limit:
  assumes "within_limit s dbv w" and "api_step s w w'"
  shows "within_limit s dbv w'"
  using assms(2)
proof cases
  case (api_request c now call)
  have "own_count uid (dbv w') \<le> task_limit s" for uid
    using call_count [OF api_request(2,3), of uid now call w] assms(1) api_request(1) by (simp add: within_limit_def)
  then show ?thesis by (simp add: within_limit_def)
qed

end

sublocale api_services \<subseteq> limit: invariant_system "within_limit s dbv" "api_step s" "within_limit s dbv"
  by unfold_locales (auto intro: step_within_limit)

context api_services
begin

lemma steps_within_limit:
  assumes "(api_step s)\<^sup>*\<^sup>* w w'" and "within_limit s dbv w"
  shows "within_limit s dbv w'"
  using limit.steps_invar assms .

end

text \<open>
  C29. No user gets beyond the limit on tasks. If no user has more than the configured number of
  tasks (three when none is configured), then the same holds after any sequence of requests of
  any users, served one after the other, whichever statements fail.
\<close>

theorem task_limit_kept:
  assumes "api_services s dbv saved" and "\<forall>uid. own_count uid (dbv w) \<le> task_limit s" and "(api_step s)\<^sup>*\<^sup>* w w'"
  shows "\<forall>uid. own_count uid (dbv w') \<le> task_limit s"
  using api_services.steps_within_limit [OF assms(1,3)] assms(2)
  by (simp add: within_limit_def)

definition shoes :: createTaskRequest where
  "shoes = \<lparr>CT_Keyword = ''shoes'', CT_MinPrice = 0, CT_MaxPrice = 0, CT_Platform = 1, CT_Sort = [], CT_Status = [],
     CT_Type = ''daily''\<rparr>"

theorem task_limit_kept_witness:
  "\<forall>uid. own_count uid (aw_tables (snd (handle_call memory_api 0 user_seven (CreateTask (Some shoes)) start_world))) \<le>
     task_limit memory_api"
proof (rule task_limit_kept [OF plain_api.api_services_axioms])
  show "\<forall>uid. own_count uid (aw_tables start_world) \<le> task_limit memory_api"
    by (simp add: own_count_def start_world_def busy_tables_def task_limit_def memory_api_simps)
  show "(api_step memory_api)\<^sup>*\<^sup>* start_world (snd (handle_call memory_api 0 user_seven (CreateTask (Some shoes)) start_world))"
    by (intro r_into_rtranclp api_request) (simp_all add: user_seven_def getUserID_def)
qed

section \<open>Duplicates\<close>

text \<open>
  What the deduplicator promises the handler: it says whether the address was seen, and an address
  it was asked about is seen for the whole window; statements do not touch it.
\<close>

locale api_dedup = api_services s dbv saved
  for s :: "'w Server" and dbv :: "'w \<Rightarrow> tables" and saved :: "'w \<Rightarrow> tables option" +
  fixes seen :: "'w \<Rightarrow> gotime \<Rightarrow> string \<Rightarrow> bool"
    and window :: duration
  assumes dedup_answer: "u \<noteq> [] \<Longrightarrow> fst (V_isDuplicate s t u w) = Inr (seen w t u)"
    and dedup_marks: "u \<noteq> [] \<Longrightarrow> t \<le> t' \<Longrightarrow> t' < t + window \<Longrightarrow> \<not> seen w t u \<Longrightarrow>
      seen (snd (V_isDuplicate s t u w)) t' u"
    and db_seen: "seen (snd (V_db s w q)) = seen w"
    and db_works: "fst (V_db s w q) \<noteq> None"
begin

lemma count_works: "V_countTasks s uid w = (Some (own_count uid (dbv w)), snd (V_db s w (FindTasks (\<lambda>t. int (T_UserID t) = uid))))"
  using db_result [of w "FindTasks (\<lambda>t. int (T_UserID t) = uid)"] db_works [of w "FindTasks (\<lambda>t. int (T_UserID t) = uid)"]
  by (auto simp: task_store dbTaskStore_CountTasks_def own_count_def tally_def split: prod.split)

lemma dup_check_answer:
  assumes "u \<noteq> []"
  shows "dup_check s t u w = (seen w t u, snd (V_isDuplicate s t u w))"
  using assms dedup_answer [OF assms, of t w] by (auto simp: dup_check_def split: prod.split sum.split)

lemma mark_stays:
  fixes uid w
  defines "w1 \<equiv> snd (V_db s w (FindTasks (\<lambda>t. int (T_UserID t) = uid)))"
  assumes "u \<noteq> []" and "t \<le> t'" and "t' < t + window" and "\<not> seen w t u"
  shows "seen (snd (V_isDuplicate s t u w1)) t' u"
  using assms by (intro dedup_marks) (simp_all add: db_seen)

lemma rejected_request_blocks:
  fixes req t1 t2 w c1 c2
  defines "url \<equiv> buildDedupURL req (fst (mapSortAndOrder (V_ul s) (CT_Sort req))) (snd (mapSortAndOrder (V_ul s) (CT_Sort req)))"
    and "first \<equiv> handleCreateTask s t1 c1 (Some req) w"
  assumes roles: "getUserRole c1 \<noteq> ''guest''" "getUserRole c2 \<noteq> ''guest''"
    and limits: "own_count (getUserID c1) (dbv w) < task_limit s" "own_count (getUserID c2) (dbv w) < task_limit s"
    and sort: "fst (mapSortAndOrder (V_ul s) (CT_Sort req)) \<noteq> - 1"
    and bad: "ToLower (V_ul s) (TrimSpace (CT_Type req)) \<notin> {[], TaskTypeMonitor, TaskTypeOneShot}"
    and new: "url \<noteq> []" "\<not> seen w t1 url" and in_time: "t1 \<le> t2" "t2 < t1 + window"
  shows "fst first = Fail StatusBadRequest ''invalid task type'' \<and>
    fst (handleCreateTask s t2 c2 (Some (req\<lparr>CT_Type := ty\<rparr>)) (snd first)) = SkippedDuplicate \<and>
    dbv (snd (handleCreateTask s t2 c2 (Some (req\<lparr>CT_Type := ty\<rparr>)) (snd first))) = dbv w"
proof -
  obtain a b where ab: "mapSortAndOrder (V_ul s) (CT_Sort req) = (a, b)" by fastforce
  have url: "url = buildDedupURL req a b" "a \<noteq> - 1" using sort by (simp_all add: url_def ab)
  have url': "buildDedupURL (req\<lparr>CT_Type := ty\<rparr>) a b = url" by (simp add: url buildDedupURL_def Let_def)
  define w1 where "w1 = snd (V_db s w (FindTasks (\<lambda>t. int (T_UserID t) = getUserID c1)))"
  define w2 where "w2 = snd (V_isDuplicate s t1 url w1)"
  have w1: "dbv w1 = dbv w" unfolding w1_def by (rule db_same) simp
  have w2: "dbv w2 = dbv w" by (simp add: w2_def dedup_frame w1)
  have "seen w1 = seen w" by (simp add: w1_def db_seen)
  with new have dup1: "dup_check s t1 url w1 = (False, w2)" by (simp add: dup_check_answer w2_def)
  have first: "first = (Fail StatusBadRequest ''invalid task type'', w2)"
    using roles(1) limits(1) url(2) bad dup1
    by (simp add: first_def handleCreateTask_def count_works ab url(1) [symmetric] w1_def [symmetric] store_new_task_def Let_def)
  define w3 where "w3 = snd (V_db s w2 (FindTasks (\<lambda>t. int (T_UserID t) = getUserID c2)))"
  have w3: "dbv w3 = dbv w" "seen w3 = seen w2" unfolding w3_def by (simp_all add: db_same w2 db_seen)
  have "seen w2 t2 url" unfolding w2_def w1_def using new in_time by (intro mark_stays)
  then have dup2: "dup_check s t2 url w3 = (True, snd (V_isDuplicate s t2 url w3))"
    using new(1) by (simp add: dup_check_answer w3)
  then have "handleCreateTask s t2 c2 (Some (req\<lparr>CT_Type := ty\<rparr>)) w2 = (SkippedDuplicate, snd (V_isDuplicate s t2 url w3))"
    using roles(2) limits(2) url(2)
    by (simp add: handleCreateTask_def count_works ab url' w3_def [symmetric] w2)
  with first show ?thesis by (simp add: dedup_frame w3)
qed

end

definition seen_in :: "api_world \<Rightarrow> gotime \<Rightarrow> string \<Rightarrow> bool" where
  "seen_in w t u \<longleftrightarrow> seen_at t u (aw_keys w)"

lemma memory_keys_redis: "ttl_redis memory_keys aw_keys"
  by unfold_locales (simp_all add: memory_keys_def)

interpretation plain_dedup: api_dedup memory_api aw_tables aw_saved seen_in Hour
  by unfold_locales
    (auto simp: memory_api_simps seen_in_def ttl_redis.IsDuplicate_effect [OF memory_keys_redis] seen_at_def expire_at_def
      fun_eq_iff)

text \<open>
  C37. A rejected request blocks the search it asked for. A request with an unknown task type is
  answered with status 400, but the address of its search is marked by then: until the window
  is over, the same request with a valid type, by the same or by any other user, is skipped as a
  duplicate, and no task is created.
\<close>

theorem rejected_request_blocks_its_search:
  assumes "api_dedup s dbv saved seen window"
    and "getUserRole c1 \<noteq> ''guest''" and "getUserRole c2 \<noteq> ''guest''"
    and "own_count (getUserID c1) (dbv w) < task_limit s" and "own_count (getUserID c2) (dbv w) < task_limit s"
    and "fst (mapSortAndOrder (V_ul s) (CT_Sort req)) \<noteq> - 1"
    and "ToLower (V_ul s) (TrimSpace (CT_Type req)) \<notin> {[], TaskTypeMonitor, TaskTypeOneShot}"
    and "buildDedupURL req (fst (mapSortAndOrder (V_ul s) (CT_Sort req))) (snd (mapSortAndOrder (V_ul s) (CT_Sort req))) \<noteq> []"
    and "\<not> seen w t1 (buildDedupURL req (fst (mapSortAndOrder (V_ul s) (CT_Sort req))) (snd (mapSortAndOrder (V_ul s) (CT_Sort req))))"
    and "t1 \<le> t2" and "t2 < t1 + window"
  shows "let first = handleCreateTask s t1 c1 (Some req) w;
             second = handleCreateTask s t2 c2 (Some (req\<lparr>CT_Type := ty\<rparr>)) (snd first)
         in fst first = Fail StatusBadRequest ''invalid task type'' \<and>
            fst second = SkippedDuplicate \<and> dbv (snd second) = dbv w"
  using api_dedup.rejected_request_blocks [OF assms] by (simp add: Let_def)

lemma empty_sort: "mapSortAndOrder ul [] = (SORT_BY_CREATED_TIME, SORT_ORDER_DESC)"
  by (simp add: mapSortAndOrder_def ToLower_lower TrimSpace_printable)

lemma shoes_type: "ToLower ul (TrimSpace ''daily'') = ''daily''"
  by (subst TrimSpace_printable, simp add: printable_def byte_def) (rule ToLower_lower, simp add: byte_def)

theorem rejected_request_blocks_its_search_witness:
  "let first = handleCreateTask memory_api 0 user_seven (Some shoes) start_world;
       second = handleCreateTask memory_api Second \<lparr>X_userID = Some 8, X_role = None\<rparr> (Some (shoes\<lparr>CT_Type := ''monitor''\<rparr>)) (snd first)
   in fst first = Fail StatusBadRequest ''invalid task type'' \<and>
      fst second = SkippedDuplicate \<and> aw_tables (snd second) = aw_tables start_world"
  by (rule rejected_request_blocks_its_search [OF plain_dedup.api_dedup_axioms])
    (simp_all add: user_seven_def getUserRole_def getUserID_def own_count_def start_world_def busy_tables_def some_task_def
      requested_task_def task_limit_def memory_api_simps shoes_def empty_sort shoes_type TaskTypeMonitor_def
      TaskTypeOneShot_def buildDedupURL_def BuildMercariURL_def seen_in_def seen_at_def)

section \<open>The timeline\<close>

definition page_items :: "api_reply \<Rightarrow> timelineItem list" where
  "page_items r = (case r of Timeline its st \<Rightarrow> its | _ \<Rightarrow> [])"

lemma concat_pages: "concat (map (\<lambda>j. take n (drop (j * n) xs)) [0..<k]) = take (k * n) xs"
proof (induction k)
  case (Suc k)
  have "take (Suc k * n) xs = take (k * n) xs @ take n (drop (k * n) xs)"
    by (simp only: mult_Suc add.commute [of n] take_add)
  with Suc show ?case by simp
qed simp

context api_services
begin

lemma timeline_page:
  assumes "fst (V_db s w (SelectTimeline (\<lambda>db. take (nat L) (drop (nat n) (timeline_rows s (getUserID c) tid db))))) \<noteq> None"
    and "0 < L" "L \<le> 100" and "0 \<le> n" "n < 2 ^ 63"
  shows "page_items (fst (handleTimeline s now c (FormatInt L) (FormatInt n) tid w)) =
    map (timeline_item s now) (take (nat L) (drop (nat n) (timeline_rows s (getUserID c) tid (dbv w))))"
proof -
  have limit: "page_limit (FormatInt L) = L" using assms by (simp add: page_limit_def parseQueryInt_def Atoi_def)
  have offs: "parseQueryInt (FormatInt n) 0 = n" using assms by (simp add: parseQueryInt_def Atoi_def)
  have "fst (V_db s w (SelectTimeline (\<lambda>db. take (nat L) (drop (nat n) (timeline_rows s (getUserID c) tid db))))) =
      Some (RTimeline (take (nat L) (drop (nat n) (timeline_rows s (getUserID c) tid (dbv w)))))"
    using db_result [of w "SelectTimeline (\<lambda>db. take (nat L) (drop (nat n) (timeline_rows s (getUserID c) tid db)))"] assms(1)
    by auto
  then show ?thesis
    by (auto simp: handleTimeline_def limit offs page_items_def split: prod.split)
qed

end

lemma timeline_rows_own:
  assumes "(i, x, t) \<in> set (timeline_rows s uid tid db)"
  shows "int (T_UserID t) = uid \<and> t \<in> set (tasks db) \<and> x \<in> set (task_items db) \<and> i \<in> set (items db) \<and>
    I_ID i = TI_ItemID x \<and> T_ID t = TI_TaskID x"
  using assms by (auto simp: timeline_rows_def joined_rows_def)



end
