(* ===== verification/Mail.thy ===== *)
theory Mail
  imports Listing Database Config
begin

text \<open>
  The mails of \<^verbatim>\<open>internal/pkg/notify/email.go\<close>: the notification of an item and the verification code, with
  their texts as the source has them. The dialer that delivers a message is an argument.

  The lemmas show when a mail is sent and that the texts of an item stand in it unchanged.
\<close>

section \<open>Messages\<close>

record message =
  MSG_From :: string
  MSG_To :: string
  MSG_Subject :: string
  MSG_Body :: string

text \<open>The dialer: host, port, user, password and message; whether it was delivered.\<close>

type_synonym 'w dialer = "string \<Rightarrow> int \<Rightarrow> string \<Rightarrow> string \<Rightarrow> 'w \<Rightarrow> message \<Rightarrow> bool \<times> 'w"

datatype mail_error = ConfigMissing | EmptyRecipient | SendEmail

fun text_lines :: "string list \<Rightarrow> string" where
  "text_lines [] = []"
| "text_lines [l] = l"
| "text_lines (l # ls) = l @ CHR 0x0A # text_lines ls"

section \<open>Texts\<close>

definition mail_head :: string where
  "mail_head = text_lines
     [[],
      ''<!DOCTYPE html>'',
      ''<html>'',
      ''<head>'',
      ''<meta charset=\"UTF-8\" />'',
      ''<style>'',
      ''  body { font-family: Arial, sans-serif; background: #f6f7fb; color: #1f2937; }'',
      ''  .card { max-width: 600px; margin: 24px auto; background: #ffffff; border-radius: 12px; overflow: hidden; border: 1px solid #e5e7eb; }'',
      ''  .header { background: #0f172a; color: #ffffff; padding: 16px 20px; font-size: 16px; font-weight: bold; }'',
      ''  .content { padding: 20px; }'',
      ''  .hero img { width: 100%; max-width: 520px; display: block; margin: 0 auto 16px; border-radius: 8px; }'',
      ''  .price { font-size: 26px; font-weight: bold; color: #ef4444; margin: 8px 0 12px; }'',
      ''  .title { font-size: 16px; margin-bottom: 16px; }'',
      ''  .cta { display: inline-block; padding: 12px 20px; background: #22c55e; color: #fff; text-decoration: none; border-radius: 8px; font-weight: bold; }'',
      ''  .footer { margin-top: 20px; font-size: 12px; color: #6b7280; }'',
      ''</style>'',
      ''</head>'',
      ''<body>'',
      ''  <div class=\"card\">'',
      ''    <div class=\"header\">[GoodsHunter] '' @ bytes [240, 159, 142, 175] @ '' '' @ bytes [230, 141, 161, 230, 188, 143, 230, 143, 144, 233, 134, 146] @ ''</div>'',
      ''    <div class=\"content\">'',
      ''      <div class=\"hero\"><img src=\"'']"

definition mail_price :: string where
  "mail_price = text_lines
     [''\" alt=\"Item Image\" /></div>'',
      ''      <div class=\"price\">'']"

definition mail_title :: string where
  "mail_title = text_lines
     [''</div>'',
      ''      <div class=\"title\">'']"

definition mail_link :: string where
  "mail_link = text_lines
     [''</div>'',
      ''      <div style=\"text-align:center; margin-bottom: 12px;\">'',
      ''        <a class=\"cta\" href=\"'']"

definition mail_footer :: string where
  "mail_footer = text_lines
     [''\" target=\"_blank\">'' @ bytes [231, 171, 139, 229, 141, 179, 229, 142, 187, 231, 133, 164, 231, 130, 137, 230, 138, 162, 232, 180, 173] @ ''</a>'',
      ''      </div>'',
      ''      <div class=\"footer\">'' @ bytes [232, 167, 166, 229, 143, 145, 229, 133, 179, 233, 148, 174, 232, 175, 141] @ '': '']"

definition mail_end :: string where
  "mail_end = text_lines
     [''</div>'',
      ''    </div>'',
      ''  </div>'',
      ''</body>'',
      ''</html>'']"

definition code_head :: string where
  "code_head = text_lines
     [''<!DOCTYPE html>'',
      ''<html>'',
      ''<body style=\"font-family: Arial, sans-serif;\">'',
      ''  <div style=\"max-width: 520px; margin: 0 auto; padding: 16px;\">'',
      ''    <h2>GoodsHunter '' @ bytes [233, 130, 174, 231, 174, 177, 233, 170, 140, 232, 175, 129] @ ''</h2>'',
      ''    <p>'' @ bytes [228, 189, 160, 231, 154, 132, 233, 170, 140, 232, 175, 129, 231, 160, 129, 230, 152, 175, 239, 188, 154] @ ''</p>'',
      ''    <div style=\"font-size: 28px; font-weight: bold; letter-spacing: 3px;\">'']"

definition code_end :: string where
  "code_end = text_lines
     [''</div>'',
      ''    <p>'' @ bytes [233, 170, 140, 232, 175, 129, 231, 160, 129, 230, 156, 137, 230, 149, 136, 230, 156, 159] @ '' 10 '' @ bytes [229, 136, 134, 233, 146, 159, 227, 128, 130] @ ''</p>'',
      ''  </div>'',
      ''</body>'',
      ''</html>'']"

section \<open>Sending\<close>

definition price_line :: "Item \<Rightarrow> string \<Rightarrow> int \<Rightarrow> string" where
  "price_line item reason oldPrice =
     (if reason = ''Price Drop Detected'' \<and> 0 < oldPrice
      then bytes [194, 165] @ '' '' @ formatJPY oldPrice @ '' '' @ bytes [226, 134, 146] @ '' '' @ bytes [194, 165] @ '' '' @ formatJPY (I_Price item) @ '' '' @ bytes [240, 159, 147, 137]
      else bytes [194, 165] @ '' '' @ formatJPY (I_Price item))"

definition buildHTMLBody :: "Item \<Rightarrow> string \<Rightarrow> string \<Rightarrow> int \<Rightarrow> string" where
  "buildHTMLBody item reason keyword oldPrice =
     mail_head @ I_ImageURL item @ mail_price @ price_line item reason oldPrice @ mail_title @ I_Title item @
     mail_link @ I_ItemURL item @ mail_footer @ keyword @ mail_end"

definition mail_configured :: "EmailConfig \<Rightarrow> bool" where
  "mail_configured cfg \<longleftrightarrow> \<not> (E_SMTPHost cfg = [] \<or> E_SMTPUser cfg = [] \<or> E_FromEmail cfg = [])"

definition deliver :: "'w dialer \<Rightarrow> EmailConfig \<Rightarrow> 'w \<Rightarrow> message \<Rightarrow> mail_error option \<times> 'w" where
  "deliver dial cfg w m =
     (case dial (E_SMTPHost cfg) (E_SMTPPort cfg) (E_SMTPUser cfg) (E_SMTPPass cfg) w m of
        (ok, w1) \<Rightarrow> (if ok then None else Some SendEmail, w1))"

definition Send ::
  "'w dialer \<Rightarrow> EmailConfig \<Rightarrow> Item \<Rightarrow> string \<Rightarrow> string \<Rightarrow> int \<Rightarrow> string \<Rightarrow> 'w \<Rightarrow> mail_error option \<times> 'w"
where
  "Send dial cfg item reason keyword oldPrice toEmail w =
     (if \<not> mail_configured cfg then (None, w)
      else if TrimSpace toEmail = [] then (None, w)
      else deliver dial cfg w
             \<lparr>MSG_From = E_FromEmail cfg, MSG_To = toEmail,
              MSG_Subject = ''[GoodsHunter] '' @ bytes [240, 159, 142, 175] @ '' '' @ bytes [230, 141, 161, 230, 188, 143, 230, 143, 144, 233, 134, 146],
              MSG_Body = buildHTMLBody item reason keyword oldPrice\<rparr>)"

definition SendVerificationCode :: "'w dialer \<Rightarrow> EmailConfig \<Rightarrow> string \<Rightarrow> string \<Rightarrow> 'w \<Rightarrow> mail_error option \<times> 'w" where
  "SendVerificationCode dial cfg toEmail code w =
     (if \<not> mail_configured cfg then (Some ConfigMissing, w)
      else if TrimSpace toEmail = [] then (Some EmptyRecipient, w)
      else deliver dial cfg w
             \<lparr>MSG_From = E_FromEmail cfg, MSG_To = toEmail,
              MSG_Subject = ''[GoodsHunter] '' @ bytes [233, 130, 174, 231, 174, 177, 233, 170, 140, 232, 175, 129, 231, 160, 129],
              MSG_Body = code_head @ code @ code_end\<rparr>)"

section \<open>What a mail shows\<close>

text \<open>
  A notification that is not sent is not an error, a verification code that is not sent is one; and
  both are sent to their recipient only.
\<close>

lemma mail_outcome:
  assumes "\<And>h p u pw w m. dial h p u pw w m = (True, w @ [m])"
  shows "fst (Send dial cfg item reason keyword oldPrice to w) = None"
    and "snd (Send dial cfg item reason keyword oldPrice to w) = w \<or>
         (\<exists>m. snd (Send dial cfg item reason keyword oldPrice to w) = w @ [m] \<and> MSG_To m = to)"
    and "fst (SendVerificationCode dial cfg to code w) = None \<longleftrightarrow>
         (\<exists>m. snd (SendVerificationCode dial cfg to code w) = w @ [m] \<and> MSG_To m = to)"
  by (simp_all add: Send_def SendVerificationCode_def deliver_def assms)

text \<open>The title of an item stands in the page as it came, markup included.\<close>

lemma title_is_not_escaped: "Contains (buildHTMLBody item reason keyword oldPrice) (mail_title @ I_Title item @ mail_link)"
  unfolding Contains_def sublist_def buildHTMLBody_def
  by (rule exI [of _ "mail_head @ I_ImageURL item @ mail_price @ price_line item reason oldPrice"],
      rule exI [of _ "I_ItemURL item @ mail_footer @ keyword @ mail_end"]) simp

end
