(* ===== verification/Diagnostics.thy ===== *)
theory Diagnostics
  imports Detect
begin

text \<open>
  What the crawler keeps of a page that gave it trouble (\<^verbatim>\<open>detect.go\<close>): a line for the log, a screenshot,
  or the page's HTML when no screenshot can be had. Files are a map from paths to contents; what the
  browser and the disk answer are arguments, and so is the text of the local time.
\<close>

type_synonym files = "string \<rightharpoonup> string"

record disk =
  dk_mkdir_ok :: bool
  dk_write_ok :: "string \<Rightarrow> bool"
  dk_stamp :: string \<comment> \<open>the local time at the screenshot, as text\<close>
  dk_html_stamp :: string

text \<open>
  The page: its ready state, title and the start of its HTML; the two attempts at a screenshot (\<open>None\<close> an
  error), a panic of the browser library during them, the end of the time for them; and the HTML for the
  snapshot, \<open>None\<close> when the time for it ended and empty when it could not be read.
\<close>

record diag_page =
  dp_state :: "string option"
  dp_title :: "string option"
  dp_head :: "string option"
  dp_shot1 :: "string option"
  dp_shot2 :: "string option"
  dp_shot_panic :: bool
  dp_shot_timeout :: bool
  dp_html :: "string option"

definition screenshotDir :: string where "screenshotDir = ''/tmp/goodshunter/screenshots''"

definition diag_path :: "string \<Rightarrow> string \<Rightarrow> string \<Rightarrow> string \<Rightarrow> string" where
  "diag_path taskID phase stamp ext = screenshotDir @ ''/'' @ taskID @ ''_'' @ phase @ ''_'' @ stamp @ ext"

definition write_file :: "disk \<Rightarrow> string \<Rightarrow> string \<Rightarrow> files \<Rightarrow> bool \<times> files" where
  "write_file k path data fs = (if dk_write_ok k path then (True, fs(path \<mapsto> data)) else (False, fs))"

definition truncated_mark :: string where "truncated_mark = CHR 0x0A # ''<!-- truncated -->''"

definition saveHTMLSnapshot :: "disk \<Rightarrow> string \<Rightarrow> string \<Rightarrow> diag_page \<Rightarrow> files \<Rightarrow> files" where
  "saveHTMLSnapshot k taskID phase p fs =
     (case dp_html p of
        None \<Rightarrow> fs
      | Some html \<Rightarrow>
          if html = [] \<or> length html < 100 then fs
          else let html = (if 500 * 1024 < length html then take (500 * 1024) html @ truncated_mark else html)
               in snd (write_file k (diag_path taskID phase (dk_html_stamp k) ''.html'') html fs))"

text \<open>The data of the screenshot, or \<open>None\<close>; the second attempt follows an error of the first.\<close>

definition capture :: "diag_page \<Rightarrow> string option" where
  "capture p = (if dp_shot_panic p then None else case dp_shot1 p of Some d \<Rightarrow> Some d | None \<Rightarrow> dp_shot2 p)"

definition saveDebugScreenshot ::
  "bool \<Rightarrow> disk \<Rightarrow> string \<Rightarrow> string \<Rightarrow> diag_page option \<Rightarrow> files \<Rightarrow> string \<times> files"
where
  "saveDebugScreenshot debug k taskID phase page fs =
     (if \<not> debug then ([], fs)
      else case page of
        None \<Rightarrow> ([], fs)
      | Some p \<Rightarrow>
          if \<not> dk_mkdir_ok k then ([], fs)
          else let path = diag_path taskID phase (dk_stamp k) ''.png''
               in if dp_shot_timeout p then ([], saveHTMLSnapshot k taskID phase p fs)
                  else (case capture p of
                          None \<Rightarrow> ([], saveHTMLSnapshot k taskID phase p fs)
                        | Some data \<Rightarrow>
                            (case write_file k path data fs of
                               (True, fs1) \<Rightarrow> (path, fs1)
                             | (False, fs1) \<Rightarrow> ([], fs1))))"

record timeout_line =
  tl_phase :: string
  tl_taskID :: string
  tl_url :: string
  tl_readyState :: string
  tl_pageTitle :: string
  tl_blockType :: string
  tl_screenshot :: string

definition or_unknown :: "string option \<Rightarrow> string" where
  "or_unknown v = (case v of None \<Rightarrow> ''unknown'' | Some s \<Rightarrow> if s = [] then ''unknown'' else s)"

definition logPageTimeout ::
  "(string \<Rightarrow> string) \<Rightarrow> bool \<Rightarrow> disk \<Rightarrow> string \<Rightarrow> string \<Rightarrow> string \<Rightarrow> diag_page option \<Rightarrow> files \<Rightarrow> timeout_line \<times> files"
where
  "logPageTimeout ul debug k phase taskID url page fs =
     (case page of
        None \<Rightarrow> (\<lparr>tl_phase = phase, tl_taskID = taskID, tl_url = url, tl_readyState = ''unknown'', tl_pageTitle = ''unknown'',
                 tl_blockType = detectBlockType ul ''unknown'' [], tl_screenshot = []\<rparr>, fs)
      | Some p \<Rightarrow>
          (case saveDebugScreenshot debug k taskID phase (Some p) fs of
             (path, fs1) \<Rightarrow>
               (\<lparr>tl_phase = phase, tl_taskID = taskID, tl_url = url, tl_readyState = or_unknown (dp_state p),
                 tl_pageTitle = or_unknown (dp_title p),
                 tl_blockType = detectBlockType ul (or_unknown (dp_title p)) (case dp_head p of None \<Rightarrow> [] | Some h \<Rightarrow> h),
                 tl_screenshot = path\<rparr>, fs1)))"

section \<open>What they promise\<close>

text \<open>A path in the log is the path of the screenshot, and the file is there.\<close>

lemma reported_screenshot_exists:
  assumes "saveDebugScreenshot debug k taskID phase page fs = (path, fs')" and "path \<noteq> []"
  shows "\<exists>p. page = Some p \<and> debug \<and> path = diag_path taskID phase (dk_stamp k) ''.png'' \<and> fs' path = capture p \<and> fs' path \<noteq> None"
  using assms
  by (auto simp: saveDebugScreenshot_def write_file_def Let_def split: if_splits option.splits)

text \<open>
  Nothing else is written: at most one file changes, it is one of the two of this task, phase and
  time, and the HTML among them is never longer than 500 KB and the mark.
\<close>

lemma snapshot_change:
  "saveHTMLSnapshot k taskID phase p fs path \<noteq> fs path \<Longrightarrow>
     path = diag_path taskID phase (dk_html_stamp k) ''.html'' \<and>
     (\<exists>h. saveHTMLSnapshot k taskID phase p fs path = Some h \<and> length h \<le> 500 * 1024 + length truncated_mark)"
  by (auto simp: saveHTMLSnapshot_def write_file_def Let_def split: if_splits option.splits)

lemma diagnostics_write_only_their_files:
  assumes "snd (logPageTimeout ul debug k phase taskID url page fs) path \<noteq> fs path"
  shows "debug \<and>
    (path = diag_path taskID phase (dk_stamp k) ''.png'' \<or>
     path = diag_path taskID phase (dk_html_stamp k) ''.html'' \<and>
     (\<exists>h. snd (logPageTimeout ul debug k phase taskID url page fs) path = Some h \<and>
        length h \<le> 500 * 1024 + length truncated_mark))"
proof -
  obtain p where p: "page = Some p" and
    s: "snd (saveDebugScreenshot debug k taskID phase (Some p) fs) path \<noteq> fs path"
    using assms by (auto simp: logPageTimeout_def prod.case_eq_if split: option.splits)
  have log: "snd (logPageTimeout ul debug k phase taskID url page fs) = snd (saveDebugScreenshot debug k taskID phase (Some p) fs)"
    by (simp add: p logPageTimeout_def prod.case_eq_if)
  from s show ?thesis
    unfolding log using snapshot_change [of k taskID phase p fs path]
    by (auto simp: saveDebugScreenshot_def write_file_def Let_def split: if_splits option.splits)
qed

end
