(* ===== verification/Spec2Isabelle.thy ===== *)
theory Spec2Isabelle
  imports Journey ResultListener PoolMetrics CrawlMetrics QueueMetrics PageVisit QueueGuarantees WorkerPool RateLimit
    Dedup Scheduler ResultProcessing Auth MercariURL ServerGuarantees Listing Detect Throttle Browser Draining Crawler
    CrawlerGuarantees Config Mail Fleet Lifecycle PageSetup Diagnostics
begin

text \<open>
  GoodsHunter watches second-hand listings on Mercari and mails its users about new items and price
  drops. An API process keeps users, tasks and items in MySQL; its scheduler enqueues the running tasks in
  Redis; crawler processes take them, open the search page in a browser, read the items and push a
  result; the scheduler stores the result and sends the mails. This development models the Go code
  under \<^verbatim>\<open>src/internal\<close> and \<^verbatim>\<open>src/cmd\<close> and proves what it promises.

  \<^bold>\<open>Theories and code.\<close> Every theory opens with what it holds; the operations keep the names they have in
  the code, and a name in another style is a part of a function that was cut out of it.

    \<^item> \<^verbatim>\<open>Prelude\<close>, \<^verbatim>\<open>GoStd\<close>: times, wrap-around of \<^verbatim>\<open>int32\<close> and \<^verbatim>\<open>int64\<close>, lists; \<^verbatim>\<open>strings\<close> and \<^verbatim>\<open>strconv\<close> on bytes. The
      interfaces \<open>invariant_system\<close> (steps that keep a predicate) and \<open>fifo\<close> are interpreted on the
      systems below.
    \<^item> \<^verbatim>\<open>Redis\<close>, \<^verbatim>\<open>RedisTTL\<close>, \<^verbatim>\<open>Database\<close>: the services as arguments, with the documented meaning of the commands and
      statements the code sends as interfaces (\<open>redis_server\<close>, \<open>ttl_redis\<close>, \<open>services\<close>) and an
      in-memory instance of each. \<^verbatim>\<open>Proto\<close>: the messages of \<^verbatim>\<open>proto/crawler.proto\<close>.
    \<^item> \<^verbatim>\<open>RedisQueue\<close>, \<^verbatim>\<open>QueueGuarantees\<close>: \<^verbatim>\<open>pkg/redisqueue/client.go\<close>. The operations with their Lua scripts under every
      network outcome; the atomic actions of all clients as the relation \<open>queue_step\<close>. A task id is in
      flight at most once, an entry is never lost, the janitor moves exactly the stuck entries.
    \<^item> \<^verbatim>\<open>WorkerPool\<close>: \<^verbatim>\<open>pkg/queue/queue.go\<close>, workers, producers and shutdown interleaved (\<open>pool_step\<close>). The counters add
      up, a shutdown runs what was accepted and ends.
    \<^item> \<^verbatim>\<open>RateLimit\<close>, \<^verbatim>\<open>Dedup\<close>: \<^verbatim>\<open>pkg/ratelimit\<close>, \<^verbatim>\<open>pkg/dedup\<close>, against a token bucket and against the window (with SHA-256
      defined).
    \<^item> \<^verbatim>\<open>Scheduler\<close>, \<^verbatim>\<open>ResultProcessing\<close>: \<^verbatim>\<open>api/scheduler/scheduler.go\<close>, dispatch and results, down to the mail of every
      item.
    \<^item> \<^verbatim>\<open>Auth\<close>: \<^verbatim>\<open>api/auth/auth.go\<close> and the middleware. \<^verbatim>\<open>Server\<close>, \<^verbatim>\<open>ServerGuarantees\<close>: \<^verbatim>\<open>api/server.go\<close> and \<^verbatim>\<open>api/seed.go\<close>; a
      request (\<open>api_call\<close>) never touches what belongs to another user, whichever statements fail.
    \<^item> \<^verbatim>\<open>MercariURL\<close>, \<^verbatim>\<open>Listing\<close>, \<^verbatim>\<open>Detect\<close>, \<^verbatim>\<open>Throttle\<close>: \<^verbatim>\<open>crawler/url_builder.go\<close>, \<^verbatim>\<open>parse.go\<close>, \<^verbatim>\<open>detect.go\<close>, \<^verbatim>\<open>adaptive.go\<close>:
      the address of a search and back, a price and back, which block a page shows, when to sleep.
    \<^item> \<^verbatim>\<open>Browser\<close>, \<^verbatim>\<open>Draining\<close>: \<^verbatim>\<open>crawler/browser.go\<close>; the exchange of the browser interleaved with the pages that use
      it (\<open>drain_step\<close>).
    \<^item> \<^verbatim>\<open>Crawler\<close>, \<^verbatim>\<open>CrawlerGuarantees\<close>: \<^verbatim>\<open>crawler/crawl.go\<close>, \<^verbatim>\<open>proxy.go\<close>, \<^verbatim>\<open>service.go\<close>: one crawl with every early return,
      the switch to the proxy, the goroutine of a task and the loop that starts them (\<open>worker_step\<close>).
    \<^item> \<^verbatim>\<open>Config\<close>, \<^verbatim>\<open>Mail\<close>: \<^verbatim>\<open>config/config.go\<close> and \<^verbatim>\<open>pkg/notify/email.go\<close>.
    \<^item> \<^verbatim>\<open>PageSetup\<close>, \<^verbatim>\<open>Diagnostics\<close>: the requests forbidden to a page (\<^verbatim>\<open>crawl.go\<close>), the simulated person (\<^verbatim>\<open>humanize.go\<close>),
      and what is kept of a page that gave trouble (\<^verbatim>\<open>detect.go\<close>). The forbidden requests hit a search exactly by
      its own words; the simulated actions stay inside the page or panic.
    \<^item> \<^verbatim>\<open>Fleet\<close>: scheduler, crawlers and the three passes for stuck tasks (\<^verbatim>\<open>cmd/crawler/main.go\<close>, \<^verbatim>\<open>browser.go\<close>,
      \<^verbatim>\<open>scheduler.go\<close>) on one queue and one clock (\<open>fleet_step\<close>). With the program's timeouts every run is one of
      \<open>queue_step\<close>, and no task is crawled twice at the same time; two overlapping passes can break that.
    \<^item> \<^verbatim>\<open>Lifecycle\<close>: start and stop of the two processes (\<^verbatim>\<open>cmd/api/main.go\<close>, \<^verbatim>\<open>cmd/crawler/main.go\<close>, \<open>crawler_step\<close>), the
      background of the API, the logger (\<^verbatim>\<open>pkg/logger\<close>) and the request log (\<^verbatim>\<open>api/middleware/request_log.go\<close>).
    \<^item> \<^verbatim>\<open>ResultListener\<close>: the loop of \<^verbatim>\<open>StartResultListener\<close> with its ten tokens and the handlers of the results,
      interleaved (\<open>listener_step\<close>): no popped result is lost or handled twice while the process runs.
    \<^item> \<^verbatim>\<open>PageVisit\<close>: the commands \<^verbatim>\<open>crawlOnce\<close> gives to its page, from its creation to its close; which page stays open.
    \<^item> \<^verbatim>\<open>Metrics\<close>: the declarations of \<^verbatim>\<open>pkg/metrics\<close> and the client library as the interface \<open>prometheus\<close>.
      \<^verbatim>\<open>PoolMetrics\<close>, \<^verbatim>\<open>CrawlMetrics\<close>, \<^verbatim>\<open>QueueMetrics\<close>: the calls of the worker pool, the crawler and the queue, each where
      the code makes it; the samples agree with the state of the pool (\<open>metered_step\<close>), and a task counts once.
    \<^item> \<^verbatim>\<open>Journey\<close> and this theory: a task on its way from its row through queue, crawler and listener back to the
      row. The interface \<open>separate_queue\<close> says that the queue and the other services do not see each other.

  \<^bold>\<open>Choices.\<close> Code that is not in the repository is an argument of the definitions: Redis, MySQL with its
  mapping library, the browser, JSON, JWT, bcrypt, SMTP, the clock, random numbers and the tables of
  Unicode. A property that relies on one of them says so by naming the interface or the law, and its
  witness instantiates it. Errors are values; a \<^verbatim>\<open>nil\<close> pointer is \<open>None\<close>; a map is a function or an association list. Where
  goroutines share state, every access is a step and the steps interleave; a critical section is one
  step. Integers that can wrap do so. Floating point numbers are real numbers, with rounding an
  argument where it matters (\<^verbatim>\<open>RateLimit\<close>).

  \<^bold>\<open>Loops.\<close> Most loops are structural. \<open>doCrawl\<close> calls itself from its first attempt only, which is its
  termination proof; the scheduler's paging is bounded by the number of rows and proved to reach all
  of them. \<open>rateLimitLoop\<close> and \<open>scrollLoop\<close> run over the events they meet, and \<open>None\<close> means that they still
  wait: the deadline ends the second one at the latest.

  \<^bold>\<open>Time.\<close> In \<open>fleet_step\<close> time passes only while no task is older than \<open>task_lifetime\<close>, the sum of the three
  timeouts its goroutine runs under; a call of the queue's client is one step, except that its requests
  and replies may be lost; the start of a task that is crawled is assumed to be recorded. All machines
  have the same clock; 19 seconds are left between a task's lifetime and the earliest pass that takes it for stuck.

  \<^bold>\<open>Not modelled.\<close> Log lines other than those of requests and diagnostics, which nothing reads back; the script
  that hides the automation, a text for the browser; serving HTTP and the endpoint of the metrics, which are
  calls of libraries; static files; the generated message code; the web page. Of Go's memory model only
  atomic operations and locks are used.
\<close>

section \<open>A task on its way\<close>

text \<open>
  A task comes back. When the scheduler pushes a task to an empty queue, a crawler pops it,
  crawls it to its end (whatever the crawl finds) and reports it, then the push is accepted, the crawler
  gets exactly that task, the next result the scheduler pops carries its id, and the queue is as
  before: no entry is left and the id can be pushed again.
\<close>

theorem task_comes_back:
  assumes "redis_server S view" and "protojson_codec mar unm" and "response_codec marr unmr"
    and "queue_typed (view d0)" and "q_entries (qview_of (view d0)) = []" and "q_results (qview_of (view d0)) = []"
    and "FR_TaskId task \<notin> q_pending (qview_of (view d0))" and "mar task = Some raw" and "decimal (FR_TaskId task)"
    and "marr (task_reply task ctx (Some (fst (FetchItems env as task s w)))) = Some data"
    and "d1 = snd (PushTask (Some S) mar Delivered (Some task) d0)"
    and "d2 = snd (PopTask (Some S) unm now Delivered Delivered d1)"
    and "d3 = fst (process_task env as (Some S) marr lp Delivered Delivered ctx False task s w d2)"
  shows "fst (PushTask (Some S) mar Delivered (Some task) d0) = None \<and>
    fst (PopTask (Some S) unm now Delivered Delivered d1) = Inr task \<and>
    map_sum id FP_TaskId (fst (PopResult (Some S) unmr Delivered d3)) = Inr (FR_TaskId task) \<and>
    q_entries (qview_of (view d3)) = [] \<and> FR_TaskId task \<notin> q_pending (qview_of (view d3))"
  using task_cycle [OF assms(1-9) refl assms(10-13)] by simp

text \<open>The demonstration task on the in-memory queue, with a crawl that fails.\<close>

definition demo_marshal :: "FetchResponse \<Rightarrow> string option" where
  "demo_marshal r = (if r = timeout_reply then Some ''r'' else None)"

definition demo_cycle :: keyspace where
  "demo_cycle =
     fst (process_task direct_env (demo_attempt False) (Some memory_server) demo_marshal (\<lambda>_ _. False) Delivered Delivered
       deadline False req1 fresh_service empty_tks
       (snd (PopTask (Some memory_server) unm1 0 Delivered Delivered
          (snd (PushTask (Some memory_server) mar1 Delivered (Some req1) empty_keyspace)))))"

theorem task_comes_back_witness:
  "map_sum id FP_TaskId (fst (PopResult (Some memory_server) (\<lambda>_. Some timeout_reply) Delivered demo_cycle)) = Inr ''1001'' \<and>
   q_entries (qview_of demo_cycle) = [] \<and> ''1001'' \<notin> q_pending (qview_of demo_cycle)"
proof -
  have codec: "response_codec demo_marshal (\<lambda>_. Some timeout_reply)" by (simp add: response_codec_def demo_marshal_def)
  have reply: "demo_marshal (task_reply req1 deadline (Some (fst (FetchItems direct_env (demo_attempt False) req1 fresh_service empty_tks)))) = Some ''r''"
    by (simp add: task_reply_direct demo_marshal_def)
  have start: "queue_typed empty_keyspace" "q_entries (qview_of empty_keyspace) = []" "q_results (qview_of empty_keyspace) = []"
    by (rule queue_typed_empty empty_queue)+
  have fresh: "FR_TaskId req1 \<notin> q_pending (qview_of empty_keyspace)" "decimal (FR_TaskId req1)"
    by (simp_all add: empty_keyspace_def)
  from task_comes_back [OF memory.redis_server_axioms example_codec codec start fresh(1) unm1_raw1(2) fresh(2) reply refl refl
      demo_cycle_def]
  show ?thesis by (simp del: qview_of_sel)
qed

text \<open>
  C1. The whole way, from the row of a task and back. When a worker of the scheduler handles the id of a
  running task while the queue is empty, a crawler pops the request that its row describes, crawls it to
  its end and reports it, and the listener takes its next turn, then the queue is empty again, the id can
  be scheduled again, and of all tasks exactly the row of this one has changed: it holds the time of the
  run, a first baseline unless the crawl failed, and its next status. The crawl may end in any way; the
  commands of the queue and the statements of the database are services that do not see each other.
\<close>

theorem scheduled_task_is_recorded:
  assumes "scheduler_services D R N dbv rv outbox s" and "S_redisQueue s = Some S" and "redis_server S view"
    and "separate_queue S (\<lambda>w. (dbv w, rv w))" and "\<forall>w q. view (snd (D w q)) = view w"
    and "protojson_codec (S_marshal s) unm" and "response_codec marr unmr"
    and "\<forall>w. S_net s w = Delivered \<and> \<not> S_ctx_err s w"
    and "queue_typed (view w0)" and "q_entries (qview_of (view w0)) = []" and "q_results (qview_of (view w0)) = []"
    and "intToString i \<notin> q_pending (qview_of (view w0))"
    and "filter (\<lambda>t. T_ID t = i) (tasks (dbv w0)) = [task]" and "T_Status task = ''running''" and "i < 2 ^ 64"
    and "snd (fst (load_user s task w0)) \<noteq> ''guest''"
    and "S_marshal s (task_request now0 task) = Some raw"
    and "reply = task_reply (task_request now0 task) ctx (Some (fst (FetchItems env as (task_request now0 task) cs cw)))"
    and "marr reply = Some data"
    and "w1 = snd (handleTaskByID s now0 i w0)"
    and "w2 = snd (PopTask (Some S) unm now1 Delivered Delivered w1)"
    and "w3 = fst (process_task env as (Some S) marr lp Delivered Delivered ctx False (task_request now0 task) cs cw w2)"
    and "w4 = snd (listener_turn s unmr clk batchTime now w3)"
  shows "fst (PopTask (Some S) unm now1 Delivered Delivered w1) = Inr (task_request now0 task) \<and>
    q_entries (qview_of (view w3)) = [] \<and> intToString i \<notin> q_pending (qview_of (view w3)) \<and>
    tasks (dbv w4) = map (\<lambda>t. if T_ID t = i then recorded now reply t else t) (tasks (dbv w0))"
proof -
  note sched = assms(1)
  note unseen = separate_queue.operations_unseen [OF assms(4), unfolded prod.inject]
  let ?t = "task_request now0 task"
  have "task \<in> set (filter (\<lambda>t. T_ID t = i) (tasks (dbv w0)))" by (simp add: assms(13))
  then have id: "T_ID task = i" by simp
  then have tid: "FR_TaskId ?t = intToString i" by (simp add: task_request_def)
  have serv: "services D R N dbv rv outbox" using sched by (simp add: scheduler_services_def)
  define d0 where "d0 = snd (D w0 (FindTasks (\<lambda>t. T_ID t = i \<and> T_Status t = ''running'')))"
  have v0: "view d0 = view w0" using assms(5) by (simp add: d0_def)
  have db0: "dbv d0 = dbv w0" unfolding d0_def by (simp add: services.service_simps [OF serv])
  define d1 where "d1 = snd (PushTask (Some S) (S_marshal s) Delivered (Some ?t) d0)"
  define d2 where "d2 = snd (PopTask (Some S) unm now1 Delivered Delivered d1)"
  define d3 where "d3 = fst (process_task env as (Some S) marr lp Delivered Delivered ctx False ?t cs cw d2)"
  have start: "queue_typed (view d0)" "q_entries (qview_of (view d0)) = []" "q_results (qview_of (view d0)) = []"
    "FR_TaskId ?t \<notin> q_pending (qview_of (view d0))" "decimal (FR_TaskId ?t)"
    using assms(9-12) decimal_task_id by (simp_all add: v0 tid del: qview_of_sel)
  note cycle = task_cycle [OF assms(3,6,7) start(1-4) assms(17) start(5) assms(18,19) d1_def d2_def d3_def, unfolded tid]
  have w: "w1 = d1" "w2 = d2" "w3 = d3"
    using scheduler_services.handleTaskByID_pushes [OF sched assms(2,13,14) _ d0_def] assms(8,20-22) cycle(1)
    by (simp_all add: d1_def d2_def d3_def)
  have db3: "dbv d3 = dbv w0"
    using db0 unseen separate_queue.run_task_unseen [OF assms(4), unfolded prod.inject]
    by (simp add: d3_def d2_def d1_def process_task_def case_prod_beta)
  define d4 where "d4 = snd (PopResult (Some S) unmr Delivered d3)"
  have db4: "dbv d4 = dbv w0" using unseen(4) db3 by (simp add: d4_def)
  have w4: "w4 = snd (handleResult s clk batchTime now reply d4)"
    using cycle(3) assms(2,8,23) by (simp add: listener_turn_def w d4_def prod.case_eq_if)
  have parse: "parseTaskID (FP_TaskId reply) = Inr i"
    using cycle(4) task_id_round_trip [OF assms(15)] by simp
  have row: "filter (\<lambda>t. T_ID t = i) (tasks (dbv d4)) = task # []" using assms(13) db4 by simp
  have role: "snd (fst (load_user s task d4)) \<noteq> ''guest''"
    using assms(16) scheduler_services.load_user_of_tables [OF sched db4, of task] by simp
  have only: "t = task" if "t \<in> set (tasks (dbv w0))" "T_ID t = i" for t
  proof -
    have "t \<in> set (filter (\<lambda>t. T_ID t = i) (tasks (dbv w0)))" using that by simp
    then show ?thesis by (simp add: assms(13))
  qed
  have "tasks (dbv w4) = update_where (\<lambda>t. T_ID t = i) (recorded now reply) (tasks (dbv w0))"
    using scheduler_services.handleResult_tasks [OF sched parse row, of clk batchTime now] role only
    by (auto simp: w4 db4 scheduler_services.guest_idle_def [OF sched] update_where_def recorded_def)
  then show ?thesis using cycle(2,5,6) by (simp add: w update_where_def)
qed

theorem scheduled_task_is_recorded_witness:
  "q_entries (qview_of (snd journey_crawled)) = [] \<and>
   map T_LastRunAt (tasks (w_db (fst (snd (listener_turn queue_scheduler (\<lambda>_. Some timeout_reply) (\<lambda>_. 91) 90 95 journey_crawled))))) = [Some 95]"
proof -
  have codec: "response_codec (\<lambda>r. if r = timeout_reply then Some ''r'' else None) (\<lambda>_. Some timeout_reply)"
    by (simp add: response_codec_def)
  have tid: "FR_TaskId (task_request 0 task1001) = ''1001''"
    by (simp add: task_request_def task1001_def id_1001)
  have reply: "timeout_reply = task_reply (task_request 0 task1001) deadline
      (Some (fst (FetchItems direct_env (demo_attempt False) (task_request 0 task1001) fresh_service empty_tks)))"
    by (simp add: FetchItems_direct task_reply_def timeout_reply_def wrap_err_def deadline_def tid)
  have row: "filter (\<lambda>t. T_ID t = 1001) (tasks (w_db (fst journey_start))) = [task1001]"
    by (simp add: journey_start_def task1001_def)
  have role: "snd (fst (load_user queue_scheduler task1001 journey_start)) \<noteq> ''guest''"
    by (simp add: load_user_def queue_scheduler_def with_queue_def world_db_def journey_start_def empty_tables_def)
  have mar: "S_marshal queue_scheduler (task_request 0 task1001) = Some raw1"
    by (simp add: queue_scheduler_def mar1001_def)
  have codec1: "protojson_codec (S_marshal queue_scheduler) unm1001"
    using codec1001 by (simp add: queue_scheduler_def)
  have empty: "queue_typed (snd journey_start)" "q_entries (qview_of (snd journey_start)) = []"
    "q_results (qview_of (snd journey_start)) = []" "intToString 1001 \<notin> q_pending (qview_of (snd journey_start))"
    by (simp_all add: journey_start_def id_1001 queue_typed_empty del: qview_of_sel) (simp add: empty_keyspace_def)
  show ?thesis
    using scheduled_task_is_recorded [where data = "''r''" and clk = "\<lambda>_. 91" and batchTime = 90 and now = 95,
        OF queue_sched.scheduler_services_axioms _ world_queue.redis_server_axioms
        world_queue.separate_queue_axioms _ codec1 codec _ empty row _ _ role mar reply _ refl refl journey_crawled_def refl]
    by (simp add: queue_scheduler_def with_queue_def task1001_def recorded_def journey_start_def prod.case_eq_if
        del: qview_of_sel)
qed

end
